(* ===== verification/Prelude.thy ===== *)
theory Prelude
  imports Main "HOL-Library.Word" "HOL-Library.AList"
begin

text \<open>
  Shared vocabulary of the development.

  \<^item> Machine integers: \<open>std::uint32_t\<close> is a \<open>32 word\<close>, \<open>std::uint64_t\<close> and
    \<open>std::size_t\<close> are a \<open>64 word\<close>; arithmetic on them wraps as in C++.
  \<^item> Time: a \<open>steady_clock::time_point\<close> is an \<open>int\<close> that counts nanoseconds;
    \<open>ms\<close> and \<open>sec\<close> are the \<open>std::chrono\<close> literals.
  \<^item> Faults: what the C++ program does not define or does not catch (a division by zero, a null
    pointer, an empty optional, an uncaught exception, \<open>abort\<close>) is a value of \<open>fault\<close>.
    \<open>DISTBU_CHECK\<close> of \<open>common/spdlogging.h\<close> only logs, so a failed check is no fault and the
    code after it runs.
  \<^item> \<open>std::unordered_map\<close>: an association list with distinct keys. Its order stands for
    the bucket order, over which the sources iterate, and the theorems hold for every such order.
  \<^item> Runs: \<open>run_steps\<close> executes a sequence of operations, each of which may end in a
    fault; the locale \<open>stepwise\<close> lifts an invariant of single operations to runs, and
    \<open>step_invariant\<close> does the same for a step relation.
\<close>

section \<open>Machine integers and time\<close>

type_synonym u32 = "32 word"
type_synonym u64 = "64 word"
type_synonym time_point = int

definition ms :: "int \<Rightarrow> int" where
  "ms n = n * 1000000"

definition sec :: "int \<Rightarrow> int" where
  "sec n = n * 1000000000"

lemma ms_le_iff [simp]: "ms a \<le> ms b \<longleftrightarrow> a \<le> b"
  by (simp add: ms_def)

lemma ms_nonneg [simp]: "0 \<le> ms a \<longleftrightarrow> 0 \<le> a"
  by (simp add: ms_def)

lemma ms_0 [simp]: "ms 0 = 0"
  by (simp add: ms_def)

lemma sec_ms: "sec a = ms (a * 1000)"
  by (simp add: sec_def ms_def)

text \<open>Word counters that are known not to overflow.\<close>

lemma unat_inc: "unat (w :: u64) < 2 ^ 64 - 1 \<Longrightarrow> unat (w + 1) = Suc (unat w)"
  by (simp add: unat_word_ariths)

lemma unat_inc_less: "(w :: u64) < v \<Longrightarrow> unat (w + 1) = Suc (unat w)"
  using unsigned_less[of v, where ?'a = nat] by (intro unat_inc) (auto simp: word_less_nat_alt)

lemma of_nat_eq_u64:
  "m < 2 ^ 64 \<Longrightarrow> n < 2 ^ 64 \<Longrightarrow> (of_nat m :: u64) = of_nat n \<longleftrightarrow> m = n"
  by (auto dest: arg_cong[where f = unat] simp: unat_of_nat)

lemma unat_of_nat_u64: "n < 2 ^ 64 \<Longrightarrow> unat (of_nat n :: u64) = n"
  by (simp add: unat_of_nat)

lemma unat_of_nat_u32: "n < 2 ^ 32 \<Longrightarrow> unat (of_nat n :: u32) = n"
  by (simp add: unat_of_nat)

section \<open>Faults\<close>

datatype fault =
    DivisionByZero
  | NullPointer
  | BadOptional
  | InvalidArgument
  | OutOfRange
  | Aborted

text \<open>Sequencing of computations that may end in a fault.\<close>

definition bind_fault :: "'e + 'a \<Rightarrow> ('a \<Rightarrow> 'e + 'b) \<Rightarrow> 'e + 'b" where
  "bind_fault m f = (case m of Inl e \<Rightarrow> Inl e | Inr x \<Rightarrow> f x)"

lemma bind_fault_simps [simp]:
  "bind_fault (Inl e) f = Inl e"
  "bind_fault (Inr x) f = f x"
  by (simp_all add: bind_fault_def)

lemma bind_fault_InrE [elim!]:
  assumes "bind_fault m f = Inr y"
  obtains x where "m = Inr x" and "f x = Inr y"
  using assms by (cases m) auto

section \<open>Hash maps\<close>

type_synonym ('k, 'v) umap = "('k \<times> 'v) list"

definition umap_find :: "('k, 'v) umap \<Rightarrow> 'k \<Rightarrow> 'v option" where
  "umap_find m k = map_of m k"

definition umap_set :: "'k \<Rightarrow> 'v \<Rightarrow> ('k, 'v) umap \<Rightarrow> ('k, 'v) umap" where
  "umap_set k v m = AList.update k v m"

definition umap_erase :: "'k \<Rightarrow> ('k, 'v) umap \<Rightarrow> ('k, 'v) umap" where
  "umap_erase k m = filter (\<lambda>(k', _). k' \<noteq> k) m"

definition umap_wf :: "('k, 'v) umap \<Rightarrow> bool" where
  "umap_wf m \<longleftrightarrow> distinct (map fst m)"

text \<open>The contract the clients of a hash map rely on.\<close>

locale keyed_store =
  fixes emp :: "'m"
    and look :: "'m \<Rightarrow> 'k \<Rightarrow> 'v option"
    and put :: "'k \<Rightarrow> 'v \<Rightarrow> 'm \<Rightarrow> 'm"
    and del :: "'k \<Rightarrow> 'm \<Rightarrow> 'm"
    and ok :: "'m \<Rightarrow> bool"
  assumes look_emp: "look emp k = None"
    and look_put: "look (put k v m) k' = (if k' = k then Some v else look m k')"
    and look_del: "look (del k m) k' = (if k' = k then None else look m k')"
    and ok_emp: "ok emp"
    and ok_put: "ok m \<Longrightarrow> ok (put k v m)"
    and ok_del: "ok m \<Longrightarrow> ok (del k m)"
begin

lemma look_put_same [simp]: "look (put k v m) k = Some v"
  by (simp add: look_put)

lemma look_del_same [simp]: "look (del k m) k = None"
  by (simp add: look_del)

lemma look_put_put: "look (put k v (put k w m)) = look (put k v m)"
  by (simp add: fun_eq_iff look_put)

lemma look_put_del: "look (put k v (del k m)) = look (put k v m)"
  by (simp add: fun_eq_iff look_put look_del)

lemma look_del_put: "look (del k (put k v m)) = look (del k m)"
  by (simp add: fun_eq_iff look_put look_del)

lemma look_fold_del:
  "look (fold del ks m) k = (if k \<in> set ks then None else look m k)"
  by (induction ks arbitrary: m) (auto simp: look_del)

lemma ok_fold_del: "ok m \<Longrightarrow> ok (fold del ks m)"
  by (induction ks arbitrary: m) (auto simp: ok_del)

end

lemma map_of_filter_key:
  "map_of (filter (\<lambda>(k', _). k' \<noteq> k) m) k' = (if k' = k then None else map_of m k')"
  by (induction m) auto

interpretation umap: keyed_store "[]" umap_find umap_set umap_erase umap_wf
proof (unfold_locales, goal_cases)
  case (1 k) show ?case by (simp add: umap_find_def)
next
  case (2 k v m k') show ?case by (simp add: umap_find_def umap_set_def update_conv')
next
  case (3 k m k') show ?case by (simp add: umap_find_def umap_erase_def map_of_filter_key)
next
  case 4 show ?case by (simp add: umap_wf_def)
next
  case (5 m k v) then show ?case by (simp add: umap_wf_def umap_set_def distinct_update)
next
  case (6 m k) then show ?case
    by (simp add: umap_wf_def umap_erase_def distinct_map_filter)
qed

lemma umap_find_iff: "umap_wf m \<Longrightarrow> umap_find m k = Some v \<longleftrightarrow> (k, v) \<in> set m"
  by (simp add: umap_wf_def umap_find_def)

lemma umap_find_SomeD: "umap_find m k = Some v \<Longrightarrow> (k, v) \<in> set m"
  by (simp add: umap_find_def map_of_SomeD)

lemma umap_find_None_iff: "umap_find m k = None \<longleftrightarrow> k \<notin> fst ` set m"
  by (simp add: umap_find_def map_of_eq_None_iff)

lemma set_umap_erase: "set (umap_erase k m) = {(k', v) \<in> set m. k' \<noteq> k}"
  by (auto simp: umap_erase_def)

lemma umap_set_fresh: "umap_find m k = None \<Longrightarrow> umap_set k v m = m @ [(k, v)]"
  by (simp add: umap_set_def umap_find_def update_nonempty[symmetric])
     (induction m; auto split: if_splits)

lemma find_SomeD: "find P xs = Some x \<Longrightarrow> x \<in> set xs \<and> P x"
  by (auto simp: find_Some_iff)

lemma Suc_length_remove1: "x \<in> set xs \<Longrightarrow> Suc (length (remove1 x xs)) = length xs"
  by (induction xs) auto

section \<open>Runs\<close>

fun run_steps :: "('op \<Rightarrow> 's \<Rightarrow> 'e + 's) \<Rightarrow> 'op list \<Rightarrow> 's \<Rightarrow> 'e + 's" where
  "run_steps step [] s = Inr s"
| "run_steps step (x # xs) s = bind_fault (step x s) (run_steps step xs)"

lemma run_steps_append:
  "run_steps step (xs @ ys) s = bind_fault (run_steps step xs s) (run_steps step ys)"
  by (induction xs arbitrary: s) (auto simp: bind_fault_def split: sum.split)

text \<open>
  An invariant indexed by the number of operations executed so far (so that counters may be
  bounded by it), kept by every operation below a limit, holds after every run below the limit,
  and no such run ends in a fault.
\<close>

locale stepwise =
  fixes step :: "'op \<Rightarrow> 's \<Rightarrow> 'e + 's"
    and inv :: "nat \<Rightarrow> 's \<Rightarrow> bool"
    and limit :: nat
  assumes step_inv: "inv n s \<Longrightarrow> n < limit \<Longrightarrow> \<exists>t. step x s = Inr t \<and> inv (Suc n) t"
begin

lemma run_inv:
  "inv n s \<Longrightarrow> n + length xs \<le> limit \<Longrightarrow>
     \<exists>t. run_steps step xs s = Inr t \<and> inv (n + length xs) t"
proof (induction xs arbitrary: n s)
  case Nil
  then show ?case by simp
next
  case (Cons x xs)
  then obtain t where t: "step x s = Inr t" "inv (Suc n) t"
    using step_inv[of n s x] by auto
  with Cons.IH[of "Suc n" t] Cons.prems show ?case by auto
qed

lemma run_invD:
  assumes "inv n s" and "n + length xs \<le> limit" and "run_steps step xs s = Inr t"
  shows "inv (n + length xs) t"
  using run_inv[OF assms(1,2)] assms(3) by auto

end

text \<open>Invariants of a step relation hold in every state that is reached.\<close>

locale step_invariant =
  fixes step :: "'s \<Rightarrow> 's \<Rightarrow> bool"
    and inv :: "'s \<Rightarrow> bool"
  assumes preserved: "step s t \<Longrightarrow> inv s \<Longrightarrow> inv t"
begin

lemma reach_inv: "step\<^sup>*\<^sup>* s t \<Longrightarrow> inv s \<Longrightarrow> inv t"
  by (induction rule: rtranclp_induct) (auto intro: preserved)

lemma run_inv: "inv (r 0) \<Longrightarrow> (\<And>n. step (r n) (r (Suc n))) \<Longrightarrow> inv (r n)"
  by (induction n) (auto intro: preserved)

end

end
