(* ===== verification/Decimal.thy ===== *)
theory Decimal
  imports Prelude
begin

text \<open>
  The C++ library's conversions between numbers and decimal strings, as the sources use them:
  \<open>std::to_string\<close> on a size, \<open>strtol\<close> in base 10, \<open>std::stol\<close> and
  \<open>std::stoul\<close>. A string is a list of bytes. \<open>c_str\<close> is what a C function sees of a
  \<open>std::string\<close>: the bytes before the first NUL. The main results say that reading back what
  \<open>to_string\<close> wrote gives the number, for every number in range.
\<close>

section \<open>Definitions\<close>

definition LONG_MAX :: int where
  "LONG_MAX = 2 ^ 63 - 1"

definition LONG_MIN :: int where
  "LONG_MIN = - (2 ^ 63)"

definition digit_char :: "nat \<Rightarrow> char" where
  "digit_char d = char_of (48 + d)"

fun to_string :: "nat \<Rightarrow> string" where
  "to_string n = (if n < 10 then [digit_char n] else to_string (n div 10) @ [digit_char (n mod 10)])"

declare to_string.simps [simp del]

definition is_digit :: "char \<Rightarrow> bool" where
  "is_digit c \<longleftrightarrow> 48 \<le> (of_char c :: nat) \<and> (of_char c :: nat) \<le> 57"

definition is_space :: "char \<Rightarrow> bool" where
  "is_space c \<longleftrightarrow> (of_char c :: nat) = 32 \<or> (9 \<le> (of_char c :: nat) \<and> (of_char c :: nat) \<le> 13)"

definition digits_val :: "string \<Rightarrow> nat" where
  "digits_val ds = foldl (\<lambda>v c. 10 * v + ((of_char c :: nat) - 48)) 0 ds"

definition c_str :: "string \<Rightarrow> string" where
  "c_str s = takeWhile (\<lambda>c. c \<noteq> CHR 0x00) s"

text \<open>
  The part \<open>strtol\<close> and \<open>strtoul\<close> share: white space is skipped, then an optional sign, then
  the longest run of digits; \<open>None\<close> when there is no digit.
\<close>

definition scan_integer :: "string \<Rightarrow> (bool \<times> nat) option" where
  "scan_integer s =
     (let t = dropWhile is_space (c_str s);
          neg = (t \<noteq> [] \<and> hd t = CHR ''-'');
          u = (if t \<noteq> [] \<and> (hd t = CHR ''-'' \<or> hd t = CHR ''+'') then tl t else t);
          ds = takeWhile is_digit u
      in if ds = [] then None else Some (neg, digits_val ds))"

definition signed_value :: "bool \<Rightarrow> nat \<Rightarrow> int" where
  "signed_value neg v = (if neg then - int v else int v)"

definition strtol :: "string \<Rightarrow> int" where
  "strtol s =
     (case scan_integer s of None \<Rightarrow> 0
      | Some (neg, v) \<Rightarrow> max LONG_MIN (min LONG_MAX (signed_value neg v)))"

definition stol :: "string \<Rightarrow> fault + int" where
  "stol s =
     (case scan_integer s of None \<Rightarrow> Inl InvalidArgument
      | Some (neg, v) \<Rightarrow>
          if signed_value neg v < LONG_MIN \<or> LONG_MAX < signed_value neg v then Inl OutOfRange
          else Inr (signed_value neg v))"

definition stoul :: "string \<Rightarrow> fault + u64" where
  "stoul s =
     (case scan_integer s of None \<Rightarrow> Inl InvalidArgument
      | Some (neg, v) \<Rightarrow>
          if 2 ^ 64 \<le> v then Inl OutOfRange
          else Inr (if neg then - of_nat v else of_nat v))"

section \<open>Digits\<close>

lemma of_char_digit_char [simp]: "d < 10 \<Longrightarrow> (of_char (digit_char d) :: nat) = 48 + d"
  by (simp add: digit_char_def)

lemma is_digit_digit_char [simp]: "d < 10 \<Longrightarrow> is_digit (digit_char d)"
  by (simp add: is_digit_def)

lemma to_string_ne [simp]: "to_string n \<noteq> []"
  by (subst to_string.simps) simp

lemma to_string_digits: "c \<in> set (to_string n) \<Longrightarrow> is_digit c"
proof (induction n rule: to_string.induct)
  case (1 n)
  then show ?case
    by (cases "n < 10") (auto simp: to_string.simps[of n])
qed

lemma digits_val_snoc [simp]: "digits_val (ds @ [c]) = 10 * digits_val ds + ((of_char c :: nat) - 48)"
  by (simp add: digits_val_def)

lemma digits_val_to_string [simp]: "digits_val (to_string n) = n"
proof (induction n rule: to_string.induct)
  case (1 n)
  show ?case
  proof (cases "n < 10")
    case True
    then show ?thesis by (simp add: to_string.simps[of n] digits_val_def)
  next
    case False
    with 1 show ?thesis by (simp add: to_string.simps[of n])
  qed
qed

lemma is_digit_not:
  "is_digit c \<Longrightarrow> c \<noteq> CHR 0x00" "is_digit c \<Longrightarrow> \<not> is_space c"
  "is_digit c \<Longrightarrow> c \<noteq> CHR ''-''" "is_digit c \<Longrightarrow> c \<noteq> CHR ''+''"
  "is_digit c \<Longrightarrow> c \<noteq> CHR '',''" "is_digit c \<Longrightarrow> c \<noteq> CHR 0x0A" "is_digit c \<Longrightarrow> c \<noteq> CHR 0x0D"
  by (auto simp: is_digit_def is_space_def)

lemma to_string_free:
  "CHR '','' \<notin> set (to_string n)" "CHR 0x0A \<notin> set (to_string n)" "CHR 0x0D \<notin> set (to_string n)"
  using to_string_digits is_digit_not(5-7) by blast+

section \<open>Reading back\<close>

lemma takeWhile_id: "(\<And>x. x \<in> set xs \<Longrightarrow> P x) \<Longrightarrow> takeWhile P xs = xs"
  by (simp add: takeWhile_eq_all_conv)

lemma c_str_to_string [simp]: "c_str (to_string n) = to_string n"
  unfolding c_str_def by (rule takeWhile_id) (use to_string_digits is_digit_not in blast)

lemma hd_to_string: "is_digit (hd (to_string n))"
  by (rule to_string_digits[of _ n]) simp

lemma scan_to_string [simp]: "scan_integer (to_string n) = Some (False, n)"
proof -
  have d: "dropWhile is_space (to_string n) = to_string n"
    using hd_to_string[of n] is_digit_not(2) by (cases "to_string n") auto
  have t: "takeWhile is_digit (to_string n) = to_string n"
    by (rule takeWhile_id) (rule to_string_digits)
  show ?thesis
    using hd_to_string[of n] is_digit_not(3,4)[of "hd (to_string n)"]
    by (auto simp: scan_integer_def Let_def d t)
qed

lemma strtol_to_string: "int n \<le> LONG_MAX \<Longrightarrow> strtol (to_string n) = int n"
  by (auto simp: strtol_def signed_value_def LONG_MAX_def LONG_MIN_def)

lemma stol_to_string: "int n \<le> LONG_MAX \<Longrightarrow> stol (to_string n) = Inr (int n)"
  by (auto simp: stol_def signed_value_def LONG_MAX_def LONG_MIN_def)

lemma stoul_to_string: "n < 2 ^ 64 \<Longrightarrow> stoul (to_string n) = Inr (of_nat n)"
  by (simp add: stoul_def)

lemma to_string_inj: "to_string m = to_string n \<longleftrightarrow> m = n"
  by (metis digits_val_to_string)

end
