(* ===== verification/Tools.thy ===== *)
theory Tools
  imports Decimal
begin

text \<open>
  \<open>common/tools.h\<close>: prefix and suffix tests, \<open>Split\<close>, \<open>EscapeCommandArgument\<close>, and the
  archive format of \<open>PackFiles\<close> and \<open>TryUnpackFiles\<close> (a line with the total size, a line of
  comma-separated suffixes, a line of comma-separated sizes, then the contents).
  A string's \<open>size()\<close> is the length of the list; it becomes a 64-bit word where the source
  computes with it.
\<close>

section \<open>Definitions\<close>

definition StartWith :: "string \<Rightarrow> string \<Rightarrow> bool" where
  "StartWith s pattern \<longleftrightarrow>
     length s \<ge> length pattern \<and> take (length pattern) s = pattern"

definition EndWith :: "string \<Rightarrow> string \<Rightarrow> bool" where
  "EndWith s pattern \<longleftrightarrow>
     length s \<ge> length pattern \<and> drop (length s - length pattern) s = pattern"

text \<open>\<open>std::string_view::find\<close>: the first position at which the pattern occurs.\<close>

fun find_sub :: "string \<Rightarrow> string \<Rightarrow> nat option" where
  "find_sub pat [] = (if pat = [] then Some 0 else None)"
| "find_sub pat (x # xs) =
     (if StartWith (x # xs) pat then Some 0 else map_option Suc (find_sub pat xs))"

text \<open>
  The \<open>while (true)\<close> loop of \<open>Split\<close>, for a delimiter that is not empty: \<open>cur\<close> gets
  shorter in every iteration.
\<close>

function Split_loop :: "string \<Rightarrow> string \<Rightarrow> bool \<Rightarrow> string list" where
  "Split_loop cur delim keep_empty =
     (let pos = find_sub delim cur;
          pushed = (if pos \<noteq> Some 0 \<or> keep_empty
                    then [case pos of None \<Rightarrow> cur | Some p \<Rightarrow> take p cur] else [])
      in case pos of None \<Rightarrow> pushed
         | Some p \<Rightarrow>
             (let cur' = drop (p + length delim) cur
              in if cur' = [] \<or> delim = [] then pushed @ (if keep_empty then [[]] else [])
                 else pushed @ Split_loop cur' delim keep_empty))"
  by pat_completeness auto
termination
  by (relation "measure (\<lambda>(cur, delim, keep). length cur)") (auto simp flip: length_greater_0_conv)

declare Split_loop.simps [simp del]

text \<open>
  \<open>Split\<close> with a string delimiter. The check that the delimiter is not empty only logs; with an
  empty delimiter and a non-empty input the loop never ends, which is the result \<open>None\<close>.
\<close>

definition Split :: "string \<Rightarrow> string \<Rightarrow> bool \<Rightarrow> string list option" where
  "Split s delim keep_empty =
     (if s = [] then Some []
      else if delim = [] then None
      else Some (Split_loop s delim keep_empty))"

text \<open>The overload with a character delimiter.\<close>

definition Split_char :: "string \<Rightarrow> char \<Rightarrow> bool \<Rightarrow> string list" where
  "Split_char s delim keep_empty = (if s = [] then [] else Split_loop s [delim] keep_empty)"

definition escaped_chars :: string where
  "escaped_chars = '' ><!'' @ [CHR 0x22] @ ''#$&()*,:;?@['' @ [CHR 0x5C] @ '']'' @ [CHR 0x60] @ ''{}''"

definition escape_char :: "char \<Rightarrow> string" where
  "escape_char c =
     (if c = CHR 0x07 then [CHR 0x5C, CHR ''a'']
      else if c = CHR 0x08 then [CHR 0x5C, CHR ''b'']
      else if c = CHR 0x0C then [CHR 0x5C, CHR ''f'']
      else if c = CHR 0x0A then [CHR 0x5C, CHR ''n'']
      else if c = CHR 0x0D then [CHR 0x5C, CHR ''r'']
      else if c = CHR 0x09 then [CHR 0x5C, CHR ''t'']
      else if c = CHR 0x0B then [CHR 0x5C, CHR ''v'']
      else if c \<in> set escaped_chars then [CHR 0x5C, c]
      else [c])"

fun EscapeCommandArgument :: "string \<Rightarrow> string" where
  "EscapeCommandArgument [] = []"
| "EscapeCommandArgument (c # cs) = escape_char c @ EscapeCommandArgument cs"

text \<open>\<open>PackFiles\<close>. The running total of the sizes is a \<open>std::size_t\<close>.\<close>

definition suffix_line :: "(string \<times> string) list \<Rightarrow> string" where
  "suffix_line files = butlast (concat (map (\<lambda>(suffix, file). suffix @ '','') files)) @ [CHR 0x0A]"

definition size_line :: "(string \<times> string) list \<Rightarrow> string" where
  "size_line files =
     butlast (concat (map (\<lambda>(suffix, file). to_string (length file) @ '','') files)) @ [CHR 0x0A]"

definition files_total :: "(string \<times> string) list \<Rightarrow> u64" where
  "files_total files = foldl (\<lambda>n (suffix, file). n + of_nat (length file)) 0 files"

definition PackFiles :: "(string \<times> string) list \<Rightarrow> string" where
  "PackFiles files =
     (if files = [] then []
      else to_string (unat (files_total files)) @ [CHR 0x0A] @ suffix_line files @ size_line files
           @ concat (map snd files))"

text \<open>
  \<open>std::getline\<close> on a string stream: the bytes before the next newline, and what is left
  after it.
\<close>

definition getline :: "string \<Rightarrow> string \<times> string" where
  "getline s = (takeWhile (\<lambda>c. c \<noteq> CHR 0x0A) s, drop 1 (dropWhile (\<lambda>c. c \<noteq> CHR 0x0A) s))"

text \<open>\<open>std::string::substr\<close>, which throws when the start lies beyond the end.\<close>

definition substr :: "string \<Rightarrow> u64 \<Rightarrow> u64 \<Rightarrow> fault + string" where
  "substr s pos len =
     (if length s < unat pos then Inl OutOfRange else Inr (take (unat len) (drop (unat pos) s)))"

fun unpack_loop :: "string \<Rightarrow> u64 \<Rightarrow> (string \<times> string) list \<Rightarrow> fault + (string \<times> string) list" where
  "unpack_loop packed pos [] = Inr []"
| "unpack_loop packed pos ((suffix, sz) # rest) =
     bind_fault (stoul sz) (\<lambda>len.
     bind_fault (substr packed pos len) (\<lambda>content.
     bind_fault (unpack_loop packed (pos + len) rest) (\<lambda>result.
     Inr ((suffix, content) # result))))"

definition TryUnpackFiles :: "string \<Rightarrow> fault + (string \<times> string) list option" where
  "TryUnpackFiles packed =
     (let (length_line, rest1) = getline packed;
          (suffixs_line, rest2) = getline rest1;
          (sizes_line, rest3) = getline rest2;
          head_size = (of_nat (length length_line + 1) + of_nat (length suffixs_line + 1)
                       + of_nat (length sizes_line + 1) :: u64);
          suffixs = Split_char suffixs_line CHR '','' False;
          sizes = Split_char sizes_line CHR '','' False
      in bind_fault (stol length_line) (\<lambda>files_size.
         if length suffixs \<noteq> length sizes then Inr None
         else if (of_nat (length packed) - head_size :: u64) \<noteq> word_of_int files_size then Inr None
         else bind_fault (unpack_loop packed head_size (zip suffixs sizes)) (\<lambda>result.
              Inr (Some result))))"

section \<open>Searching and splitting\<close>

lemma StartWith_iff: "StartWith s pattern \<longleftrightarrow> (\<exists>t. s = pattern @ t)"
  by (auto simp: StartWith_def) (metis append_take_drop_id)

lemma EndWith_iff: "EndWith s pattern \<longleftrightarrow> (\<exists>t. s = t @ pattern)"
  by (auto simp: EndWith_def) (metis append_take_drop_id)

lemma StartWith_char [simp]: "StartWith s [c] \<longleftrightarrow> s \<noteq> [] \<and> hd s = c"
  by (cases s) (auto simp: StartWith_iff)

lemma find_sub_char_None [simp]: "c \<notin> set s \<Longrightarrow> find_sub [c] s = None"
  by (induction s) auto

lemma find_sub_char [simp]: "c \<notin> set s \<Longrightarrow> find_sub [c] (s @ c # t) = Some (length s)"
  by (induction s) auto

text \<open>One iteration of the loop, for a character delimiter.\<close>

lemma Split_loop_last: "c \<notin> set s \<Longrightarrow> Split_loop s [c] keep = [s]"
  by (simp add: Split_loop.simps[of s])

lemma Split_loop_piece:
  "c \<notin> set s \<Longrightarrow> Split_loop (s @ c # t) [c] keep =
     (if s \<noteq> [] \<or> keep then [s] else []) @
     (if t = [] then (if keep then [[]] else []) else Split_loop t [c] keep)"
  by (subst Split_loop.simps) (simp add: Let_def)

lemma Split_loop_delim:
  "Split_loop (c # t) [c] False = (if t = [] then [] else Split_loop t [c] False)"
  using Split_loop_piece[of c "[]" t False] by simp

lemma Split_Split_char: "Split s [c] keep = Some (Split_char s c keep)"
  by (simp add: Split_def Split_char_def)

text \<open>
  Splitting a separated list gives the list back, both with one separator after every element
  and with two; the trailing one is dropped.
\<close>

definition splittable :: "char \<Rightarrow> string list \<Rightarrow> bool" where
  "splittable c xs \<longleftrightarrow> (\<forall>x \<in> set xs. x \<noteq> [] \<and> c \<notin> set x)"

lemma splittable_simps [simp]:
  "splittable c []"
  "splittable c (x # xs) \<longleftrightarrow> x \<noteq> [] \<and> c \<notin> set x \<and> splittable c xs"
  by (auto simp: splittable_def)

fun sep_join :: "string \<Rightarrow> string list \<Rightarrow> string" where
  "sep_join d [] = []"
| "sep_join d [x] = x"
| "sep_join d (x # y # ys) = x @ d @ sep_join d (y # ys)"

lemma sep_join_ne: "xs \<noteq> [] \<Longrightarrow> splittable c xs \<Longrightarrow> sep_join d xs \<noteq> []"
  by (induction d xs rule: sep_join.induct) auto

lemma concat_map_snoc_ne: "xs \<noteq> [] \<Longrightarrow> concat (map (\<lambda>x. x @ c # ys) xs) \<noteq> []"
  by (cases xs) auto

lemma butlast_join1: "butlast (concat (map (\<lambda>x. x @ [c]) xs)) = sep_join [c] xs"
  by (induction "[c]" xs rule: sep_join.induct) (auto simp: butlast_append)

lemma butlast_join2:
  "xs \<noteq> [] \<Longrightarrow> butlast (concat (map (\<lambda>x. x @ [c, c]) xs)) = sep_join [c, c] xs @ [c]"
  by (induction "[c, c]" xs rule: sep_join.induct) (auto simp: butlast_append)

lemma Split_char_join:
  "xs \<noteq> [] \<Longrightarrow> splittable c xs \<Longrightarrow> Split_char (sep_join [c] xs) c False = xs"
proof (induction "[c]" xs rule: sep_join.induct)
  case (3 x y ys)
  with sep_join_ne[of "y # ys" c "[c]"] show ?case
    by (auto simp: Split_char_def Split_loop_piece)
qed (auto simp: Split_char_def Split_loop_last)

lemma Split_char_join2:
  "xs \<noteq> [] \<Longrightarrow> splittable c xs \<Longrightarrow> Split_char (sep_join [c, c] xs @ [c]) c False = xs"
proof (induction "[c, c]" xs rule: sep_join.induct)
  case (3 x y ys)
  with sep_join_ne[of "y # ys" c "[c, c]"] show ?case
    by (auto simp: Split_char_def Split_loop_piece Split_loop_delim)
qed (auto simp: Split_char_def Split_loop_piece)

text \<open>
  With \<open>keep_empty\<close>, the pieces of a separated list are exactly its elements, the empty ones
  too, unless the whole input is empty.
\<close>

lemma Split_char_join_keep:
  "\<forall>x \<in> set xs. c \<notin> set x \<Longrightarrow> sep_join [c] xs \<noteq> [] \<Longrightarrow> Split_char (sep_join [c] xs) c True = xs"
proof (induction "[c]" xs rule: sep_join.induct)
  case (3 x y ys)
  then show ?case
  proof (cases "sep_join [c] (y # ys) = []")
    case True
    then have "y = [] \<and> ys = []" by (cases ys) auto
    with 3 show ?thesis by (simp add: Split_char_def Split_loop_piece)
  next
    case False
    with 3 show ?thesis by (auto simp: Split_char_def Split_loop_piece)
  qed
qed (auto simp: Split_char_def Split_loop_last)

text \<open>Conversely, every string is the separated list of its pieces.\<close>

lemma Split_loop_rejoin: "Split_loop s [c] True \<noteq> [] \<and> sep_join [c] (Split_loop s [c] True) = s"
proof (induction "length s" arbitrary: s rule: less_induct)
  case less
  show ?case
  proof (cases "c \<in> set s")
    case False
    then show ?thesis by (simp add: Split_loop_last)
  next
    case True
    then obtain p t where s: "s = p @ c # t" and p: "c \<notin> set p"
      using split_list_first by metis
    show ?thesis
    proof (cases "t = []")
      case True
      with s p show ?thesis by (simp add: Split_loop_piece)
    next
      case False
      with less[of t] s have "Split_loop t [c] True \<noteq> []" "sep_join [c] (Split_loop t [c] True) = t"
        by simp_all
      with s p False show ?thesis
        by (cases "Split_loop t [c] True") (simp_all add: Split_loop_piece)
    qed
  qed
qed

lemma Split_loop_free: "\<forall>t \<in> set (Split_loop s [c] True). c \<notin> set t"
proof (induction "length s" arbitrary: s rule: less_induct)
  case less
  show ?case
  proof (cases "c \<in> set s")
    case False
    then show ?thesis by (simp add: Split_loop_last)
  next
    case True
    then obtain p t where s: "s = p @ c # t" and p: "c \<notin> set p"
      using split_list_first by metis
    with less[of t] show ?thesis by (cases "t = []") (auto simp: Split_loop_piece)
  qed
qed

section \<open>Escaping\<close>

text \<open>An inverse of the escaping.\<close>

fun Unescape :: "string \<Rightarrow> string" where
  "Unescape [] = []"
| "Unescape [c] = [c]"
| "Unescape (c # d # cs) =
     (if c \<noteq> CHR 0x5C then c # Unescape (d # cs)
      else (if d = CHR ''a'' then CHR 0x07 else if d = CHR ''b'' then CHR 0x08
            else if d = CHR ''f'' then CHR 0x0C else if d = CHR ''n'' then CHR 0x0A
            else if d = CHR ''r'' then CHR 0x0D else if d = CHR ''t'' then CHR 0x09
            else if d = CHR ''v'' then CHR 0x0B else d) # Unescape cs)"

lemma escape_char_shape:
  "escape_char c = [c] \<and> c \<noteq> CHR 0x5C \<or>
   (\<exists>d. escape_char c = [CHR 0x5C, d] \<and> (\<forall>cs. Unescape (CHR 0x5C # d # cs) = c # Unescape cs))"
  by (auto simp: escape_char_def escaped_chars_def)

lemma Unescape_plain: "c \<noteq> CHR 0x5C \<Longrightarrow> Unescape (c # cs) = c # Unescape cs"
  by (cases cs) auto

lemma Unescape_EscapeCommandArgument: "Unescape (EscapeCommandArgument s) = s"
proof (induction s)
  case Nil
  then show ?case by simp
next
  case (Cons c cs)
  from escape_char_shape[of c] Cons show ?case
    by (auto simp: Unescape_plain)
qed

section \<open>The archive format\<close>

text \<open>What two ends of a wire format promise each other.\<close>

locale codec =
  fixes enc :: "'a \<Rightarrow> 's"
    and dec :: "'s \<Rightarrow> 'a option"
    and wf :: "'a \<Rightarrow> bool"
  assumes dec_enc: "wf x \<Longrightarrow> dec (enc x) = Some x"
begin

lemma enc_inj: "wf x \<Longrightarrow> wf y \<Longrightarrow> enc x = enc y \<longleftrightarrow> x = y"
  using dec_enc by (metis option.inject)

lemma dec_enc_all: "\<forall>x \<in> set xs. wf x \<Longrightarrow> map dec (map enc xs) = map Some xs"
  by (simp add: dec_enc)

end

definition packable :: "(string \<times> string) list \<Rightarrow> bool" where
  "packable files \<longleftrightarrow>
     files \<noteq> [] \<and> splittable CHR '','' (map fst files) \<and>
     (\<forall>suffix \<in> set (map fst files). CHR 0x0A \<notin> set suffix) \<and>
     length (PackFiles files) \<le> 2 ^ 63 - 1"

lemma getline_line: "CHR 0x0A \<notin> set s \<Longrightarrow> getline (s @ CHR 0x0A # t) = (s, t)"
  by (induction s) (auto simp: getline_def)

lemma suffix_line_join: "suffix_line files = sep_join '','' (map fst files) @ [CHR 0x0A]"
  using butlast_join1[of "CHR '',''" "map fst files"]
  by (simp add: suffix_line_def comp_def case_prod_unfold)

lemma size_line_join:
  "size_line files = sep_join '','' (map (to_string \<circ> length \<circ> snd) files) @ [CHR 0x0A]"
  using butlast_join1[of "CHR '',''" "map (to_string \<circ> length \<circ> snd) files"]
  by (simp add: size_line_def comp_def case_prod_unfold)

lemma set_sep_join: "set (sep_join d xs) \<subseteq> set d \<union> (\<Union>x \<in> set xs. set x)"
  by (induction d xs rule: sep_join.induct) auto

lemma sizes_splittable: "splittable CHR '','' (map (to_string \<circ> f) files)"
  by (auto simp: splittable_def to_string_free)

lemma newline_free_sizes: "CHR 0x0A \<notin> set (sep_join '','' (map (to_string \<circ> f) files))"
  using set_sep_join[of "'',''" "map (to_string \<circ> f) files"] to_string_free(2) by fastforce

lemma newline_free_suffixes:
  "\<forall>x \<in> set xs. CHR 0x0A \<notin> set x \<Longrightarrow> CHR 0x0A \<notin> set (sep_join '','' xs)"
  using set_sep_join[of "'',''" xs] by fastforce

lemma files_total_acc:
  "foldl (\<lambda>n (suffix, file). n + of_nat (length file)) a files =
     a + (of_nat (length (concat (map snd files))) :: u64)"
  by (induction files arbitrary: a) (auto simp: algebra_simps)

lemma files_total_eq: "files_total files = of_nat (length (concat (map snd files)))"
  by (simp add: files_total_def files_total_acc)

text \<open>The loop of \<open>TryUnpackFiles\<close> reads the contents back one after the other.\<close>

lemma unpack_loop_contents:
  "length (pre @ concat (map snd files)) < 2 ^ 64 \<Longrightarrow>
   unpack_loop (pre @ concat (map snd files)) (of_nat (length pre))
     (zip (map fst files) (map (to_string \<circ> length \<circ> snd) files)) = Inr files"
proof (induction files arbitrary: pre)
  case Nil
  then show ?case by simp
next
  case (Cons f files)
  obtain suffix content where f: "f = (suffix, content)" by (cases f)
  have lt: "length pre < 2 ^ 64" "length content < 2 ^ 64" using Cons.prems f by auto
  from Cons.IH[of "pre @ content"] Cons.prems f lt show ?case
    by (simp add: stoul_to_string substr_def unat_of_nat_u64)
qed

lemma TryUnpackFiles_PackFiles:
  assumes "packable files"
  shows "TryUnpackFiles (PackFiles files) = Inr (Some files)"
proof -
  let ?body = "concat (map snd files)"
  let ?l1 = "to_string (length ?body)"
  let ?l2 = "sep_join '','' (map fst files)"
  let ?l3 = "sep_join '','' (map (to_string \<circ> length \<circ> snd) files)"
  let ?head = "?l1 @ CHR 0x0A # ?l2 @ CHR 0x0A # ?l3 @ [CHR 0x0A]"
  from assms have ne: "files \<noteq> []" and len: "length (PackFiles files) \<le> 2 ^ 63 - 1"
    and sp: "splittable CHR '','' (map fst files)"
    and nl: "\<forall>x \<in> set (map fst files). CHR 0x0A \<notin> set x"
    by (auto simp: packable_def)
  have sz: "length ?body < 2 ^ 64"
    using len ne by (simp add: PackFiles_def)
  then have packed: "PackFiles files = ?head @ ?body"
    using ne by (simp add: PackFiles_def files_total_eq suffix_line_join size_line_join unat_of_nat_u64)
  have g1: "getline (PackFiles files) = (?l1, ?l2 @ CHR 0x0A # ?l3 @ CHR 0x0A # ?body)"
    using getline_line[OF to_string_free(2)] by (simp add: packed)
  have g2: "getline (?l2 @ CHR 0x0A # ?l3 @ CHR 0x0A # ?body) = (?l2, ?l3 @ CHR 0x0A # ?body)"
    using getline_line[OF newline_free_suffixes[OF nl]] .
  have g3: "getline (?l3 @ CHR 0x0A # ?body) = (?l3, ?body)"
    using getline_line[OF newline_free_sizes[of "length \<circ> snd" files]] by (simp add: comp_assoc)
  have s2: "Split_char ?l2 CHR '','' False = map fst files"
    using ne sp by (simp add: Split_char_join)
  have s3: "Split_char ?l3 CHR '','' False = map (to_string \<circ> length \<circ> snd) files"
    using ne sizes_splittable[of "length \<circ> snd" files] by (simp add: Split_char_join comp_assoc)
  have st: "stol ?l1 = Inr (int (length ?body))"
    using len by (intro stol_to_string) (simp add: packed LONG_MAX_def)
  have lp: "(of_nat (length (PackFiles files)) - of_nat (length ?head) :: u64) = of_nat (length ?body)"
    by (simp add: packed)
  have ul: "unpack_loop (PackFiles files) (of_nat (length ?head))
      (zip (map fst files) (map (to_string \<circ> length \<circ> snd) files)) = Inr files"
    using len unpack_loop_contents[of ?head files] by (simp add: packed)
  have hs: "(of_nat (length ?l1 + 1) + of_nat (length ?l2 + 1) + of_nat (length ?l3 + 1) :: u64)
      = of_nat (length ?head)" by simp
  show ?thesis
    unfolding TryUnpackFiles_def g1 g2 g3 Let_def prod.case s2 s3 st hs lp bind_fault_simps ul
    by simp
qed

interpretation archive: codec PackFiles
  "\<lambda>s. case TryUnpackFiles s of Inl _ \<Rightarrow> None | Inr r \<Rightarrow> r" packable
  by unfold_locales (simp add: TryUnpackFiles_PackFiles)

end
