(* ===== verification/MultiChunk.thy ===== *)
theory MultiChunk
  imports Tools
begin

text \<open>
  \<open>common/multi_chunk.h\<close>: the body format of the HTTP calls between the client and the local
  daemon. The first line holds the sizes of the chunks, separated by commas and ended by CR LF;
  the chunks follow. Two writers produce it: \<open>MakeMultiChunkHeaderLine\<close> (the client sends the
  line and then the parts) and \<open>MakeMultiChunk\<close> (the daemon's answers), which writes two commas
  after every size. Both are read by \<open>TryParseMultiChunk\<close>.
\<close>

section \<open>Definitions\<close>

definition MakeMultiChunkHeaderLine :: "string list \<Rightarrow> string" where
  "MakeMultiChunkHeaderLine parts =
     (if parts = [] then []
      else butlast (concat (map (\<lambda>e. to_string (length e) @ '','') parts)) @ [CHR 0x0D, CHR 0x0A])"

definition MakeMultiChunk :: "string list \<Rightarrow> string" where
  "MakeMultiChunk parts =
     (if parts = [] then []
      else butlast (concat (map (\<lambda>e. to_string (length e) @ '',,'') parts)) @ [CHR 0x0D, CHR 0x0A]
           @ concat parts)"

text \<open>
  The loop over the sizes: \<open>None\<close> is the early \<open>return std::nullopt\<close>; otherwise the sizes
  and their sum as a \<open>std::size_t\<close>.
\<close>

fun parse_sizes :: "string list \<Rightarrow> u64 list \<Rightarrow> u64 \<Rightarrow> (u64 list \<times> u64) option" where
  "parse_sizes [] parsed_size total_size = Some (parsed_size, total_size)"
| "parse_sizes (e # es) parsed_size total_size =
     (let sz = strtol e
      in if sz \<le> 0 \<or> sz = LONG_MAX \<or> sz = LONG_MIN then None
         else parse_sizes es (parsed_size @ [word_of_int sz]) (total_size + word_of_int sz))"

text \<open>The last loop: \<open>substr\<close> clips at the end, \<open>remove_prefix\<close> drops what was taken.\<close>

fun cut_chunks :: "u64 list \<Rightarrow> string \<Rightarrow> string list" where
  "cut_chunks [] rest_bytes = []"
| "cut_chunks (e # es) rest_bytes =
     take (unat e) rest_bytes # cut_chunks es (drop (unat e) rest_bytes)"

definition TryParseMultiChunk :: "string \<Rightarrow> string list option" where
  "TryParseMultiChunk view =
     (if view = [] then Some []
      else case find_sub [CHR 0x0A] view of
        None \<Rightarrow> None
      | Some delim \<Rightarrow>
          if delim = 0 \<or> view ! (delim - 1) \<noteq> CHR 0x0D then None
          else
            (let sizes = Split_char (take (delim - 1) view) CHR '','' False;
                 rest_bytes = drop (delim + 1) view
             in case parse_sizes sizes [] 0 of
                  None \<Rightarrow> None
                | Some (parsed_size, total_size) \<Rightarrow>
                    if total_size \<noteq> of_nat (length rest_bytes) then None
                    else Some (cut_chunks parsed_size rest_bytes)))"

section \<open>Reading back\<close>

definition chunkable :: "string list \<Rightarrow> bool" where
  "chunkable parts \<longleftrightarrow> (\<forall>e \<in> set parts. e \<noteq> []) \<and> int (length (concat parts)) < LONG_MAX"

lemma chunkable_Cons:
  "chunkable (e # es) \<Longrightarrow> e \<noteq> [] \<and> int (length e) < LONG_MAX \<and> chunkable es"
  by (auto simp: chunkable_def)

lemma parse_sizes_lengths:
  "chunkable parts \<Longrightarrow>
   parse_sizes (map (to_string \<circ> length) parts) acc tot =
     Some (acc @ map (of_nat \<circ> length) parts, tot + of_nat (length (concat parts)))"
proof (induction parts arbitrary: acc tot)
  case Nil
  then show ?case by simp
next
  case (Cons e es)
  then have "e \<noteq> []" "int (length e) < LONG_MAX" "chunkable es"
    by (auto dest: chunkable_Cons)
  with Cons.IH show ?case
    by (simp add: strtol_to_string LONG_MIN_def algebra_simps)
qed

lemma cut_chunks_concat:
  "chunkable parts \<Longrightarrow> cut_chunks (map (of_nat \<circ> length) parts) (concat parts) = parts"
proof (induction parts)
  case Nil
  then show ?case by simp
next
  case (Cons e es)
  then have "length e < 2 ^ 64" "chunkable es"
    by (auto dest!: chunkable_Cons simp: LONG_MAX_def)
  with Cons.IH show ?case by (simp add: unat_of_nat_u64)
qed

text \<open>
  A body whose header splits into the sizes is read back, whatever the number of commas the
  writer put between them.
\<close>

lemma TryParseMultiChunk_body:
  assumes parts: "parts \<noteq> []" "chunkable parts"
    and hdr: "Split_char hdr CHR '','' False = map (to_string \<circ> length) parts"
    and free: "CHR 0x0A \<notin> set hdr"
  shows "TryParseMultiChunk (hdr @ CHR 0x0D # CHR 0x0A # concat parts) = Some parts"
proof -
  let ?v = "hdr @ CHR 0x0D # CHR 0x0A # concat parts"
  have f: "find_sub [CHR 0x0A] ?v = Some (Suc (length hdr))"
    using find_sub_char[of "CHR 0x0A" "hdr @ [CHR 0x0D]" "concat parts"] free by simp
  have p: "parse_sizes (map (to_string \<circ> length) parts) [] 0 =
      Some (map (of_nat \<circ> length) parts, of_nat (length (concat parts)))"
    using parse_sizes_lengths[OF parts(2), of "[]" 0] by simp
  show ?thesis
    using cut_chunks_concat[OF parts(2)]
    by (simp add: TryParseMultiChunk_def f hdr p Let_def nth_append del: length_concat)
qed

lemma header_free: "CHR 0x0A \<notin> set d \<Longrightarrow> CHR 0x0A \<notin> set (sep_join d (map (to_string \<circ> f) xs))"
  using set_sep_join[of d "map (to_string \<circ> f) xs"] to_string_free(2) by fastforce

lemma MakeMultiChunkHeaderLine_join:
  "parts \<noteq> [] \<Longrightarrow> MakeMultiChunkHeaderLine parts =
     sep_join '','' (map (to_string \<circ> length) parts) @ [CHR 0x0D, CHR 0x0A]"
  using butlast_join1[of "CHR '',''" "map (to_string \<circ> length) parts"]
  by (simp add: MakeMultiChunkHeaderLine_def comp_def)

lemma MakeMultiChunk_join:
  "parts \<noteq> [] \<Longrightarrow> MakeMultiChunk parts =
     (sep_join '',,'' (map (to_string \<circ> length) parts) @ '','') @ CHR 0x0D # CHR 0x0A # concat parts"
  using butlast_join2[of "map (to_string \<circ> length) parts" "CHR '',''"]
  by (simp add: MakeMultiChunk_def comp_def)

lemma parse_client_body:
  assumes "parts \<noteq> []" and "chunkable parts"
  shows "TryParseMultiChunk (MakeMultiChunkHeaderLine parts @ concat parts) = Some parts"
  using TryParseMultiChunk_body[OF assms Split_char_join] header_free[of "'',''" length parts]
    assms sizes_splittable[of length parts]
  by (simp add: MakeMultiChunkHeaderLine_join)

lemma parse_daemon_body:
  assumes "parts \<noteq> []" and "chunkable parts"
  shows "TryParseMultiChunk (MakeMultiChunk parts) = Some parts"
  using TryParseMultiChunk_body[OF assms Split_char_join2] header_free[of "'',,''" length parts]
    assms sizes_splittable[of length parts]
  by (simp add: MakeMultiChunk_join)

interpretation client_body: codec "\<lambda>parts. MakeMultiChunkHeaderLine parts @ concat parts"
  TryParseMultiChunk "\<lambda>parts. parts \<noteq> [] \<and> chunkable parts"
  by unfold_locales (simp add: parse_client_body)

interpretation daemon_body: codec MakeMultiChunk TryParseMultiChunk
  "\<lambda>parts. parts \<noteq> [] \<and> chunkable parts"
  by unfold_locales (simp add: parse_daemon_body)

text \<open>An empty chunk makes the whole body unreadable, since a size of 0 is refused.\<close>

lemma parse_sizes_zero: "to_string 0 \<in> set es \<Longrightarrow> parse_sizes es acc tot = None"
  by (induction es arbitrary: acc tot) (auto simp: Let_def strtol_to_string LONG_MAX_def)

lemma TryParseMultiChunk_empty_chunk:
  assumes hdr: "Split_char hdr CHR '','' False = map (to_string \<circ> length) parts"
    and free: "CHR 0x0A \<notin> set hdr" and e: "[] \<in> set parts"
  shows "TryParseMultiChunk (hdr @ CHR 0x0D # CHR 0x0A # body) = None"
proof -
  have f: "find_sub [CHR 0x0A] (hdr @ CHR 0x0D # CHR 0x0A # body) = Some (Suc (length hdr))"
    using find_sub_char[of "CHR 0x0A" "hdr @ [CHR 0x0D]" body] free by simp
  have "to_string 0 \<in> set (map (to_string \<circ> length) parts)"
    using e by force
  then show ?thesis
    by (simp add: TryParseMultiChunk_def f hdr Let_def nth_append parse_sizes_zero)
qed

lemma daemon_body_empty_chunk:
  assumes "[] \<in> set parts"
  shows "TryParseMultiChunk (MakeMultiChunk parts) = None"
proof -
  from assms have ne: "parts \<noteq> []" by auto
  then show ?thesis
    using TryParseMultiChunk_empty_chunk[OF Split_char_join2 _ assms]
      header_free[of "'',,''" length parts] sizes_splittable[of length parts]
    by (simp add: MakeMultiChunk_join)
qed

end
