(* ===== verification/Tokens.thy ===== *)
theory Tokens
  imports Tools
begin

text \<open>
  \<open>common/encode.h\<close> (hexadecimal encoding through two lookup tables) and
  \<open>common/token_verifier.h\<close> (the set of accepted tokens and its construction from a
  comma-separated flag).
\<close>

unbundle bit_operations_syntax

section \<open>Definitions\<close>

definition kHexCharsLowercase :: "(char \<times> char) list" where
  "kHexCharsLowercase =
     map (\<lambda>i. (''0123456789abcdef'' ! (drop_bit 4 i AND 15), ''0123456789abcdef'' ! (i AND 15))) [0..<256]"

definition kHexCharsUppercase :: "(char \<times> char) list" where
  "kHexCharsUppercase =
     map (\<lambda>i. (''0123456789ABCDEF'' ! (drop_bit 4 i AND 15), ''0123456789ABCDEF'' ! (i AND 15))) [0..<256]"

fun EncodeHex_loop :: "(char \<times> char) list \<Rightarrow> string \<Rightarrow> string" where
  "EncodeHex_loop hex_chars [] = []"
| "EncodeHex_loop hex_chars (e # from) =
     [fst (hex_chars ! of_char e), snd (hex_chars ! of_char e)] @ EncodeHex_loop hex_chars from"

definition EncodeHex :: "string \<Rightarrow> bool \<Rightarrow> string" where
  "EncodeHex from uppercase =
     EncodeHex_loop (if uppercase then kHexCharsUppercase else kHexCharsLowercase) from"

record TokenVerifier =
  recognized_tokens :: "string list"

definition Verify :: "TokenVerifier \<Rightarrow> string \<Rightarrow> bool" where
  "Verify v token \<longleftrightarrow> token \<in> set (recognized_tokens v)"

definition MakeTokenVerifier :: "string \<Rightarrow> TokenVerifier" where
  "MakeTokenVerifier str =
     \<lparr>recognized_tokens = remdups (Split_char str CHR '','' True)\<rparr>"

section \<open>Hexadecimal digits\<close>

fun hex_value :: "char \<Rightarrow> nat" where
  "hex_value c = (let n = of_char c in if n \<le> 57 then n - 48 else if n \<le> 70 then n - 55 else n - 87)"

fun DecodeHex :: "string \<Rightarrow> string" where
  "DecodeHex (a # b # cs) = char_of (16 * hex_value a + hex_value b) # DecodeHex cs"
| "DecodeHex _ = []"

lemma hex_digits_ok:
  "\<forall>d \<in> set [0..<16]. hex_value (''0123456789abcdef'' ! d) = d \<and> hex_value (''0123456789ABCDEF'' ! d) = d"
  by code_simp

lemma hex_digit_value:
  "d < 16 \<Longrightarrow> hex_value (''0123456789abcdef'' ! d) = d"
  "d < 16 \<Longrightarrow> hex_value (''0123456789ABCDEF'' ! d) = d"
  using hex_digits_ok by (simp_all only: set_upt atLeastLessThan_iff zero_le simp_thms Ball_def)

lemma nibbles:
  assumes "i < (256 :: nat)"
  shows "drop_bit 4 i AND 15 = i div 16" "i AND 15 = i mod 16"
proof -
  have m: "k AND 15 = k mod 16" for k :: nat
    using take_bit_eq_mask[of 4 k] by (simp add: take_bit_eq_mod mask_eq_exp_minus_1)
  show "i AND 15 = i mod 16" by (rule m)
  show "drop_bit 4 i AND 15 = i div 16"
    using assms by (simp add: m drop_bit_eq_div)
qed

lemma hex_table_nth:
  assumes "i < 256"
  shows "kHexCharsLowercase ! i = (''0123456789abcdef'' ! (i div 16), ''0123456789abcdef'' ! (i mod 16))"
    and "kHexCharsUppercase ! i = (''0123456789ABCDEF'' ! (i div 16), ''0123456789ABCDEF'' ! (i mod 16))"
  using assms unfolding kHexCharsLowercase_def kHexCharsUppercase_def
  by (subst nth_map; simp only: length_upt nth_upt nibbles; simp)+

lemma hex_pair_value:
  assumes "t = kHexCharsLowercase \<or> t = kHexCharsUppercase" and "i < 256"
  shows "16 * hex_value (fst (t ! i)) + hex_value (snd (t ! i)) = i"
proof -
  have d: "i div 16 < 16" "i mod 16 < 16" using assms(2) by auto
  then show ?thesis
    using assms by (auto simp only: hex_table_nth fst_conv snd_conv hex_digit_value mult_div_mod_eq)
qed

lemma DecodeHex_EncodeHex: "DecodeHex (EncodeHex s up) = s"
  unfolding EncodeHex_def
  by (induction s) (simp_all add: hex_pair_value del: hex_value.simps)

lemma length_EncodeHex: "length (EncodeHex s up) = 2 * length s"
  unfolding EncodeHex_def by (induction s) simp_all

interpretation hex: codec "\<lambda>s. EncodeHex s up" "\<lambda>s. Some (DecodeHex s)" "\<lambda>_. True" for up
  by unfold_locales (simp add: DecodeHex_EncodeHex)

section \<open>Token sets\<close>

text \<open>
  A flag with at least one byte accepts exactly the pieces between its commas; an empty piece
  makes the empty token acceptable.
\<close>

lemma Verify_MakeTokenVerifier:
  assumes "\<forall>t \<in> set ts. CHR '','' \<notin> set t" and "sep_join '','' ts \<noteq> []"
  shows "Verify (MakeTokenVerifier (sep_join '','' ts)) token \<longleftrightarrow> token \<in> set ts"
  using Split_char_join_keep[OF assms] by (simp add: Verify_def MakeTokenVerifier_def)

lemma Verify_empty_flag [simp]: "\<not> Verify (MakeTokenVerifier []) token"
  by (simp add: Verify_def MakeTokenVerifier_def Split_char_def)

end
