(* ===== verification/Wire_Props.thy ===== *)
theory Wire_Props
  imports MultiChunk Tokens
begin

text \<open>
  What the wire formats and tokens of \<open>common/\<close> guarantee: what one process writes, the other
  reads back.
\<close>

section \<open>Properties\<close>

text \<open>
  A packed archive of files is unpacked to the same suffixes and contents, provided
  there is a file, no suffix is empty or contains a comma or a newline, and the archive is below
  \<open>2 ^ 63\<close> bytes. The contents are arbitrary bytes.
\<close>

theorem unpack_pack_files:
  assumes "files \<noteq> []" and "\<forall>suffix \<in> set (map fst files). suffix \<noteq> [] \<and> CHR '','' \<notin> set suffix \<and> CHR 0x0A \<notin> set suffix"
    and "length (PackFiles files) < 2 ^ 63"
  shows "TryUnpackFiles (PackFiles files) = Inr (Some files)"
  using assms by (intro TryUnpackFiles_PackFiles) (auto simp: packable_def splittable_def)

theorem unpack_pack_files_witness:
  "TryUnpackFiles (PackFiles [(''.o'', [CHR 0x0A, CHR '','']), (''.gcno'', [])]) =
     Inr (Some [(''.o'', [CHR 0x0A, CHR '','']), (''.gcno'', [])])"
  by (rule unpack_pack_files) (simp_all add: PackFiles_def files_total_def suffix_line_def size_line_def to_string.simps)

text \<open>
  A multi-chunk body is parsed to the same chunks, whether it was written by the client
  (header line, then the parts) or by \<open>MakeMultiChunk\<close>, provided there is a chunk, none is empty
  and the body is below \<open>LONG_MAX\<close> bytes.
\<close>

theorem multi_chunk_roundtrip:
  assumes "parts \<noteq> []" and "\<forall>part \<in> set parts. part \<noteq> []" and "int (length (concat parts)) < LONG_MAX"
  shows "TryParseMultiChunk (MakeMultiChunkHeaderLine parts @ concat parts) = Some parts \<and>
    TryParseMultiChunk (MakeMultiChunk parts) = Some parts"
  using assms parse_client_body[of parts] parse_daemon_body[of parts] by (simp add: chunkable_def)

theorem multi_chunk_roundtrip_witness:
  "TryParseMultiChunk (MakeMultiChunk [''{}'', [CHR 0x0D, CHR 0x0A, CHR ''7'']]) =
     Some [''{}'', [CHR 0x0D, CHR 0x0A, CHR ''7'']]"
  using multi_chunk_roundtrip[of "[''{}'', [CHR 0x0D, CHR 0x0A, CHR ''7'']]"]
  by (simp add: LONG_MAX_def)

text \<open>
  A body with an empty chunk is rejected by the parser as a whole, although the writer
  produces it.
\<close>

theorem multi_chunk_empty_rejected:
  assumes "[] \<in> set parts"
  shows "TryParseMultiChunk (MakeMultiChunk parts) = None"
  using assms by (rule daemon_body_empty_chunk)

theorem multi_chunk_empty_rejected_witness:
  "TryParseMultiChunk (MakeMultiChunk [''{}'', []]) = None"
  by (rule multi_chunk_empty_rejected) simp

text \<open>
  Hexadecimal encoding doubles the length and loses nothing, in either case: reading
  the digits back gives the bytes, so different bytes never share an encoding.
\<close>

theorem encode_hex_roundtrip:
  "DecodeHex (EncodeHex s up) = s \<and> length (EncodeHex s up) = 2 * length s \<and>
   (EncodeHex s up = EncodeHex t up \<longleftrightarrow> s = t)"
  by (simp add: DecodeHex_EncodeHex length_EncodeHex hex.enc_inj)

text \<open>
  The verifier built from a comma-separated flag accepts exactly the pieces of the flag
  (an empty piece makes the empty token acceptable); one built from an empty flag accepts nothing.
\<close>

theorem token_verifier_exact:
  "(Verify (MakeTokenVerifier flag) token \<longleftrightarrow>
      flag \<noteq> [] \<and> (\<exists>ts. sep_join '','' ts = flag \<and> ts \<noteq> [] \<and> (\<forall>t \<in> set ts. CHR '','' \<notin> set t) \<and> token \<in> set ts))"
proof (cases "flag = []")
  case True
  then show ?thesis by simp
next
  case False
  define ts where "ts = Split_loop flag '','' True"
  have ts: "ts \<noteq> []" "sep_join '','' ts = flag" using Split_loop_rejoin[of flag "CHR '',''"]
    by (simp_all add: ts_def)
  have free: "\<forall>t \<in> set ts. CHR '','' \<notin> set t"
    unfolding ts_def by (rule Split_loop_free)
  have "Verify (MakeTokenVerifier flag) token \<longleftrightarrow> token \<in> set us"
    if "sep_join '','' us = flag" "\<forall>t \<in> set us. CHR '','' \<notin> set t" for us
    using Verify_MakeTokenVerifier[of us token] that False by simp
  with ts free False show ?thesis by blast
qed

theorem token_verifier_exact_witness: "Verify (MakeTokenVerifier ''s3cret,,dev'') []"
  unfolding token_verifier_exact
  by (intro conjI exI[of _ "[''s3cret'', [], ''dev'']"]) simp_all

text \<open>
  Escaping a command argument loses nothing: reading the backslash sequences back gives
  the argument, so different arguments never share an escaped form.
\<close>

theorem escape_argument_roundtrip:
  "Unescape (EscapeCommandArgument s) = s \<and>
   (EscapeCommandArgument s = EscapeCommandArgument t \<longleftrightarrow> s = t)"
  by (metis Unescape_EscapeCommandArgument)

end
