(* ===== verification/Bookkeeper.thy ===== *)
theory Bookkeeper
  imports Prelude
begin

text \<open>
  \<open>scheduler/running_task_bookkeeper.{h,cpp}\<close>: the tasks every servant location reported in its
  last heartbeat. All three operations run under the class's own mutex, so each is one step.
\<close>

section \<open>Definitions\<close>

text \<open>The message \<open>RunningTask\<close> of \<open>scheduler.proto\<close>.\<close>

record RunningTask =
  servant_task_id :: u64
  task_grant_id :: u64
  servant_location :: string
  task_digest :: string

record RunningTaskBookkeeper =
  running_tasks_map :: "(string, RunningTask list) umap"

definition SetRunningTask ::
  "string \<Rightarrow> RunningTask list \<Rightarrow> RunningTaskBookkeeper \<Rightarrow> RunningTaskBookkeeper" where
  "SetRunningTask location tasks b =
     (let erased = umap_erase location (running_tasks_map b)
      in b\<lparr>running_tasks_map := umap_set location tasks erased\<rparr>)"

definition DelServant :: "string \<Rightarrow> RunningTaskBookkeeper \<Rightarrow> RunningTaskBookkeeper" where
  "DelServant location b = b\<lparr>running_tasks_map := umap_erase location (running_tasks_map b)\<rparr>"

text \<open>Every entry's tasks are inserted before the ones collected so far.\<close>

definition GetRunningTasks :: "RunningTaskBookkeeper \<Rightarrow> RunningTask list" where
  "GetRunningTasks b = foldl (\<lambda>result (k, v). v @ result) [] (running_tasks_map b)"

definition bookkeeper_init :: RunningTaskBookkeeper where
  "bookkeeper_init = \<lparr>running_tasks_map = []\<rparr>"

section \<open>Behaviour\<close>

definition reported :: "RunningTaskBookkeeper \<Rightarrow> string \<Rightarrow> RunningTask list option" where
  "reported b = umap_find (running_tasks_map b)"

definition bookkeeper_wf :: "RunningTaskBookkeeper \<Rightarrow> bool" where
  "bookkeeper_wf b \<longleftrightarrow> umap_wf (running_tasks_map b)"

lemma bookkeeper_wf_init [simp]: "bookkeeper_wf bookkeeper_init"
  by (simp add: bookkeeper_wf_def bookkeeper_init_def umap.ok_emp)

lemma bookkeeper_wf_set [simp]: "bookkeeper_wf b \<Longrightarrow> bookkeeper_wf (SetRunningTask l ts b)"
  by (simp add: bookkeeper_wf_def SetRunningTask_def umap.ok_put umap.ok_del)

lemma bookkeeper_wf_del [simp]: "bookkeeper_wf b \<Longrightarrow> bookkeeper_wf (DelServant l b)"
  by (simp add: bookkeeper_wf_def DelServant_def umap.ok_del)

lemma reported_SetRunningTask: "reported (SetRunningTask l ts b) = (reported b)(l \<mapsto> ts)"
  by (simp add: reported_def SetRunningTask_def fun_eq_iff umap.look_put umap.look_del)

lemma reported_DelServant: "reported (DelServant l b) = (reported b)(l := None)"
  by (simp add: reported_def DelServant_def fun_eq_iff umap.look_del)

lemma foldl_prepend: "foldl (\<lambda>result (k, v). v @ result) acc m = concat (map snd (rev m)) @ acc"
  by (induction m arbitrary: acc) auto

lemma GetRunningTasks_eq: "GetRunningTasks b = concat (map snd (rev (running_tasks_map b)))"
  by (simp add: GetRunningTasks_def foldl_prepend)

lemma set_GetRunningTasks:
  "bookkeeper_wf b \<Longrightarrow> set (GetRunningTasks b) = {t. \<exists>l ts. reported b l = Some ts \<and> t \<in> set ts}"
  by (auto simp: GetRunningTasks_eq bookkeeper_wf_def reported_def umap_find_iff; fastforce)

end
