(* ===== verification/Dispatcher.thy ===== *)
theory Dispatcher
  imports Bookkeeper Tools "HOL-Library.Log_Nat"
begin

text \<open>
  \<open>scheduler/task_dispatcher.{h,cpp}\<close>: the scheduler's table of servants and of granted tasks.

  Every public operation holds \<open>alloc_mutex_\<close>, so it is one step on the state, except
  \<open>WaitForStartingNewTask\<close>, which releases the mutex while it waits on \<open>alloc_cv_\<close>: there the
  operations of the other threads are an explicit sequence that runs before the thread looks
  again. A \<open>std::shared_ptr<Servant>\<close> is a reference into a store of servant records (so that
  tasks and the table share a servant, and comparison is by reference); a null pointer is
  \<open>None\<close>. The clock is an argument of every operation that reads it.
\<close>

section \<open>Definitions\<close>

subsection \<open>Data\<close>

datatype WaitStatus = WaitStatus_OK | WaitStatus_EnvNotFound | WaitStatus_Timeout

datatype ServantPriority =
    SERVANT_PRIORITY_UNKNOWN
  | SERVANT_PRIORITY_USER
  | SERVANT_PRIORITY_DEDICATED

record EnviromentDesc =
  compiler_digest :: string

record TaskAllocation =
  alloc_task_id :: u64
  alloc_servant_location :: string

record TaskInfo =
  requester_ip :: string
  min_version :: u32
  env_desc :: EnviromentDesc

record ServantInfo =
  version :: u32
  observed_location :: string
  reported_location :: string
  num_cpu_cores :: u64
  current_load :: u64
  total_memory_in_bytes :: u64
  avail_memory_in_bytes :: u64
  concurrency :: u64
  priority :: ServantPriority
  env_decs :: "EnviromentDesc list"

type_synonym servant_ptr = nat

record Servant =
  servant_info :: ServantInfo
  discovered_tp :: time_point
  servant_expires_tp :: time_point
  running_tasks :: u64
  assigned_tasks :: u64

record Task =
  task_id :: u64
  task_info :: TaskInfo
  task_servant :: servant_ptr
  started_tp :: time_point
  task_expires_tp :: time_point
  is_prefetch :: bool
  is_zombie :: bool

text \<open>
  The members of \<open>TaskDispatcher\<close>, with the heap of servants: references below \<open>next_ptr\<close> have
  been allocated. \<open>alloc_cv\<close> counts the calls of \<open>alloc_cv_.notify_all\<close>.
\<close>

record TaskDispatcher =
  store :: "servant_ptr \<Rightarrow> Servant"
  next_ptr :: servant_ptr
  servants :: "servant_ptr list"
  tasks :: "(u64, Task) umap"
  next_task_id :: u64
  running_task_bookkeeper :: RunningTaskBookkeeper
  min_memory_for_new_task :: u64
  alloc_cv :: nat

subsection \<open>Choosing a servant\<close>

definition AvailableTasks :: "u64 \<Rightarrow> Servant \<Rightarrow> u64" where
  "AvailableTasks min_memory servant =
     (let info = servant_info servant
      in if total_memory_in_bytes info \<noteq> 0 \<and> avail_memory_in_bytes info < min_memory
         then running_tasks servant
         else
           (let load = max (current_load info - running_tasks servant) 0;
                avail_tasks = max (num_cpu_cores info - load) 0
            in min (concurrency info) avail_tasks))"

definition has_env :: "TaskInfo \<Rightarrow> Servant \<Rightarrow> bool" where
  "has_env ti servant \<longleftrightarrow>
     list_ex (\<lambda>env. compiler_digest env = compiler_digest (env_desc ti)) (env_decs (servant_info servant))"

definition UnsafeGetServantsHasEnv :: "TaskInfo \<Rightarrow> TaskDispatcher \<Rightarrow> servant_ptr list" where
  "UnsafeGetServantsHasEnv ti s =
     filter (\<lambda>p. has_env ti (store s p)
                 \<and> \<not> concurrency (servant_info (store s p)) \<le> 0
                 \<and> \<not> version (servant_info (store s p)) > min_version ti) (servants s)"

definition UnsafeGetFreeServants :: "servant_ptr list \<Rightarrow> TaskDispatcher \<Rightarrow> servant_ptr list" where
  "UnsafeGetFreeServants eligible s =
     filter (\<lambda>p. \<not> running_tasks (store s p)
                   \<ge> AvailableTasks (min_memory_for_new_task s) (store s p)) eligible"

text \<open>
  The conversion \<open>double(n)\<close> of a 64-bit integer: exact below \<open>2 ^ 53\<close>, otherwise rounded to 53
  significant bits, ties to even. The result is always an integer, and below
  \<open>numeric_limits<double>::max()\<close>.
\<close>

definition double_of :: "nat \<Rightarrow> nat" where
  "double_of n =
     (if n < 2 ^ 53 then n
      else let e = floorlog 2 n - 53; q = n div 2 ^ e; r = n mod 2 ^ e; half = 2 ^ (e - 1)
           in (if half < r \<or> (r = half \<and> odd q) then q + 1 else q) * 2 ^ e)"

text \<open>
  The loop of \<open>UnsafePickUpServant\<close>. \<open>None\<close> for \<open>min_utilization\<close> is its initial value
  \<open>numeric_limits<double>::max()\<close>. The quotient is an integer division, taken before the
  conversion.
\<close>

fun pick_loop ::
  "(servant_ptr \<Rightarrow> Servant) \<Rightarrow> (Servant \<Rightarrow> bool) \<Rightarrow> servant_ptr list \<Rightarrow> servant_ptr \<Rightarrow> nat option
     \<Rightarrow> fault + servant_ptr" where
  "pick_loop h flt [] result min_utilization = Inr result"
| "pick_loop h flt (p # ps) result min_utilization =
     (if \<not> flt (h p) then pick_loop h flt ps result min_utilization
      else if concurrency (servant_info (h p)) = 0 then Inl DivisionByZero
      else
        (let utilization = double_of (unat (running_tasks (h p) div concurrency (servant_info (h p))))
         in if (case min_utilization of None \<Rightarrow> True | Some m \<Rightarrow> utilization < m)
            then pick_loop h flt ps p (Some utilization)
            else pick_loop h flt ps result min_utilization))"

definition UnsafePickUpServant ::
  "(servant_ptr \<Rightarrow> Servant) \<Rightarrow> servant_ptr list \<Rightarrow> (Servant \<Rightarrow> bool) \<Rightarrow> fault + servant_ptr option" where
  "UnsafePickUpServant h ps flt =
     (case ps of [] \<Rightarrow> Inr None
      | p # _ \<Rightarrow> bind_fault (pick_loop h flt ps p None) (\<lambda>r. Inr (Some r)))"

definition is_self :: "string \<Rightarrow> Servant \<Rightarrow> bool" where
  "is_self requestor_ip servant \<longleftrightarrow>
     (let location = observed_location (servant_info servant)
      in length location > length requestor_ip \<and>
         location ! length requestor_ip = CHR '':'' \<and>
         StartWith location requestor_ip)"

definition is_idle_dedicated :: "Servant \<Rightarrow> bool" where
  "is_idle_dedicated servant \<longleftrightarrow>
     priority (servant_info servant) = SERVANT_PRIORITY_DEDICATED \<and>
     concurrency (servant_info servant) > 2 * running_tasks servant"

definition UnsafePickUpFreeServant ::
  "(servant_ptr \<Rightarrow> Servant) \<Rightarrow> servant_ptr list \<Rightarrow> string \<Rightarrow> fault + servant_ptr option" where
  "UnsafePickUpFreeServant h free_servants requestor_ip =
     (let self = find (\<lambda>p. is_self requestor_ip (h p)) free_servants;
          others = (case self of None \<Rightarrow> free_servants | Some p \<Rightarrow> remove1 p free_servants)
      in bind_fault (UnsafePickUpServant h others is_idle_dedicated) (\<lambda>r1.
         case r1 of Some p \<Rightarrow> Inr (Some p)
         | None \<Rightarrow>
             bind_fault (UnsafePickUpServant h others (\<lambda>_. True)) (\<lambda>r2.
             case r2 of Some p \<Rightarrow> Inr (Some p)
             | None \<Rightarrow> Inr self)))"

subsection \<open>Granting a task\<close>

definition upd_servant :: "servant_ptr \<Rightarrow> (Servant \<Rightarrow> Servant) \<Rightarrow> TaskDispatcher \<Rightarrow> TaskDispatcher" where
  "upd_servant p f s = s\<lparr>store := (store s)(p := f (store s p))\<rparr>"

text \<open>
  The part of \<open>WaitForStartingNewTask\<close> after the loop, for the servant that was picked.
  \<open>tasks_[task_id]\<close> creates the entry, or reuses one that is there; the flag \<open>is_zombie\<close> is
  not written.
\<close>

definition start_task ::
  "TaskInfo \<Rightarrow> int \<Rightarrow> bool \<Rightarrow> time_point \<Rightarrow> servant_ptr \<Rightarrow> TaskDispatcher \<Rightarrow> TaskAllocation \<times> TaskDispatcher" where
  "start_task ti expires_in prefetching now p s =
     (let s1 = upd_servant p (\<lambda>v. v\<lparr>running_tasks := running_tasks v + 1,
                                     assigned_tasks := assigned_tasks v + 1\<rparr>) s;
          id = next_task_id s1;
          zombie = (case umap_find (tasks s1) id of None \<Rightarrow> False | Some t \<Rightarrow> is_zombie t);
          t = \<lparr>task_id = id, task_info = ti, task_servant = p, started_tp = now,
               task_expires_tp = now + expires_in, is_prefetch = prefetching, is_zombie = zombie\<rparr>
      in (\<lparr>alloc_task_id = id,
           alloc_servant_location = observed_location (servant_info (store s1 p))\<rparr>,
          s1\<lparr>next_task_id := id + 1, tasks := umap_set id t (tasks s1)\<rparr>))"

datatype attempt =
    NoEnv
  | Busy
  | Started TaskAllocation TaskDispatcher

text \<open>One iteration of the loop under the mutex, and the grant when a servant is free.\<close>

definition try_start ::
  "TaskInfo \<Rightarrow> int \<Rightarrow> bool \<Rightarrow> time_point \<Rightarrow> TaskDispatcher \<Rightarrow> fault + attempt" where
  "try_start ti expires_in prefetching now s =
     (let has_env = UnsafeGetServantsHasEnv ti s
      in if has_env = [] then Inr NoEnv
         else
           (let free = UnsafeGetFreeServants has_env s
            in if free = [] then Inr Busy
               else bind_fault (UnsafePickUpFreeServant (store s) free (requester_ip ti)) (\<lambda>picked.
                    case picked of None \<Rightarrow> Inl NullPointer
                    | Some p \<Rightarrow> (case start_task ti expires_in prefetching now p s of
                        (a, s') \<Rightarrow> Inr (Started a s')))))"

subsection \<open>Releasing tasks\<close>

text \<open>
  The first unknown id ends the function: the ids after it stay, and nobody is notified.
\<close>

fun UnsafeFreeTask :: "u64 list \<Rightarrow> TaskDispatcher \<Rightarrow> TaskDispatcher" where
  "UnsafeFreeTask [] s = s\<lparr>alloc_cv := Suc (alloc_cv s)\<rparr>"
| "UnsafeFreeTask (i # ids) s =
     (case umap_find (tasks s) i of None \<Rightarrow> s
      | Some t \<Rightarrow>
          (let s1 = upd_servant (task_servant t) (\<lambda>v. v\<lparr>running_tasks := running_tasks v - 1\<rparr>) s
           in UnsafeFreeTask ids (s1\<lparr>tasks := umap_erase i (tasks s1)\<rparr>)))"

definition UnsafeClearZombies :: "servant_ptr \<Rightarrow> u64 list \<Rightarrow> TaskDispatcher \<Rightarrow> TaskDispatcher" where
  "UnsafeClearZombies servant running_task_ids s =
     UnsafeFreeTask
       (map fst (filter (\<lambda>(k, t). task_servant t = servant \<and> is_zombie t
                                  \<and> task_id t \<notin> set running_task_ids) (tasks s))) s"

definition FreeTask :: "u64 \<Rightarrow> TaskDispatcher \<Rightarrow> TaskDispatcher" where
  "FreeTask i s = UnsafeFreeTask [i] s"

definition KeepTaskAlive :: "u64 \<Rightarrow> int \<Rightarrow> time_point \<Rightarrow> TaskDispatcher \<Rightarrow> bool \<times> TaskDispatcher" where
  "KeepTaskAlive i expire_time now s =
     (case umap_find (tasks s) i of None \<Rightarrow> (False, s)
      | Some t \<Rightarrow>
          if is_zombie t then (False, s)
          else (True, s\<lparr>tasks := umap_set i (t\<lparr>task_expires_tp := now + expire_time\<rparr>) (tasks s)\<rparr>))"

subsection \<open>Servants\<close>

definition find_servant :: "string \<Rightarrow> TaskDispatcher \<Rightarrow> servant_ptr option" where
  "find_servant location s =
     find (\<lambda>p. observed_location (servant_info (store s p)) = location) (servants s)"

definition KeepServantAlive :: "ServantInfo \<Rightarrow> int \<Rightarrow> time_point \<Rightarrow> TaskDispatcher \<Rightarrow> TaskDispatcher" where
  "KeepServantAlive info expire_time now s =
     (case find_servant (observed_location info) s of
        Some p \<Rightarrow> upd_servant p (\<lambda>v. v\<lparr>servant_info := info, servant_expires_tp := now + expire_time\<rparr>) s
      | None \<Rightarrow>
          s\<lparr>store := (store s)(next_ptr s :=
               \<lparr>servant_info = info, discovered_tp = now, servant_expires_tp = now + expire_time,
                running_tasks = 0, assigned_tasks = 0\<rparr>),
            next_ptr := Suc (next_ptr s),
            servants := servants s @ [next_ptr s]\<rparr>)"

definition permitted_task_ids :: "servant_ptr \<Rightarrow> TaskDispatcher \<Rightarrow> u64 list" where
  "permitted_task_ids servant s =
     map fst (filter (\<lambda>(i, t). task_servant t = servant \<and> \<not> is_zombie t) (tasks s))"

definition NotifyServantRunningTasks ::
  "string \<Rightarrow> RunningTask list \<Rightarrow> TaskDispatcher \<Rightarrow> u64 list \<times> TaskDispatcher" where
  "NotifyServantRunningTasks location reports s =
     (let task_grant_ids = map task_grant_id reports
      in case find_servant location s of
           None \<Rightarrow> (task_grant_ids, s)
         | Some servant \<Rightarrow>
             (let s1 = UnsafeClearZombies servant task_grant_ids s;
                  permitted = permitted_task_ids servant s1;
                  unknown = filter (\<lambda>r. task_grant_id r \<notin> set permitted) reports;
                  known = filter (\<lambda>r. task_grant_id r \<in> set permitted) reports
              in (map task_grant_id unknown,
                  s1\<lparr>running_task_bookkeeper :=
                       SetRunningTask location known (running_task_bookkeeper s1)\<rparr>)))"

definition DispatcherGetRunningTasks :: "TaskDispatcher \<Rightarrow> RunningTask list" where
  "DispatcherGetRunningTasks s = GetRunningTasks (running_task_bookkeeper s)"

subsection \<open>The timer\<close>

text \<open>The first loop of \<open>OnTimerExpiration\<close>: expired servants leave the table.\<close>

fun drop_expired_servants ::
  "time_point \<Rightarrow> (servant_ptr \<Rightarrow> Servant) \<Rightarrow> servant_ptr list \<Rightarrow> RunningTaskBookkeeper
     \<Rightarrow> servant_ptr list \<times> RunningTaskBookkeeper" where
  "drop_expired_servants now h [] b = ([], b)"
| "drop_expired_servants now h (p # ps) b =
     (if servant_expires_tp (h p) < now
      then drop_expired_servants now h ps (DelServant (observed_location (servant_info (h p))) b)
      else (case drop_expired_servants now h ps b of (qs, b') \<Rightarrow> (p # qs, b')))"

definition OnTimerExpiration :: "time_point \<Rightarrow> TaskDispatcher \<Rightarrow> TaskDispatcher" where
  "OnTimerExpiration now s =
     (case drop_expired_servants now (store s) (servants s) (running_task_bookkeeper s) of
        (alive, b) \<Rightarrow>
          (let s1 = s\<lparr>servants := alive, running_task_bookkeeper := b\<rparr>;
               clearing = map fst (filter (\<lambda>(i, t). task_servant t \<notin> set alive) (tasks s1));
               s2 = UnsafeFreeTask clearing s1
           in s2\<lparr>tasks := map (\<lambda>(i, t). (i, if task_expires_tp t < now then t\<lparr>is_zombie := True\<rparr> else t))
                              (tasks s2)\<rparr>))"

subsection \<open>Operations, and the blocking grant\<close>

datatype dispatcher_op =
    OpStart TaskInfo int bool time_point
  | OpKeepTaskAlive u64 int time_point
  | OpFreeTask u64
  | OpKeepServantAlive ServantInfo int time_point
  | OpNotify string "RunningTask list"
  | OpTimer time_point

fun exec_op :: "dispatcher_op \<Rightarrow> TaskDispatcher \<Rightarrow> fault + TaskDispatcher" where
  "exec_op (OpStart ti expires_in prefetching now) s =
     bind_fault (try_start ti expires_in prefetching now s) (\<lambda>r.
       case r of NoEnv \<Rightarrow> Inr s | Busy \<Rightarrow> Inr s | Started a s' \<Rightarrow> Inr s')"
| "exec_op (OpKeepTaskAlive i expire_time now) s = Inr (snd (KeepTaskAlive i expire_time now s))"
| "exec_op (OpFreeTask i) s = Inr (FreeTask i s)"
| "exec_op (OpKeepServantAlive info expire_time now) s = Inr (KeepServantAlive info expire_time now s)"
| "exec_op (OpNotify location reports) s = Inr (snd (NotifyServantRunningTasks location reports s))"
| "exec_op (OpTimer now) s = Inr (OnTimerExpiration now s)"

datatype wait_result =
    Blocked TaskDispatcher
  | Returned "TaskAllocation option" WaitStatus TaskDispatcher

text \<open>
  \<open>WaitForStartingNewTask\<close>. Each element of the last list is one wait on \<open>alloc_cv_\<close>: the
  operations other threads execute meanwhile, and the clock when the thread has the mutex again;
  \<open>wait_until\<close> reports a timeout when that clock has reached \<open>timeout\<close>. The result \<open>Blocked\<close>
  means that the thread is still waiting when the list ends.
\<close>

fun WaitForStartingNewTask ::
  "TaskInfo \<Rightarrow> int \<Rightarrow> time_point \<Rightarrow> bool \<Rightarrow> time_point \<Rightarrow> (dispatcher_op list \<times> time_point) list
     \<Rightarrow> TaskDispatcher \<Rightarrow> fault + wait_result" where
  "WaitForStartingNewTask ti expires_in timeout prefetching now waits s =
     bind_fault (try_start ti expires_in prefetching now s) (\<lambda>r.
       case r of
         NoEnv \<Rightarrow> Inr (Returned None WaitStatus_EnvNotFound s)
       | Started a s' \<Rightarrow> Inr (Returned (Some a) WaitStatus_OK s')
       | Busy \<Rightarrow>
           (case waits of [] \<Rightarrow> Inr (Blocked s)
            | (ops, now') # waits' \<Rightarrow>
                bind_fault (run_steps exec_op ops s) (\<lambda>s'.
                  if timeout \<le> now' then Inr (Returned None WaitStatus_Timeout s')
                  else WaitForStartingNewTask ti expires_in timeout prefetching now' waits' s')))"

declare WaitForStartingNewTask.simps [simp del]

definition blank_servant_info :: ServantInfo where
  "blank_servant_info =
     \<lparr>version = 0, observed_location = [], reported_location = [], num_cpu_cores = 0,
      current_load = 0, total_memory_in_bytes = 0, avail_memory_in_bytes = 0, concurrency = 0,
      priority = SERVANT_PRIORITY_UNKNOWN, env_decs = []\<rparr>"

definition dispatcher_init :: "u64 \<Rightarrow> TaskDispatcher" where
  "dispatcher_init min_memory =
     \<lparr>store = (\<lambda>_. \<lparr>servant_info = blank_servant_info, discovered_tp = 0, servant_expires_tp = 0,
                     running_tasks = 0, assigned_tasks = 0\<rparr>),
      next_ptr = 0, servants = [], tasks = [], next_task_id = 0,
      running_task_bookkeeper = bookkeeper_init, min_memory_for_new_task = min_memory,
      alloc_cv = 0\<rparr>"

end
