(* ===== verification/Dispatcher_Pick.thy ===== *)
theory Dispatcher_Pick
  imports Dispatcher
begin

text \<open>
  Which servant a grant goes to. A free servant runs fewer tasks than its concurrency, so the
  integer quotient that \<open>UnsafePickUpServant\<close> compares is always 0: the loop returns the first
  servant that passes the filter, and the first of all when none passes.
\<close>

section \<open>Free servants\<close>

lemma AvailableTasks_cases:
  "AvailableTasks m v = running_tasks v \<or> AvailableTasks m v \<le> concurrency (servant_info v)"
  by (simp add: AvailableTasks_def Let_def)

lemma free_running_less:
  "\<not> AvailableTasks m v \<le> running_tasks v \<Longrightarrow> running_tasks v < concurrency (servant_info v)"
  using AvailableTasks_cases[of m v] by auto

lemma word_div_less: "a < b \<Longrightarrow> a div b = (0 :: u64)"
  by (simp add: word_arith_nat_div word_less_nat_alt)

lemma double_of_0 [simp]: "double_of 0 = 0"
  by (simp add: double_of_def)

lemma set_free:
  "p \<in> set (UnsafeGetFreeServants (UnsafeGetServantsHasEnv ti s) s) \<Longrightarrow>
     p \<in> set (servants s) \<and> has_env ti (store s p) \<and>
     version (servant_info (store s p)) \<le> min_version ti \<and>
     running_tasks (store s p) < concurrency (servant_info (store s p))"
  by (auto simp: UnsafeGetFreeServants_def UnsafeGetServantsHasEnv_def dest: free_running_less)

section \<open>The loop\<close>

definition all_idle_quotient :: "(servant_ptr \<Rightarrow> Servant) \<Rightarrow> servant_ptr list \<Rightarrow> bool" where
  "all_idle_quotient h ps \<longleftrightarrow>
     (\<forall>p \<in> set ps. running_tasks (h p) < concurrency (servant_info (h p)))"

lemma all_idle_quotient_simps [simp]:
  "all_idle_quotient h []"
  "all_idle_quotient h (p # ps) \<longleftrightarrow>
     running_tasks (h p) < concurrency (servant_info (h p)) \<and> all_idle_quotient h ps"
  by (auto simp: all_idle_quotient_def)

lemma all_idle_quotient_subset:
  "all_idle_quotient h ps \<Longrightarrow> set qs \<subseteq> set ps \<Longrightarrow> all_idle_quotient h qs"
  by (auto simp: all_idle_quotient_def)

lemma pick_loop_settled: "all_idle_quotient h ps \<Longrightarrow> pick_loop h f ps r (Some 0) = Inr r"
  by (induction ps) (auto simp: Let_def)

lemma pick_loop_first:
  "all_idle_quotient h ps \<Longrightarrow>
     pick_loop h f ps r None = Inr (case find (\<lambda>p. f (h p)) ps of None \<Rightarrow> r | Some p \<Rightarrow> p)"
proof (induction ps)
  case Nil
  then show ?case by simp
next
  case (Cons p ps)
  then have "running_tasks (h p) div concurrency (servant_info (h p)) = 0"
    by (simp add: word_div_less)
  with Cons show ?case by (auto simp: Let_def pick_loop_settled)
qed

lemma UnsafePickUpServant_idle:
  "all_idle_quotient h ps \<Longrightarrow>
     UnsafePickUpServant h ps f =
       Inr (case ps of [] \<Rightarrow> None
            | q # _ \<Rightarrow> Some (case find (\<lambda>p. f (h p)) ps of None \<Rightarrow> q | Some p \<Rightarrow> p))"
  using pick_loop_first[of h ps f] by (cases ps) (simp_all add: UnsafePickUpServant_def del: pick_loop.simps)

section \<open>The choice as a reference function\<close>

text \<open>
  The first idle dedicated servant other than the requester's own, else the first servant other
  than it, else its own.
\<close>

definition pick_reference ::
  "(servant_ptr \<Rightarrow> Servant) \<Rightarrow> servant_ptr list \<Rightarrow> string \<Rightarrow> servant_ptr option" where
  "pick_reference h free ip =
     (let self = find (\<lambda>p. is_self ip (h p)) free;
          others = (case self of None \<Rightarrow> free | Some p \<Rightarrow> remove1 p free)
      in case find (\<lambda>p. is_idle_dedicated (h p)) others of
           Some p \<Rightarrow> Some p
         | None \<Rightarrow> (case others of [] \<Rightarrow> self | q # _ \<Rightarrow> Some q))"

lemma UnsafePickUpFreeServant_reference:
  assumes "all_idle_quotient h free"
  shows "UnsafePickUpFreeServant h free ip = Inr (pick_reference h free ip)"
proof -
  have "all_idle_quotient h (case find (\<lambda>p. is_self ip (h p)) free of None \<Rightarrow> free
      | Some p \<Rightarrow> remove1 p free)"
    using assms by (auto split: option.split intro: all_idle_quotient_subset dest: set_remove1_subset[THEN subsetD])
  then show ?thesis
    unfolding UnsafePickUpFreeServant_def pick_reference_def Let_def
    by (simp add: UnsafePickUpServant_idle split: list.splits option.splits)
qed

lemma pick_reference_member:
  assumes "free \<noteq> []"
  shows "\<exists>p. pick_reference h free ip = Some p \<and> p \<in> set free"
proof -
  let ?self = "find (\<lambda>p. is_self ip (h p)) free"
  let ?others = "case ?self of None \<Rightarrow> free | Some p \<Rightarrow> remove1 p free"
  have sub: "set ?others \<subseteq> set free"
    by (auto split: option.splits dest: set_remove1_subset[THEN subsetD])
  consider p where "find (\<lambda>p. is_idle_dedicated (h p)) ?others = Some p"
    | q qs where "find (\<lambda>p. is_idle_dedicated (h p)) ?others = None" "?others = q # qs"
    | "find (\<lambda>p. is_idle_dedicated (h p)) ?others = None" "?others = []"
    by (cases "find (\<lambda>p. is_idle_dedicated (h p)) ?others"; cases ?others) auto
  then show ?thesis
  proof cases
    case 1
    with sub show ?thesis by (auto simp: pick_reference_def Let_def dest!: find_SomeD)
  next
    case 2
    with sub show ?thesis by (auto simp: pick_reference_def Let_def)
  next
    case 3
    with assms obtain p where p: "?self = Some p" by (cases ?self) auto
    with 3 have "pick_reference h free ip = Some p" by (simp add: pick_reference_def)
    moreover have "p \<in> set free" using find_SomeD[OF p] by simp
    ultimately show ?thesis by blast
  qed
qed

section \<open>An attempt\<close>

abbreviation free_for :: "TaskInfo \<Rightarrow> TaskDispatcher \<Rightarrow> servant_ptr list" where
  "free_for ti s \<equiv> UnsafeGetFreeServants (UnsafeGetServantsHasEnv ti s) s"

lemma all_idle_free: "all_idle_quotient (store s) (free_for ti s)"
  by (auto simp: all_idle_quotient_def dest: set_free)

text \<open>An attempt is never a fault, and a grant goes to a free servant of the table.\<close>

lemma try_start_cases:
  obtains (noenv) "try_start ti e pf now s = Inr NoEnv" "UnsafeGetServantsHasEnv ti s = []"
  | (busy) "try_start ti e pf now s = Inr Busy" "UnsafeGetServantsHasEnv ti s \<noteq> []" "free_for ti s = []"
  | (started) p where "p \<in> set (free_for ti s)"
      "pick_reference (store s) (free_for ti s) (requester_ip ti) = Some p"
      "try_start ti e pf now s =
         Inr (Started (fst (start_task ti e pf now p s)) (snd (start_task ti e pf now p s)))"
proof -
  consider "UnsafeGetServantsHasEnv ti s = []"
    | "UnsafeGetServantsHasEnv ti s \<noteq> []" "free_for ti s = []"
    | "UnsafeGetServantsHasEnv ti s \<noteq> []" "free_for ti s \<noteq> []" by blast
  then show thesis
  proof cases
    case 1
    then show ?thesis using noenv by (simp add: try_start_def)
  next
    case 2
    then show ?thesis using busy by (simp add: try_start_def)
  next
    case 3
    from pick_reference_member[OF 3(2)] obtain p where
      p: "pick_reference (store s) (free_for ti s) (requester_ip ti) = Some p" "p \<in> set (free_for ti s)"
      by blast
    with 3 have "try_start ti e pf now s =
         Inr (Started (fst (start_task ti e pf now p s)) (snd (start_task ti e pf now p s)))"
      by (simp add: try_start_def UnsafePickUpFreeServant_reference all_idle_free case_prod_unfold)
    with p show ?thesis using started by blast
  qed
qed

end
