(* ===== verification/Dispatcher_Inv.thy ===== *)
theory Dispatcher_Inv
  imports Dispatcher_Pick
begin

text \<open>
  The invariant of the scheduler's dispatcher: a servant's \<open>running_tasks\<close> is the number of
  tasks granted on it, every task belongs to a servant of the table, ids are fresh, and locations
  identify servants. Every operation keeps it, as long as the 64-bit task counter has not wrapped
  around; the index of the invariant counts the operations.
\<close>

section \<open>Counting tasks\<close>

definition tasks_on :: "servant_ptr \<Rightarrow> (u64, Task) umap \<Rightarrow> nat" where
  "tasks_on p ts = length (filter (\<lambda>(i, t). task_servant t = p) ts)"

abbreviation location_of :: "TaskDispatcher \<Rightarrow> servant_ptr \<Rightarrow> string" where
  "location_of s p \<equiv> observed_location (servant_info (store s p))"

definition dispatcher_inv :: "nat \<Rightarrow> TaskDispatcher \<Rightarrow> bool" where
  "dispatcher_inv n s \<longleftrightarrow>
     distinct (servants s) \<and> set (servants s) \<subseteq> {..<next_ptr s} \<and>
     distinct (map (location_of s) (servants s)) \<and>
     umap_wf (tasks s) \<and>
     (\<forall>(i, t) \<in> set (tasks s). task_id t = i \<and> task_servant t \<in> set (servants s)
                                 \<and> unat i < unat (next_task_id s)) \<and>
     (\<forall>p. running_tasks (store s p) = of_nat (tasks_on p (tasks s))) \<and>
     unat (next_task_id s) \<le> n \<and> length (tasks s) \<le> n \<and>
     bookkeeper_wf (running_task_bookkeeper s)"

lemma tasks_on_simps [simp]:
  "tasks_on p [] = 0"
  "tasks_on p ((i, t) # ts) = (if task_servant t = p then 1 else 0) + tasks_on p ts"
  "tasks_on p (ts @ us) = tasks_on p ts + tasks_on p us"
  by (simp_all add: tasks_on_def)

lemma tasks_on_le: "tasks_on p ts \<le> length ts"
  by (simp add: tasks_on_def)

lemma tasks_on_0: "(\<And>i t. (i, t) \<in> set ts \<Longrightarrow> task_servant t \<noteq> p) \<Longrightarrow> tasks_on p ts = 0"
  by (auto simp: tasks_on_def filter_empty_conv)

lemma tasks_on_pos: "(i, t) \<in> set ts \<Longrightarrow> 0 < tasks_on (task_servant t) ts"
  by (auto simp: tasks_on_def filter_empty_conv)

lemma umap_erase_absent: "i \<notin> fst ` set ts \<Longrightarrow> umap_erase i ts = ts"
  by (induction ts) (auto simp: umap_erase_def)

lemma tasks_on_erase:
  "umap_wf ts \<Longrightarrow> (i, t) \<in> set ts \<Longrightarrow>
     tasks_on p ts = (if task_servant t = p then 1 else 0) + tasks_on p (umap_erase i ts)"
proof (induction ts)
  case Nil
  then show ?case by simp
next
  case (Cons x ts)
  obtain j u where x: "x = (j, u)" by (cases x)
  show ?case
  proof (cases "j = i")
    case True
    with Cons.prems x have "i \<notin> fst ` set ts" and "u = t"
      by (auto simp: umap_wf_def image_iff)
    then show ?thesis
      using x True umap_erase_absent[of i ts] by (simp add: umap_erase_def)
  next
    case False
    with Cons.prems x have "tasks_on p ts = (if task_servant t = p then 1 else 0) + tasks_on p (umap_erase i ts)"
      by (intro Cons.IH) (auto simp: umap_wf_def)
    then show ?thesis using x False by (simp add: umap_erase_def)
  qed
qed

lemma length_umap_erase: "length (umap_erase i ts) \<le> length ts"
  by (simp add: umap_erase_def)

lemma tasks_on_map:
  "(\<And>i t. task_servant (f i t) = task_servant t) \<Longrightarrow> tasks_on p (map (\<lambda>(i, t). (i, f i t)) ts) = tasks_on p ts"
  by (induction ts) auto

lemma umap_set_present_map:
  "i \<in> fst ` set ts \<Longrightarrow> umap_wf ts \<Longrightarrow> umap_set i u ts = map (\<lambda>(j, t). (j, if j = i then u else t)) ts"
proof (induction ts)
  case Nil
  then show ?case by simp
next
  case (Cons x ts)
  have id: "i \<notin> fst ` set ts \<Longrightarrow> map (\<lambda>(j, t). (j, if j = i then u else t)) ts = ts"
    by (induction ts) auto
  show ?case using Cons id by (cases x) (auto simp: umap_set_def umap_wf_def)
qed

section \<open>Releasing tasks\<close>

definition free_one :: "u64 \<Rightarrow> Task \<Rightarrow> TaskDispatcher \<Rightarrow> TaskDispatcher" where
  "free_one i t s =
     (upd_servant (task_servant t) (\<lambda>v. v\<lparr>running_tasks := running_tasks v - 1\<rparr>) s)
       \<lparr>tasks := umap_erase i (tasks s)\<rparr>"

lemma UnsafeFreeTask_Cons:
  "UnsafeFreeTask (i # ids) s =
     (case umap_find (tasks s) i of None \<Rightarrow> s | Some t \<Rightarrow> UnsafeFreeTask ids (free_one i t s))"
  by (simp add: free_one_def upd_servant_def Let_def split: option.split)

declare UnsafeFreeTask.simps(2) [simp del]

lemma free_one_fields [simp]:
  "tasks (free_one i t s) = umap_erase i (tasks s)"
  "servants (free_one i t s) = servants s"
  "next_ptr (free_one i t s) = next_ptr s"
  "next_task_id (free_one i t s) = next_task_id s"
  "running_task_bookkeeper (free_one i t s) = running_task_bookkeeper s"
  "min_memory_for_new_task (free_one i t s) = min_memory_for_new_task s"
  "alloc_cv (free_one i t s) = alloc_cv s"
  "servant_info (store (free_one i t s) p) = servant_info (store s p)"
  "running_tasks (store (free_one i t s) p) =
     (if p = task_servant t then running_tasks (store s p) - 1 else running_tasks (store s p))"
  by (simp_all add: free_one_def upd_servant_def)

lemma free_one_inv:
  assumes inv: "dispatcher_inv n s" and t: "umap_find (tasks s) i = Some t"
  shows "dispatcher_inv n (free_one i t s)"
proof -
  have wf: "umap_wf (tasks s)" and mem: "(i, t) \<in> set (tasks s)"
    using inv t by (auto simp: dispatcher_inv_def umap_find_SomeD)
  have "running_tasks (store (free_one i t s) p) = of_nat (tasks_on p (umap_erase i (tasks s)))" for p
    using inv tasks_on_erase[OF wf mem, of p]
    by (cases "p = task_servant t") (simp_all add: dispatcher_inv_def)
  moreover have "length (umap_erase i (tasks s)) \<le> n"
    using inv length_umap_erase[of i "tasks s"] by (simp add: dispatcher_inv_def)
  ultimately show ?thesis
    using inv by (auto simp: dispatcher_inv_def set_umap_erase umap.ok_del)
qed

text \<open>What a sequence of known ids does: the ids leave the table, and the waiters are notified.\<close>

lemma UnsafeFreeTask_frame:
  "servants (UnsafeFreeTask ids s) = servants s"
  "next_ptr (UnsafeFreeTask ids s) = next_ptr s"
  "next_task_id (UnsafeFreeTask ids s) = next_task_id s"
  "running_task_bookkeeper (UnsafeFreeTask ids s) = running_task_bookkeeper s"
  "servant_info (store (UnsafeFreeTask ids s) p) = servant_info (store s p)"
  by (induction ids arbitrary: s) (auto simp: UnsafeFreeTask_Cons split: option.splits)

lemma UnsafeFreeTask_inv: "dispatcher_inv n s \<Longrightarrow> dispatcher_inv n (UnsafeFreeTask ids s)"
proof (induction ids arbitrary: s)
  case Nil
  then show ?case by (auto simp: dispatcher_inv_def)
next
  case (Cons i ids)
  then show ?case by (auto simp: UnsafeFreeTask_Cons free_one_inv split: option.split)
qed

lemma filter_umap_erase: "filter (\<lambda>(k, _). k \<notin> A) (umap_erase i ts) = filter (\<lambda>(k, _). k \<notin> insert i A) ts"
  by (auto simp: umap_erase_def intro: filter_cong)

lemma UnsafeFreeTask_known:
  "distinct ids \<Longrightarrow> set ids \<subseteq> fst ` set (tasks s) \<Longrightarrow>
     tasks (UnsafeFreeTask ids s) = filter (\<lambda>(k, _). k \<notin> set ids) (tasks s) \<and>
     alloc_cv (UnsafeFreeTask ids s) = Suc (alloc_cv s)"
proof (induction ids arbitrary: s)
  case Nil
  then show ?case by (auto simp: case_prod_unfold)
next
  case (Cons i ids)
  then obtain t where t: "umap_find (tasks s) i = Some t"
    using umap_find_None_iff[of "tasks s" i] by auto
  have "set ids \<subseteq> fst ` set (tasks (free_one i t s))"
    using Cons.prems by (force simp: set_umap_erase)
  with Cons.IH[of "free_one i t s"] Cons.prems t show ?case
    by (simp add: UnsafeFreeTask_Cons filter_umap_erase)
qed

section \<open>The other operations\<close>

lemma dispatcher_inv_mono: "dispatcher_inv n s \<Longrightarrow> n \<le> m \<Longrightarrow> dispatcher_inv m s"
  by (auto simp: dispatcher_inv_def)

lemma start_task_fields [simp]:
  "servants (snd (start_task ti e pf now p s)) = servants s"
  "next_ptr (snd (start_task ti e pf now p s)) = next_ptr s"
  "next_task_id (snd (start_task ti e pf now p s)) = next_task_id s + 1"
  "running_task_bookkeeper (snd (start_task ti e pf now p s)) = running_task_bookkeeper s"
  "servant_info (store (snd (start_task ti e pf now p s)) q) = servant_info (store s q)"
  "running_tasks (store (snd (start_task ti e pf now p s)) q) =
     (if q = p then running_tasks (store s q) + 1 else running_tasks (store s q))"
  "alloc_task_id (fst (start_task ti e pf now p s)) = next_task_id s"
  "alloc_servant_location (fst (start_task ti e pf now p s)) = location_of s p"
  by (simp_all add: start_task_def upd_servant_def Let_def)

definition new_task :: "TaskInfo \<Rightarrow> int \<Rightarrow> bool \<Rightarrow> time_point \<Rightarrow> servant_ptr \<Rightarrow> u64 \<Rightarrow> Task" where
  "new_task ti e pf now p i =
     \<lparr>task_id = i, task_info = ti, task_servant = p, started_tp = now,
      task_expires_tp = now + e, is_prefetch = pf, is_zombie = False\<rparr>"

lemma next_task_id_fresh:
  "dispatcher_inv n s \<Longrightarrow> umap_find (tasks s) (next_task_id s) = None"
  by (auto simp: dispatcher_inv_def umap_find_None_iff)

lemma start_task_tasks:
  "umap_find (tasks s) (next_task_id s) = None \<Longrightarrow>
     tasks (snd (start_task ti e pf now p s)) =
       tasks s @ [(next_task_id s, new_task ti e pf now p (next_task_id s))]"
  by (simp add: start_task_def upd_servant_def Let_def umap_set_fresh new_task_def)

lemma start_task_inv:
  assumes inv: "dispatcher_inv n s" and n: "n < 2 ^ 64 - 1" and p: "p \<in> set (servants s)"
  shows "dispatcher_inv (Suc n) (snd (start_task ti e pf now p s))"
proof -
  let ?t = "new_task ti e pf now p (next_task_id s)"
  have tasks': "tasks (snd (start_task ti e pf now p s)) = tasks s @ [(next_task_id s, ?t)]"
    using start_task_tasks[OF next_task_id_fresh[OF inv]] .
  have un: "unat (next_task_id s + 1) = Suc (unat (next_task_id s))"
    using inv n by (intro unat_inc) (auto simp: dispatcher_inv_def)
  have wf: "umap_wf (tasks s @ [(next_task_id s, ?t)])"
    using inv next_task_id_fresh[OF inv] by (auto simp: dispatcher_inv_def umap_wf_def umap_find_None_iff)
  have srv: "task_servant ?t = p" "task_id ?t = next_task_id s" by (simp_all add: new_task_def)
  show ?thesis
    using inv p wf unfolding dispatcher_inv_def start_task_fields tasks' un
    by (auto simp: srv)
qed

text \<open>Operations that change the tasks in place, but not their servants and ids.\<close>

lemma map_tasks_inv:
  assumes inv: "dispatcher_inv n s"
    and f: "\<And>i t. task_servant (f i t) = task_servant t" "\<And>i t. task_id (f i t) = task_id t"
  shows "dispatcher_inv n (s\<lparr>tasks := map (\<lambda>(i, t). (i, f i t)) (tasks s)\<rparr>)"
proof -
  have "umap_wf (map (\<lambda>(i, t). (i, f i t)) (tasks s))"
    using inv by (simp add: dispatcher_inv_def umap_wf_def comp_def case_prod_unfold)
  with inv show ?thesis
    by (auto simp: dispatcher_inv_def tasks_on_map f)
qed

definition prolong :: "u64 \<Rightarrow> time_point \<Rightarrow> u64 \<Rightarrow> Task \<Rightarrow> Task" where
  "prolong i tp j t = (if j = i \<and> \<not> is_zombie t then t\<lparr>task_expires_tp := tp\<rparr> else t)"

lemma prolong_fields [simp]:
  "task_servant (prolong i tp j t) = task_servant t" "task_id (prolong i tp j t) = task_id t"
  "is_zombie (prolong i tp j t) = is_zombie t"
  by (simp_all add: prolong_def)

lemma KeepTaskAlive_eq:
  assumes wf: "umap_wf (tasks s)"
  shows "KeepTaskAlive i e now s =
     ((\<exists>t. (i, t) \<in> set (tasks s) \<and> \<not> is_zombie t),
      s\<lparr>tasks := map (\<lambda>(j, t). (j, prolong i (now + e) j t)) (tasks s)\<rparr>)"
proof (cases "umap_find (tasks s) i")
  case None
  then have "map (\<lambda>(j, t). (j, prolong i (now + e) j t)) (tasks s) = tasks s"
    by (intro map_idI) (force simp: prolong_def umap_find_None_iff)
  moreover have "(i, t) \<notin> set (tasks s)" for t
    using None by (force simp: umap_find_None_iff)
  ultimately show ?thesis using None by (simp add: KeepTaskAlive_def)
next
  case (Some u)
  have only: "(i, t) \<in> set (tasks s) \<longleftrightarrow> t = u" for t
    using wf Some by (metis umap_find_iff option.inject)
  show ?thesis
  proof (cases "is_zombie u")
    case True
    then have "map (\<lambda>(j, t). (j, prolong i (now + e) j t)) (tasks s) = tasks s"
      by (intro map_idI) (auto simp: prolong_def only)
    with True Some show ?thesis by (simp add: KeepTaskAlive_def only)
  next
    case False
    have "i \<in> fst ` set (tasks s)" using only[of u] by force
    then have "umap_set i (u\<lparr>task_expires_tp := now + e\<rparr>) (tasks s) =
        map (\<lambda>(j, t). (j, prolong i (now + e) j t)) (tasks s)"
      using False by (auto simp: umap_set_present_map wf prolong_def only)
    with False Some show ?thesis by (simp add: KeepTaskAlive_def only)
  qed
qed

lemma KeepTaskAlive_inv: "dispatcher_inv n s \<Longrightarrow> dispatcher_inv n (snd (KeepTaskAlive i e now s))"
  using map_tasks_inv[of n s "prolong i (now + e)"]
  by (simp add: KeepTaskAlive_eq dispatcher_inv_def)

lemma find_servant_Some:
  "find_servant l s = Some p \<Longrightarrow> p \<in> set (servants s) \<and> location_of s p = l"
  by (auto simp: find_servant_def dest: find_SomeD)

lemma find_servant_None: "find_servant l s = None \<longleftrightarrow> l \<notin> location_of s ` set (servants s)"
  by (auto simp: find_servant_def find_None_iff)

lemma KeepServantAlive_fields [simp]:
  "tasks (KeepServantAlive info e now s) = tasks s"
  "next_task_id (KeepServantAlive info e now s) = next_task_id s"
  "running_task_bookkeeper (KeepServantAlive info e now s) = running_task_bookkeeper s"
  by (simp_all add: KeepServantAlive_def upd_servant_def split: option.split)

lemma KeepServantAlive_inv:
  assumes inv: "dispatcher_inv n s"
  shows "dispatcher_inv n (KeepServantAlive info e now s)" (is "dispatcher_inv n ?s")
proof (cases "find_servant (observed_location info) s")
  case (Some p)
  have same: "servants ?s = servants s" "next_ptr ?s = next_ptr s"
    "\<And>q. running_tasks (store ?s q) = running_tasks (store s q)"
    by (simp_all add: KeepServantAlive_def Some upd_servant_def)
  have "map (location_of ?s) (servants s) = map (location_of s) (servants s)"
    using find_servant_Some[OF Some] by (auto simp: KeepServantAlive_def Some upd_servant_def)
  then have "distinct (map (location_of ?s) (servants s)) = distinct (map (location_of s) (servants s))"
    by (simp only:)
  with inv show ?thesis
    unfolding dispatcher_inv_def same KeepServantAlive_fields by blast
next
  case None
  have new: "next_ptr s \<notin> set (servants s)" using inv by (auto simp: dispatcher_inv_def)
  then have 0: "tasks_on (next_ptr s) (tasks s) = 0"
    using inv by (intro tasks_on_0) (auto simp: dispatcher_inv_def)
  have same: "servants ?s = servants s @ [next_ptr s]" "next_ptr ?s = Suc (next_ptr s)"
    "\<And>q. running_tasks (store ?s q) = (if q = next_ptr s then 0 else running_tasks (store s q))"
    by (simp_all add: KeepServantAlive_def None)
  have "map (location_of ?s) (servants s @ [next_ptr s]) =
      map (location_of s) (servants s) @ [observed_location info]"
    using new by (auto simp: KeepServantAlive_def None)
  moreover have "observed_location info \<notin> location_of s ` set (servants s)"
    using None by (simp add: find_servant_None)
  ultimately have "distinct (map (location_of ?s) (servants s @ [next_ptr s]))"
    using inv unfolding dispatcher_inv_def by (simp only: distinct_append) simp
  moreover have "distinct (servants s @ [next_ptr s])" "set (servants s @ [next_ptr s]) \<subseteq> {..<Suc (next_ptr s)}"
    using inv new by (auto simp: dispatcher_inv_def)
  moreover have "\<forall>(i, t) \<in> set (tasks s). task_id t = i \<and> task_servant t \<in> set (servants s @ [next_ptr s])
                                 \<and> unat i < unat (next_task_id s)"
    using inv by (auto simp: dispatcher_inv_def)
  ultimately show ?thesis
    using inv 0 unfolding dispatcher_inv_def same KeepServantAlive_fields by (simp del: map_append)
qed

lemma KeepServantAlive_registers:
  "\<exists>q \<in> set (servants (KeepServantAlive info e now s)). servant_info (store (KeepServantAlive info e now s) q) = info"
proof (cases "find_servant (observed_location info) s")
  case None
  then show ?thesis by (intro bexI[of _ "next_ptr s"]) (simp_all add: KeepServantAlive_def)
next
  case (Some p)
  then show ?thesis
    by (intro bexI[of _ p]) (simp_all add: KeepServantAlive_def upd_servant_def find_servant_Some)
qed

lemma bookkeeper_update_inv:
  "dispatcher_inv n s \<Longrightarrow> bookkeeper_wf b \<Longrightarrow> dispatcher_inv n (s\<lparr>running_task_bookkeeper := b\<rparr>)"
  by (auto simp: dispatcher_inv_def)

lemma NotifyServantRunningTasks_inv:
  assumes inv: "dispatcher_inv n s"
  shows "dispatcher_inv n (snd (NotifyServantRunningTasks l rs s))"
proof (cases "find_servant l s")
  case None
  with inv show ?thesis by (simp add: NotifyServantRunningTasks_def)
next
  case (Some p)
  let ?s1 = "UnsafeClearZombies p (map task_grant_id rs) s"
  have "dispatcher_inv n ?s1" using inv by (simp add: UnsafeClearZombies_def UnsafeFreeTask_inv)
  then show ?thesis
    using Some by (auto simp: NotifyServantRunningTasks_def Let_def dispatcher_inv_def
        intro!: bookkeeper_update_inv[unfolded dispatcher_inv_def])
qed

section \<open>The timer\<close>

lemma drop_expired_servants_alive:
  "fst (drop_expired_servants now h ps b) = filter (\<lambda>p. \<not> servant_expires_tp (h p) < now) ps"
  by (induction ps arbitrary: b) (auto simp: case_prod_unfold)

lemma drop_expired_servants_wf:
  "bookkeeper_wf b \<Longrightarrow> bookkeeper_wf (snd (drop_expired_servants now h ps b))"
  by (induction ps arbitrary: b) (auto simp: case_prod_unfold)

lemma drop_expired_servants_reported:
  "reported (snd (drop_expired_servants now h ps b)) l =
     (if \<exists>p \<in> set ps. servant_expires_tp (h p) < now \<and> observed_location (servant_info (h p)) = l
      then None else reported b l)"
  by (induction ps arbitrary: b) (auto simp: case_prod_unfold reported_DelServant)

definition still_alive :: "time_point \<Rightarrow> TaskDispatcher \<Rightarrow> servant_ptr list" where
  "still_alive now s = filter (\<lambda>p. \<not> servant_expires_tp (store s p) < now) (servants s)"

definition mark_zombie :: "time_point \<Rightarrow> Task \<Rightarrow> Task" where
  "mark_zombie now t = (if task_expires_tp t < now then t\<lparr>is_zombie := True\<rparr> else t)"

lemma mark_zombie_fields [simp]:
  "task_servant (mark_zombie now t) = task_servant t" "task_id (mark_zombie now t) = task_id t"
  "task_expires_tp (mark_zombie now t) = task_expires_tp t"
  "is_zombie (mark_zombie now t) \<longleftrightarrow> is_zombie t \<or> task_expires_tp t < now"
  by (simp_all add: mark_zombie_def)

text \<open>The state after the servants were dropped and their tasks freed.\<close>

definition after_drop :: "time_point \<Rightarrow> TaskDispatcher \<Rightarrow> TaskDispatcher" where
  "after_drop now s =
     UnsafeFreeTask (map fst (filter (\<lambda>(i, t). task_servant t \<notin> set (still_alive now s)) (tasks s)))
       (s\<lparr>servants := still_alive now s,
          running_task_bookkeeper :=
            snd (drop_expired_servants now (store s) (servants s) (running_task_bookkeeper s))\<rparr>)"

lemma OnTimerExpiration_eq:
  "OnTimerExpiration now s =
     (after_drop now s)\<lparr>tasks := map (\<lambda>(i, t). (i, mark_zombie now t)) (tasks (after_drop now s))\<rparr>"
  by (simp add: OnTimerExpiration_def after_drop_def still_alive_def case_prod_unfold Let_def
      drop_expired_servants_alive mark_zombie_def)

lemma after_drop_tasks:
  assumes "umap_wf (tasks s)"
  shows "tasks (after_drop now s) = filter (\<lambda>(i, t). task_servant t \<in> set (still_alive now s)) (tasks s)"
proof -
  let ?ids = "map fst (filter (\<lambda>(i, t). task_servant t \<notin> set (still_alive now s)) (tasks s))"
  have "distinct ?ids" "set ?ids \<subseteq> fst ` set (tasks s)"
    using assms by (auto simp: umap_wf_def distinct_map_filter)
  then have "tasks (after_drop now s) = filter (\<lambda>(k, _). k \<notin> set ?ids) (tasks s)"
    unfolding after_drop_def by (subst UnsafeFreeTask_known[THEN conjunct1]) auto
  also have "\<dots> = filter (\<lambda>(i, t). task_servant t \<in> set (still_alive now s)) (tasks s)"
    using assms by (intro filter_cong) (auto simp: image_iff umap_wf_def dest: eq_key_imp_eq_value)
  finally show ?thesis .
qed

lemma tasks_OnTimerExpiration:
  "umap_wf (tasks s) \<Longrightarrow>
     tasks (OnTimerExpiration now s) =
       map (\<lambda>(i, t). (i, mark_zombie now t))
         (filter (\<lambda>(i, t). task_servant t \<in> set (still_alive now s)) (tasks s))"
  by (simp add: OnTimerExpiration_eq after_drop_tasks)

lemma servants_OnTimerExpiration: "servants (OnTimerExpiration now s) = still_alive now s"
  by (simp add: OnTimerExpiration_eq after_drop_def UnsafeFreeTask_frame)

lemma UnsafeFreeTask_swap:
  "UnsafeFreeTask ids (s\<lparr>servants := a, running_task_bookkeeper := b\<rparr>) =
     (UnsafeFreeTask ids s)\<lparr>servants := a, running_task_bookkeeper := b\<rparr>"
proof (induction ids arbitrary: s)
  case Nil
  then show ?case by simp
next
  case (Cons i ids)
  have "free_one i t (s\<lparr>servants := a, running_task_bookkeeper := b\<rparr>) =
      (free_one i t s)\<lparr>servants := a, running_task_bookkeeper := b\<rparr>" for t
    by (simp add: free_one_def upd_servant_def)
  with Cons show ?case by (simp add: UnsafeFreeTask_Cons split: option.split)
qed

lemma OnTimerExpiration_inv:
  assumes inv: "dispatcher_inv n s"
  shows "dispatcher_inv n (OnTimerExpiration now s)"
proof -
  let ?ids = "map fst (filter (\<lambda>(i, t). task_servant t \<notin> set (still_alive now s)) (tasks s))"
  let ?b = "snd (drop_expired_servants now (store s) (servants s) (running_task_bookkeeper s))"
  let ?s = "UnsafeFreeTask ?ids s"
  have inv': "dispatcher_inv n ?s" using inv by (rule UnsafeFreeTask_inv)
  have drop: "after_drop now s = ?s\<lparr>servants := still_alive now s, running_task_bookkeeper := ?b\<rparr>"
    by (simp add: after_drop_def UnsafeFreeTask_swap)
  have wf: "umap_wf (tasks s)" and b: "bookkeeper_wf ?b"
    using inv by (simp_all add: dispatcher_inv_def drop_expired_servants_wf)
  have "tasks ?s = tasks (after_drop now s)" by (simp add: drop)
  then have ts: "(i, t) \<in> set (tasks ?s) \<Longrightarrow> task_servant t \<in> set (still_alive now s)" for i t
    using after_drop_tasks[OF wf, of now] by auto
  have loc: "location_of (after_drop now s) = location_of s"
    by (simp add: drop UnsafeFreeTask_frame)
  have sub: "distinct (still_alive now s)" "set (still_alive now s) \<subseteq> {..<next_ptr s}"
    "distinct (map (location_of s) (still_alive now s))"
    using inv by (auto simp: dispatcher_inv_def still_alive_def distinct_map_filter)
  have frame: "servants (after_drop now s) = still_alive now s" "tasks (after_drop now s) = tasks ?s"
    "next_ptr (after_drop now s) = next_ptr s" "next_task_id (after_drop now s) = next_task_id ?s"
    "running_task_bookkeeper (after_drop now s) = ?b" "store (after_drop now s) = store ?s"
    by (simp_all add: drop UnsafeFreeTask_frame)
  have old: "\<forall>(i, t) \<in> set (tasks ?s). task_id t = i \<and> task_servant t \<in> set (still_alive now s)
      \<and> unat i < unat (next_task_id ?s)"
    using inv' ts unfolding dispatcher_inv_def by blast
  have "dispatcher_inv n (after_drop now s)"
    unfolding dispatcher_inv_def loc frame(1-5) unfolding frame(6)
    using inv' old sub b by (simp add: dispatcher_inv_def)
  then show ?thesis
    unfolding OnTimerExpiration_eq by (rule map_tasks_inv) simp_all
qed

section \<open>Runs of operations\<close>

lemma exec_op_inv:
  assumes inv: "dispatcher_inv n s" and n: "n < 2 ^ 64 - 1"
  shows "\<exists>t. exec_op x s = Inr t \<and> dispatcher_inv (Suc n) t"
proof (cases x)
  case (OpStart ti e pf now)
  show ?thesis
  proof (cases rule: try_start_cases[of ti e pf now s])
    case noenv
    with OpStart inv show ?thesis by (auto intro: dispatcher_inv_mono)
  next
    case busy
    with OpStart inv show ?thesis by (auto intro: dispatcher_inv_mono)
  next
    case (started p)
    then have "p \<in> set (servants s)" using set_free by blast
    with started OpStart start_task_inv[OF inv n] show ?thesis by auto
  qed
next
  case (OpFreeTask i)
  with inv show ?thesis
    by (auto simp: FreeTask_def intro: UnsafeFreeTask_inv dispatcher_inv_mono)
qed (use inv in \<open>auto intro: KeepTaskAlive_inv KeepServantAlive_inv NotifyServantRunningTasks_inv
       OnTimerExpiration_inv dispatcher_inv_mono[of n _ "Suc n"]\<close>)

interpretation disp: stepwise exec_op dispatcher_inv "2 ^ 64 - 1"
  by unfold_locales (rule exec_op_inv)

lemma dispatcher_init_inv: "dispatcher_inv 0 (dispatcher_init m)"
  by (simp add: dispatcher_inv_def dispatcher_init_def umap.ok_emp)

lemmas dispatcher_run = disp.run_inv[OF dispatcher_init_inv, simplified]

text \<open>The counter of a servant is exact, since there are fewer than \<open>2 ^ 64\<close> tasks.\<close>

lemma running_tasks_exact:
  "dispatcher_inv n s \<Longrightarrow> n < 2 ^ 64 \<Longrightarrow> unat (running_tasks (store s p)) = tasks_on p (tasks s)"
  using tasks_on_le[of p "tasks s"] by (simp add: dispatcher_inv_def unat_of_nat_u64)

end
