(* ===== verification/Dispatcher_Props.thy ===== *)
theory Dispatcher_Props
  imports Dispatcher_Inv
begin

text \<open>
  What the scheduler's \<open>TaskDispatcher\<close> guarantees: exact accounting and fresh ids over every
  run, grants within the capacity of the chosen servant, the fate of zombies, the behaviour of
  the timer, of heartbeats and of the release of tasks, and the end of the blocking grant.
\<close>

section \<open>Lemmas on single operations\<close>

lemma AvailableTasks_eq:
  assumes "total_memory_in_bytes (servant_info v) = 0 \<or> m \<le> avail_memory_in_bytes (servant_info v)"
  shows "AvailableTasks m v =
    min (concurrency (servant_info v))
      (num_cpu_cores (servant_info v) + running_tasks v - current_load (servant_info v))"
proof -
  have max0: "max w 0 = w" for w :: u64 by (simp add: max_def)
  show ?thesis using assms by (auto simp: AvailableTasks_def Let_def max0 algebra_simps)
qed

lemma uint_min: "uint (min a b :: u64) = min (uint a) (uint b)"
  by (simp add: min_def word_le_def)

lemma uint_spare: "uint (a + b - c :: u64) = (uint a + uint b - uint c) mod 2 ^ 64"
  by (simp add: uint_word_ariths mod_simps)

lemma next_task_id_mono:
  assumes inv: "dispatcher_inv n s" and n: "n < 2 ^ 64 - 1" and x: "exec_op x s = Inr t"
  shows "unat (next_task_id s) \<le> unat (next_task_id t)"
proof (cases x)
  case (OpStart ti e pf now)
  have un: "unat (next_task_id s + 1) = Suc (unat (next_task_id s))"
    using inv n by (intro unat_inc) (auto simp: dispatcher_inv_def)
  show ?thesis
    using x OpStart un by (cases rule: try_start_cases[of ti e pf now s]) auto
next
  case (OpKeepTaskAlive i e now)
  with x inv show ?thesis by (auto simp: KeepTaskAlive_eq dispatcher_inv_def)
next
  case (OpNotify l rs)
  with x show ?thesis
    by (auto simp: NotifyServantRunningTasks_def Let_def UnsafeClearZombies_def UnsafeFreeTask_frame
        split: option.splits)
next
  case (OpTimer now)
  with x show ?thesis by (auto simp: OnTimerExpiration_eq after_drop_def UnsafeFreeTask_frame)
qed (use x in \<open>auto simp: FreeTask_def UnsafeFreeTask_frame\<close>)

lemma next_task_id_run:
  "dispatcher_inv n s \<Longrightarrow> n + length xs \<le> 2 ^ 64 - 1 \<Longrightarrow> run_steps exec_op xs s = Inr t \<Longrightarrow>
     unat (next_task_id s) \<le> unat (next_task_id t)"
proof (induction xs arbitrary: n s)
  case Nil
  then show ?case by simp
next
  case (Cons x xs)
  obtain u where u: "exec_op x s = Inr u" "dispatcher_inv (Suc n) u"
    using exec_op_inv[of n s x] Cons.prems by auto
  have "unat (next_task_id s) \<le> unat (next_task_id u)"
    using next_task_id_mono[of n s x u] u Cons.prems by simp
  also have "\<dots> \<le> unat (next_task_id t)"
    using Cons.IH[of "Suc n" u] u Cons.prems by simp
  finally show ?case .
qed

text \<open>A zombie stays a zombie until it leaves the table, and its id does not come back.\<close>

definition dead_task :: "u64 \<Rightarrow> TaskDispatcher \<Rightarrow> bool" where
  "dead_task i s \<longleftrightarrow> unat i < unat (next_task_id s) \<and> (\<forall>t. (i, t) \<in> set (tasks s) \<longrightarrow> is_zombie t)"

lemma UnsafeFreeTask_subset: "set (tasks (UnsafeFreeTask ids s)) \<subseteq> set (tasks s)"
proof (induction ids arbitrary: s)
  case (Cons i ids)
  have "set (tasks (UnsafeFreeTask ids (free_one i t s))) \<subseteq> set (tasks s)" for t
    using Cons[of "free_one i t s"] by (auto simp: set_umap_erase)
  then show ?case by (simp add: UnsafeFreeTask_Cons split: option.split)
qed simp

lemma dead_task_step:
  assumes inv: "dispatcher_inv n s" and n: "n < 2 ^ 64 - 1" and dead: "dead_task i s"
    and x: "exec_op x s = Inr t"
  shows "dead_task i t"
proof -
  have wf: "umap_wf (tasks s)" using inv by (simp add: dispatcher_inv_def)
  have "is_zombie u" if "(i, u) \<in> set (tasks t)" for u
  proof (cases x)
    case (OpStart ti e pf now)
    have new: "tasks (snd (start_task ti e pf now p s)) =
        tasks s @ [(next_task_id s, new_task ti e pf now p (next_task_id s))]" for p
      using start_task_tasks[OF next_task_id_fresh[OF inv]] .
    show ?thesis
      using x OpStart that dead by (cases rule: try_start_cases[of ti e pf now s])
        (auto simp: dead_task_def new)
  next
    case (OpKeepTaskAlive j e now)
    with x that dead show ?thesis by (auto simp: KeepTaskAlive_eq[OF wf] dead_task_def)
  next
    case (OpFreeTask j)
    with x that dead show ?thesis
      using UnsafeFreeTask_subset[of "[j]" s] by (auto simp: FreeTask_def dead_task_def)
  next
    case (OpKeepServantAlive info e now)
    with x that dead show ?thesis by (auto simp: dead_task_def)
  next
    case (OpNotify l rs)
    with x that dead show ?thesis
      by (auto simp: NotifyServantRunningTasks_def Let_def UnsafeClearZombies_def dead_task_def
          split: option.splits dest!: UnsafeFreeTask_subset[THEN subsetD])
  next
    case (OpTimer now)
    with x that dead show ?thesis by (auto simp: tasks_OnTimerExpiration[OF wf] dead_task_def)
  qed
  with dead next_task_id_mono[OF inv n x] show ?thesis by (auto simp: dead_task_def)
qed

lemma dead_task_run:
  "dispatcher_inv n s \<Longrightarrow> n + length xs \<le> 2 ^ 64 - 1 \<Longrightarrow> dead_task i s \<Longrightarrow>
     run_steps exec_op xs s = Inr t \<Longrightarrow> dead_task i t"
proof (induction xs arbitrary: n s)
  case Nil
  then show ?case by simp
next
  case (Cons x xs)
  obtain u where u: "exec_op x s = Inr u" "dispatcher_inv (Suc n) u"
    using exec_op_inv[of n s x] Cons.prems by auto
  with Cons dead_task_step[of n s i x u] show ?case by auto
qed

text \<open>A release that meets an unknown id.\<close>

lemma UnsafeFreeTask_append_unknown:
  "distinct ids \<Longrightarrow> set ids \<subseteq> fst ` set (tasks s) \<Longrightarrow> j \<notin> fst ` set (tasks s) \<Longrightarrow>
     tasks (UnsafeFreeTask (ids @ j # rest) s) = filter (\<lambda>(k, _). k \<notin> set ids) (tasks s) \<and>
     alloc_cv (UnsafeFreeTask (ids @ j # rest) s) = alloc_cv s"
proof (induction ids arbitrary: s)
  case Nil
  then show ?case
    by (auto simp: UnsafeFreeTask_Cons umap_find_None_iff[THEN iffD2] case_prod_unfold)
next
  case (Cons i ids)
  then obtain t where t: "umap_find (tasks s) i = Some t"
    using umap_find_None_iff[of "tasks s" i] by auto
  have "set ids \<subseteq> fst ` set (tasks (free_one i t s))" "j \<notin> fst ` set (tasks (free_one i t s))"
    using Cons.prems by (force simp: set_umap_erase)+
  with Cons.IH[of "free_one i t s"] Cons.prems t show ?case
    by (simp add: UnsafeFreeTask_Cons filter_umap_erase)
qed

text \<open>What a heartbeat of a known servant leaves of the task table.\<close>

lemma tasks_UnsafeClearZombies:
  assumes "umap_wf (tasks s)"
  shows "tasks (UnsafeClearZombies p ids s) =
    filter (\<lambda>(i, t). \<not> (task_servant t = p \<and> is_zombie t \<and> task_id t \<notin> set ids)) (tasks s)"
proof -
  let ?P = "\<lambda>(k :: u64, t). task_servant t = p \<and> is_zombie t \<and> task_id t \<notin> set ids"
  have "distinct (map fst (filter ?P (tasks s)))" "set (map fst (filter ?P (tasks s))) \<subseteq> fst ` set (tasks s)"
    using assms by (auto simp: umap_wf_def distinct_map_filter)
  then have "tasks (UnsafeClearZombies p ids s) = filter (\<lambda>(k, _). k \<notin> set (map fst (filter ?P (tasks s)))) (tasks s)"
    unfolding UnsafeClearZombies_def by (subst UnsafeFreeTask_known[THEN conjunct1]) auto
  also have "\<dots> = filter (\<lambda>(i, t). \<not> (task_servant t = p \<and> is_zombie t \<and> task_id t \<notin> set ids)) (tasks s)"
    using assms by (intro filter_cong) (auto simp: image_iff umap_wf_def dest: eq_key_imp_eq_value)
  finally show ?thesis .
qed

text \<open>What an answer of the blocking grant satisfies; \<open>lo\<close> bounds the ids that existed before.\<close>

definition answer_ok :: "nat \<Rightarrow> nat \<Rightarrow> TaskAllocation option \<Rightarrow> WaitStatus \<Rightarrow> TaskDispatcher \<Rightarrow> bool" where
  "answer_ok lo k r st s \<longleftrightarrow>
     (st = WaitStatus_OK \<longleftrightarrow> r \<noteq> None) \<and> dispatcher_inv k s \<and> lo \<le> unat (next_task_id s) \<and>
     (\<forall>a. r = Some a \<longrightarrow> lo \<le> unat (alloc_task_id a) \<and> unat (alloc_task_id a) < unat (next_task_id s))"

lemma answer_ok_mono: "answer_ok lo k r st s \<Longrightarrow> k \<le> k' \<Longrightarrow> lo' \<le> lo \<Longrightarrow> answer_ok lo' k' r st s"
  by (auto simp: answer_ok_def intro: dispatcher_inv_mono)

lemma answer_ok_refused:
  "dispatcher_inv n s \<Longrightarrow> n \<le> k \<Longrightarrow> st \<noteq> WaitStatus_OK \<Longrightarrow> answer_ok (unat (next_task_id s)) k None st s"
  by (auto simp: answer_ok_def intro: dispatcher_inv_mono)

lemma answer_ok_started:
  assumes "dispatcher_inv n s" and "n < 2 ^ 64 - 1" and "p \<in> set (servants s)"
  shows "answer_ok (unat (next_task_id s)) (Suc n) (Some (fst (start_task ti e pf now p s))) WaitStatus_OK
    (snd (start_task ti e pf now p s))"
proof -
  have "unat (next_task_id s + 1) = Suc (unat (next_task_id s))"
    using assms(1,2) by (intro unat_inc) (auto simp: dispatcher_inv_def)
  with start_task_inv[OF assms] show ?thesis by (simp add: answer_ok_def)
qed

lemma WaitForStartingNewTask_returns:
  "dispatcher_inv n s \<Longrightarrow> n + length (concat (map fst waits)) < 2 ^ 64 - 1 \<Longrightarrow> waits \<noteq> [] \<Longrightarrow>
     timeout \<le> snd (last waits) \<Longrightarrow>
     \<exists>r st s'. WaitForStartingNewTask ti e timeout pf now waits s = Inr (Returned r st s') \<and>
       answer_ok (unat (next_task_id s)) (Suc (n + length (concat (map fst waits)))) r st s'"
proof (induction waits arbitrary: n s now)
  case Nil
  then show ?case by simp
next
  case (Cons w waits)
  obtain ops now' where w: "w = (ops, now')" by (cases w)
  show ?case
  proof (cases rule: try_start_cases[of ti e pf now s])
    case noenv
    with Cons.prems(1) show ?thesis by (auto simp: WaitForStartingNewTask.simps intro: answer_ok_refused)
  next
    case (started p)
    then have "p \<in> set (servants s)" using set_free by blast
    from answer_ok_started[OF Cons.prems(1) _ this, of ti e pf now] Cons.prems(2) started(3) show ?thesis
      by (auto simp: WaitForStartingNewTask.simps elim!: answer_ok_mono)
  next
    case busy
    obtain t where t: "run_steps exec_op ops s = Inr t" "dispatcher_inv (n + length ops) t"
      using disp.run_inv[of n s ops] Cons.prems w by auto
    have lo: "unat (next_task_id s) \<le> unat (next_task_id t)"
      using next_task_id_run[OF Cons.prems(1) _ t(1)] Cons.prems(2) w by simp
    show ?thesis
    proof (cases "timeout \<le> now'")
      case True
      have "answer_ok (unat (next_task_id s)) (n + length ops) None WaitStatus_Timeout t"
        by (rule answer_ok_mono[OF answer_ok_refused[OF t(2) order_refl] order_refl lo]) simp
      with True t(1) busy(1) w show ?thesis
        by (auto simp: WaitForStartingNewTask.simps elim!: answer_ok_mono)
    next
      case False
      with Cons.prems w have "waits \<noteq> []" by auto
      then have "\<exists>r st s'. WaitForStartingNewTask ti e timeout pf now' waits t = Inr (Returned r st s') \<and>
          answer_ok (unat (next_task_id t)) (Suc (n + length ops + length (concat (map fst waits)))) r st s'"
        using Cons.prems t(2) w by (intro Cons.IH) auto
      moreover have "WaitForStartingNewTask ti e timeout pf now (w # waits) s =
          WaitForStartingNewTask ti e timeout pf now' waits t"
        using t(1) w False busy(1) by (simp add: WaitForStartingNewTask.simps[of _ _ _ _ now])
      ultimately show ?thesis using w lo by (auto simp: add.assoc elim!: answer_ok_mono)
    qed
  qed
qed

section \<open>Properties\<close>

text \<open>A scheduler with one servant, for the concrete instances.\<close>

definition demo_servant :: ServantInfo where
  "demo_servant = blank_servant_info\<lparr>observed_location := ''10.0.0.2:8335'', num_cpu_cores := 8,
     concurrency := 2, priority := SERVANT_PRIORITY_USER, env_decs := [\<lparr>compiler_digest = ''gcc''\<rparr>]\<rparr>"

definition demo_task :: TaskInfo where
  "demo_task = \<lparr>requester_ip = ''10.0.0.3'', min_version = 1, env_desc = \<lparr>compiler_digest = ''gcc''\<rparr>\<rparr>"

definition demo_ops :: "dispatcher_op list" where
  "demo_ops = [OpKeepServantAlive demo_servant (sec 10) 0]"

definition demo_state :: TaskDispatcher where
  "demo_state = KeepServantAlive demo_servant (sec 10) 0 (dispatcher_init 0)"

lemma demo_run: "run_steps exec_op demo_ops (dispatcher_init 0) = Inr demo_state"
  by (simp add: demo_ops_def demo_state_def)

lemmas demo_defs = demo_servant_def demo_task_def demo_state_def KeepServantAlive_def
  find_servant_def dispatcher_init_def blank_servant_info_def

lemma demo_start:
  "try_start demo_task (sec 15) False 1 demo_state =
     Inr (Started (fst (start_task demo_task (sec 15) False 1 0 demo_state))
                  (snd (start_task demo_task (sec 15) False 1 0 demo_state)))"
  by (simp add: try_start_def UnsafeGetServantsHasEnv_def UnsafeGetFreeServants_def demo_defs
      has_env_def AvailableTasks_def UnsafePickUpFreeServant_def is_self_def StartWith_def
      UnsafePickUpServant_def is_idle_dedicated_def case_prod_unfold Let_def)

text \<open>
  Claim C1. Whatever operations the scheduler executes (fewer than \<open>2 ^ 64\<close> of them: grants,
  renewals, releases, heartbeats, reports and timer runs, in any order), none ends in a fault,
  and afterwards every servant's counter of running tasks is exactly the number of tasks of the
  table granted on it; every task is stored under its own id and belongs to a servant of the
  table; ids and servant locations are unique.
\<close>

theorem dispatcher_accounting:
  assumes "length ops < 2 ^ 64"
  shows "\<exists>s. run_steps exec_op ops (dispatcher_init m) = Inr s \<and>
    (\<forall>p. unat (running_tasks (store s p)) = length (filter (\<lambda>(i, t). task_servant t = p) (tasks s))) \<and>
    (\<forall>i t. (i, t) \<in> set (tasks s) \<longrightarrow> task_id t = i \<and> task_servant t \<in> set (servants s)) \<and>
    distinct (map fst (tasks s)) \<and>
    distinct (map (\<lambda>p. observed_location (servant_info (store s p))) (servants s))"
proof -
  obtain s where s: "run_steps exec_op ops (dispatcher_init m) = Inr s" "dispatcher_inv (length ops) s"
    using dispatcher_run[of ops m] assms by auto
  then have "\<forall>p. unat (running_tasks (store s p)) = length (filter (\<lambda>(i, t). task_servant t = p) (tasks s))"
    using running_tasks_exact[OF s(2) assms] by (simp add: tasks_on_def)
  with s show ?thesis by (auto simp: dispatcher_inv_def umap_wf_def)
qed

theorem dispatcher_accounting_witness:
  "\<exists>s. run_steps exec_op (demo_ops @ [OpStart demo_task (sec 15) False 1]) (dispatcher_init 0) = Inr s \<and>
    (\<forall>p. unat (running_tasks (store s p)) = length (filter (\<lambda>(i, t). task_servant t = p) (tasks s)))"
  using dispatcher_accounting[of "demo_ops @ [OpStart demo_task (sec 15) False 1]" 0]
  by (auto simp: demo_ops_def simp del: run_steps.simps)




text \<open>
  Task ids are handed out in increasing order: of two grants of one scheduler, with any
  operations between them, the later one has the larger id, so no id is granted twice.
\<close>

theorem task_ids_increase:
  assumes "length ops1 + length ops2 < 2 ^ 64 - 2"
    and "run_steps exec_op ops1 (dispatcher_init m) = Inr s1"
    and "try_start ti1 e1 pf1 now1 s1 = Inr (Started a t1)"
    and "run_steps exec_op ops2 t1 = Inr s2"
    and "try_start ti2 e2 pf2 now2 s2 = Inr (Started b t2)"
  shows "unat (alloc_task_id a) < unat (alloc_task_id b)"
proof -
  have inv: "dispatcher_inv (length ops1) s1"
    using disp.run_invD[OF dispatcher_init_inv _ assms(2)] assms(1) by simp
  have t1: "exec_op (OpStart ti1 e1 pf1 now1) s1 = Inr t1" using assms(3) by simp
  then have inv1: "dispatcher_inv (Suc (length ops1)) t1"
    using exec_op_inv[OF inv, of "OpStart ti1 e1 pf1 now1"] assms(1) by auto
  have "alloc_task_id a = next_task_id s1" "next_task_id t1 = next_task_id s1 + 1"
    using assms(3) by (cases rule: try_start_cases[of ti1 e1 pf1 now1 s1]; auto)+
  moreover have "unat (next_task_id s1 + 1) = Suc (unat (next_task_id s1))"
    using inv assms(1) by (intro unat_inc) (auto simp: dispatcher_inv_def)
  moreover have "alloc_task_id b = next_task_id s2"
    using assms(5) by (cases rule: try_start_cases[of ti2 e2 pf2 now2 s2]; auto)
  moreover have "unat (next_task_id t1) \<le> unat (next_task_id s2)"
    using next_task_id_run[OF inv1 _ assms(4)] assms(1) by simp
  ultimately show ?thesis by simp
qed

definition demo_granted :: TaskDispatcher where
  "demo_granted = snd (start_task demo_task (sec 15) False 1 0 demo_state)"

lemma demo_granted_tasks:
  "tasks demo_granted = [(0, new_task demo_task (sec 15) False 1 0 0)]"
  "servants demo_granted = [0]"
  by (simp_all add: demo_granted_def start_task_def upd_servant_def Let_def demo_defs umap_find_def
      umap_set_def new_task_def)

lemma demo_second_start:
  "try_start demo_task (sec 15) False 2 demo_granted =
     Inr (Started (fst (start_task demo_task (sec 15) False 2 0 demo_granted))
                  (snd (start_task demo_task (sec 15) False 2 0 demo_granted)))"
  by (simp add: try_start_def UnsafeGetServantsHasEnv_def UnsafeGetFreeServants_def demo_defs
      demo_granted_def start_task_def upd_servant_def
      has_env_def AvailableTasks_def UnsafePickUpFreeServant_def is_self_def StartWith_def
      UnsafePickUpServant_def is_idle_dedicated_def case_prod_unfold Let_def)
     (simp add: word_le_nat_alt)

theorem task_ids_increase_witness:
  "unat (alloc_task_id (fst (start_task demo_task (sec 15) False 1 0 demo_state)))
     < unat (alloc_task_id (fst (start_task demo_task (sec 15) False 2 0 demo_granted)))"
proof (rule task_ids_increase[OF _ demo_run demo_start _ demo_second_start])
  show "length demo_ops + length [] < 2 ^ 64 - 2" by (simp add: demo_ops_def)
  show "run_steps exec_op [] (snd (start_task demo_task (sec 15) False 1 0 demo_state)) = Inr demo_granted"
    by (simp add: demo_granted_def)
qed

text \<open>
  Claim C3. A task whose lease has run out when the timer looks becomes a zombie, and whatever
  happens afterwards it is never revived: it is still a zombie or gone, and every
  \<open>KeepTaskAlive\<close> for its id is refused and changes nothing.
\<close>

theorem zombies_never_revive:
  assumes "length ops1 + length ops2 < 2 ^ 64 - 1"
    and "run_steps exec_op ops1 (dispatcher_init m) = Inr s"
    and "(i, t) \<in> set (tasks s)" and "task_expires_tp t < now"
    and "run_steps exec_op (OpTimer now # ops2) s = Inr s'"
  shows "(\<forall>u. (i, u) \<in> set (tasks s') \<longrightarrow> is_zombie u) \<and> KeepTaskAlive i e now' s' = (False, s')"
proof -
  let ?s = "OnTimerExpiration now s"
  have inv: "dispatcher_inv (length ops1) s"
    using disp.run_invD[OF dispatcher_init_inv _ assms(2)] assms(1) by simp
  then have wf: "umap_wf (tasks s)" and less: "unat i < unat (next_task_id s)"
    using assms(3) by (auto simp: dispatcher_inv_def)
  have inv': "dispatcher_inv (length ops1) ?s" using inv by (rule OnTimerExpiration_inv)
  have "u = t" if "(i, u) \<in> set (tasks s)" for u
    using that assms(3) wf by (auto simp: umap_wf_def dest: eq_key_imp_eq_value)
  moreover have "next_task_id ?s = next_task_id s"
    by (simp add: OnTimerExpiration_eq after_drop_def UnsafeFreeTask_frame)
  ultimately have "dead_task i ?s"
    using assms(4) less by (auto simp: dead_task_def tasks_OnTimerExpiration[OF wf])
  moreover have run: "run_steps exec_op ops2 ?s = Inr s'" using assms(5) by simp
  ultimately have dead: "dead_task i s'"
    using dead_task_run[OF inv', of ops2 i s'] assms(1) by simp
  have "umap_wf (tasks s')"
    using disp.run_invD[OF inv' _ run] assms(1) by (simp add: dispatcher_inv_def)
  with dead show ?thesis
    by (cases "umap_find (tasks s') i")
       (auto simp: dead_task_def KeepTaskAlive_def dest: umap_find_SomeD)
qed

theorem zombies_never_revive_witness:
  "KeepTaskAlive 0 (sec 15) (sec 30) (FreeTask 7 (OnTimerExpiration (sec 20) demo_granted)) =
     (False, FreeTask 7 (OnTimerExpiration (sec 20) demo_granted))"
proof -
  have "length (demo_ops @ [OpStart demo_task (sec 15) False 1]) + length [OpFreeTask 7] < 2 ^ 64 - 1"
    by (simp add: demo_ops_def)
  moreover have "run_steps exec_op (demo_ops @ [OpStart demo_task (sec 15) False 1]) (dispatcher_init 0)
      = Inr demo_granted"
    by (simp add: run_steps_append demo_run demo_start demo_granted_def)
  moreover have "(0, new_task demo_task (sec 15) False 1 0 0) \<in> set (tasks demo_granted)"
    by (simp add: demo_granted_tasks)
  moreover have "task_expires_tp (new_task demo_task (sec 15) False 1 0 0) < sec 20"
    by (simp add: new_task_def sec_def)
  moreover have "run_steps exec_op [OpTimer (sec 20), OpFreeTask 7] demo_granted =
      Inr (FreeTask 7 (OnTimerExpiration (sec 20) demo_granted))" by simp
  ultimately show ?thesis by (rule zombies_never_revive[THEN conjunct2])
qed

text \<open>
  A run of the timer keeps exactly the servants whose lease has not run out and, in
  their order, exactly the tasks on those servants; a kept task is a zombie iff it was one or its
  lease has run out; the running tasks reported by a dropped servant are forgotten, those of
  every other location are kept.
\<close>

theorem timer_expiration:
  assumes "length ops < 2 ^ 64" and "run_steps exec_op ops (dispatcher_init m) = Inr s"
  shows "servants (OnTimerExpiration now s) = filter (\<lambda>p. now \<le> servant_expires_tp (store s p)) (servants s) \<and>
    tasks (OnTimerExpiration now s) =
      map (\<lambda>(i, t). (i, t\<lparr>is_zombie := is_zombie t \<or> task_expires_tp t < now\<rparr>))
        (filter (\<lambda>(i, t). now \<le> servant_expires_tp (store s (task_servant t))) (tasks s)) \<and>
    reported (running_task_bookkeeper (OnTimerExpiration now s)) l =
      (if \<exists>p \<in> set (servants s). servant_expires_tp (store s p) < now
            \<and> observed_location (servant_info (store s p)) = l
       then None else reported (running_task_bookkeeper s) l)"
proof -
  have inv: "dispatcher_inv (length ops) s"
    using disp.run_invD[OF dispatcher_init_inv _ assms(2)] assms(1) by simp
  then have wf: "umap_wf (tasks s)" by (simp add: dispatcher_inv_def)
  have srv: "servants (OnTimerExpiration now s) = filter (\<lambda>p. now \<le> servant_expires_tp (store s p)) (servants s)"
    by (simp add: servants_OnTimerExpiration still_alive_def not_less)
  have "filter (\<lambda>(i, t). task_servant t \<in> set (still_alive now s)) (tasks s) =
      filter (\<lambda>(i, t). now \<le> servant_expires_tp (store s (task_servant t))) (tasks s)"
    using inv by (intro filter_cong) (auto simp: dispatcher_inv_def still_alive_def)
  moreover have "mark_zombie now t = t\<lparr>is_zombie := is_zombie t \<or> task_expires_tp t < now\<rparr>" for t
    by (simp add: mark_zombie_def)
  ultimately have ts: "tasks (OnTimerExpiration now s) =
      map (\<lambda>(i, t). (i, t\<lparr>is_zombie := is_zombie t \<or> task_expires_tp t < now\<rparr>))
        (filter (\<lambda>(i, t). now \<le> servant_expires_tp (store s (task_servant t))) (tasks s))"
    using tasks_OnTimerExpiration[OF wf, of now] by simp
  have "reported (running_task_bookkeeper (OnTimerExpiration now s)) l =
      (if \<exists>p \<in> set (servants s). servant_expires_tp (store s p) < now
            \<and> observed_location (servant_info (store s p)) = l
       then None else reported (running_task_bookkeeper s) l)"
    by (simp add: OnTimerExpiration_eq after_drop_def UnsafeFreeTask_frame drop_expired_servants_reported)
  with srv ts show ?thesis by blast
qed

theorem timer_expiration_witness:
  "servants (OnTimerExpiration (sec 20) demo_state) = []"
  using timer_expiration[OF _ demo_run, of "sec 20" "[]"]
  by (simp add: demo_ops_def) (simp add: demo_defs sec_def)

text \<open>
  A heartbeat report of a known servant is answered with exactly the reported ids that
  are not live tasks of that servant, in the order of the report; the zombies of that servant
  which it no longer reports leave the table and nothing else does; and the bookkeeper then holds,
  for that location, exactly the reports of live tasks. A report from a location that is not in
  the table is answered with all its ids and changes nothing.
\<close>

theorem notify_running_tasks:
  assumes "length ops < 2 ^ 64" and "run_steps exec_op ops (dispatcher_init m) = Inr s"
  shows "case find_servant l s of
      None \<Rightarrow> NotifyServantRunningTasks l rs s = (map task_grant_id rs, s)
    | Some p \<Rightarrow>
        (let live = (\<lambda>r. \<exists>t. (task_grant_id r, t) \<in> set (tasks s) \<and> task_servant t = p \<and> \<not> is_zombie t)
         in \<exists>s'. NotifyServantRunningTasks l rs s = (map task_grant_id (filter (\<lambda>r. \<not> live r) rs), s') \<and>
              tasks s' = filter (\<lambda>(i, t). \<not> (task_servant t = p \<and> is_zombie t \<and> i \<notin> task_grant_id ` set rs)) (tasks s) \<and>
              reported (running_task_bookkeeper s') = (reported (running_task_bookkeeper s))(l \<mapsto> filter live rs))"
proof (cases "find_servant l s")
  case None
  then show ?thesis by (simp add: NotifyServantRunningTasks_def)
next
  case (Some p)
  let ?s1 = "UnsafeClearZombies p (map task_grant_id rs) s"
  have inv: "dispatcher_inv (length ops) s"
    using disp.run_invD[OF dispatcher_init_inv _ assms(2)] assms(1) by simp
  then have wf: "umap_wf (tasks s)" by (simp add: dispatcher_inv_def)
  note ts = tasks_UnsafeClearZombies[OF wf, of p "map task_grant_id rs"]
  have perm: "task_grant_id r \<in> set (permitted_task_ids p ?s1) \<longleftrightarrow>
      (\<exists>t. (task_grant_id r, t) \<in> set (tasks s) \<and> task_servant t = p \<and> \<not> is_zombie t)" for r
    by (auto simp: permitted_task_ids_def ts image_iff; force)
  have ids: "filter (\<lambda>(i, t). \<not> (task_servant t = p \<and> is_zombie t \<and> task_id t \<notin> set (map task_grant_id rs))) (tasks s)
      = filter (\<lambda>(i, t). \<not> (task_servant t = p \<and> is_zombie t \<and> i \<notin> task_grant_id ` set rs)) (tasks s)"
    using inv by (intro filter_cong) (auto simp: dispatcher_inv_def)
  have book: "running_task_bookkeeper ?s1 = running_task_bookkeeper s"
    by (simp add: UnsafeClearZombies_def UnsafeFreeTask_frame)
  show ?thesis
    unfolding Some option.case Let_def
    using ids by (intro exI[of _ "snd (NotifyServantRunningTasks l rs s)"])
       (simp add: NotifyServantRunningTasks_def Some perm Let_def reported_SetRunningTask ts book)
qed

theorem notify_running_tasks_witness:
  "\<exists>s'. NotifyServantRunningTasks ''10.0.0.2:8335'' [\<lparr>servant_task_id = 4, task_grant_id = 9,
      servant_location = [], task_digest = []\<rparr>] demo_state = ([9], s')"
proof -
  have "length demo_ops < 2 ^ 64" by (simp add: demo_ops_def)
  moreover have "find_servant ''10.0.0.2:8335'' demo_state = Some 0" "tasks demo_state = []"
    by (simp_all add: demo_defs)
  ultimately show ?thesis
    using notify_running_tasks[OF _ demo_run, of "''10.0.0.2:8335''" "[\<lparr>servant_task_id = 4, task_grant_id = 9,
      servant_location = [], task_digest = []\<rparr>]"] by (auto simp: Let_def)
qed

text \<open>
  How many tasks a servant may run in all, as the code computes it: unless memory is
  short, the lesser of its concurrency and of cores + running - load taken modulo \<open>2 ^ 64\<close>.
\<close>

theorem available_tasks_formula:
  assumes "total_memory_in_bytes (servant_info v) = 0 \<or> m \<le> avail_memory_in_bytes (servant_info v)"
  shows "uint (AvailableTasks m v) =
    min (uint (concurrency (servant_info v)))
        ((uint (num_cpu_cores (servant_info v)) + uint (running_tasks v)
           - uint (current_load (servant_info v))) mod 2 ^ 64)"
  by (simp add: AvailableTasks_eq[OF assms] uint_min uint_spare)

theorem available_tasks_formula_witness:
  "uint (AvailableTasks 0 (store demo_granted 0)) = min 2 ((8 + 1 - 0) mod 2 ^ 64)"
  using available_tasks_formula[of "store demo_granted 0" 0]
  by (simp add: demo_granted_def) (simp add: demo_defs)

text \<open>
  Claim C36. An overloaded servant (load beyond its own tasks larger than its number of cores) is
  not reported as full: the subtraction wraps around, and with a realistic concurrency the servant
  is offered its full concurrency.
\<close>

theorem overloaded_servant_not_full:
  assumes "total_memory_in_bytes (servant_info v) = 0 \<or> m \<le> avail_memory_in_bytes (servant_info v)"
    and "uint (num_cpu_cores (servant_info v)) + uint (running_tasks v) < uint (current_load (servant_info v))"
    and "uint (concurrency (servant_info v)) + uint (current_load (servant_info v)) < 2 ^ 64"
  shows "AvailableTasks m v = concurrency (servant_info v)"
proof -
  let ?c = "uint (num_cpu_cores (servant_info v)) + uint (running_tasks v)
           - uint (current_load (servant_info v))"
  have "?c mod 2 ^ 64 = (?c + 2 ^ 64) mod 2 ^ 64" by (simp only: mod_add_self2)
  also have "\<dots> = ?c + 2 ^ 64"
    using assms(2,3) uint_ge_0[of "concurrency (servant_info v)"]
      uint_ge_0[of "num_cpu_cores (servant_info v)"] uint_ge_0[of "running_tasks v"]
    by (intro mod_pos_pos_trivial) linarith+
  finally have "uint (concurrency (servant_info v)) \<le> ?c mod 2 ^ 64"
    using assms(3) uint_ge_0[of "num_cpu_cores (servant_info v)"] uint_ge_0[of "running_tasks v"]
    by linarith
  then show ?thesis
    by (simp add: AvailableTasks_eq[OF assms(1)] min_def word_le_def uint_spare)
qed

theorem overloaded_servant_not_full_witness:
  "AvailableTasks 0 \<lparr>servant_info = demo_servant\<lparr>current_load := 40\<rparr>, discovered_tp = 0,
     servant_expires_tp = 0, running_tasks = 1, assigned_tasks = 1\<rparr> = 2"
  by (subst overloaded_servant_not_full) (simp_all add: demo_servant_def blank_servant_info_def)

text \<open>
  Releasing distinct ids of the table removes exactly those tasks and wakes the waiting
  requests; but the first unknown id ends the release: the ids after it keep their tasks, and
  nobody is woken even though tasks before it were released.
\<close>

theorem release_stops_at_unknown:
  assumes "distinct ids" and "set ids \<subseteq> fst ` set (tasks s)"
  shows "tasks (UnsafeFreeTask ids s) = filter (\<lambda>(k, _). k \<notin> set ids) (tasks s) \<and>
    alloc_cv (UnsafeFreeTask ids s) = Suc (alloc_cv s) \<and>
    (j \<notin> fst ` set (tasks s) \<longrightarrow>
       tasks (UnsafeFreeTask (ids @ j # rest) s) = filter (\<lambda>(k, _). k \<notin> set ids) (tasks s) \<and>
       alloc_cv (UnsafeFreeTask (ids @ j # rest) s) = alloc_cv s)"
  using UnsafeFreeTask_known[OF assms] UnsafeFreeTask_append_unknown[OF assms, of j rest] by simp

theorem release_stops_at_unknown_witness:
  "tasks (UnsafeFreeTask ([0] @ 5 # []) demo_granted) = [] \<and>
   alloc_cv (UnsafeFreeTask ([0] @ 5 # []) demo_granted) = alloc_cv demo_granted"
  using release_stops_at_unknown[of "[0]" demo_granted 5 "[]"] by (simp add: demo_granted_tasks)

text \<open>
  Claim C16. \<open>WaitForStartingNewTask\<close> always returns: whatever other threads do while it waits, if
  one of its waits ends at or after the deadline it has an answer, without a fault; the answer
  carries an allocation exactly when its status is OK, and the dispatcher's accounting is exact
  in the state it leaves.
\<close>

theorem wait_for_starting_returns:
  assumes "length ops + length (concat (map fst waits)) < 2 ^ 64 - 2"
    and "run_steps exec_op ops (dispatcher_init m) = Inr s"
    and "waits \<noteq> []" and "timeout \<le> snd (last waits)"
  shows "\<exists>r st s'. WaitForStartingNewTask ti e timeout pf now waits s = Inr (Returned r st s') \<and>
    (st = WaitStatus_OK \<longleftrightarrow> r \<noteq> None) \<and>
    (\<forall>p. unat (running_tasks (store s' p)) = length (filter (\<lambda>(i, t). task_servant t = p) (tasks s')))"
proof -
  have inv: "dispatcher_inv (length ops) s"
    using disp.run_invD[OF dispatcher_init_inv _ assms(2)] assms(1) by simp
  obtain r st s' where r: "WaitForStartingNewTask ti e timeout pf now waits s = Inr (Returned r st s')"
      "st = WaitStatus_OK \<longleftrightarrow> r \<noteq> None"
    and inv': "dispatcher_inv (Suc (length ops + length (concat (map fst waits)))) s'"
    using WaitForStartingNewTask_returns[OF inv _ assms(3,4), of ti e pf now] assms(1)
    by (auto simp: answer_ok_def)
  show ?thesis
    using r running_tasks_exact[OF inv'] assms(1)
    by (intro exI[of _ r] exI[of _ st] exI[of _ s']) (simp add: tasks_on_def)
qed

theorem wait_for_starting_returns_witness:
  "\<exists>r st s'. WaitForStartingNewTask demo_task (sec 15) 5 False 1 [([OpFreeTask 3], 2), ([], 7)] demo_state
     = Inr (Returned r st s') \<and> (st = WaitStatus_OK \<longleftrightarrow> r \<noteq> None)"
proof -
  have "length demo_ops + length (concat (map fst [([OpFreeTask 3], 2 :: time_point), ([], 7)])) < 2 ^ 64 - 2"
    by (simp add: demo_ops_def)
  from wait_for_starting_returns[OF this demo_run, of 5 demo_task "sec 15" False 1] show ?thesis
    by auto
qed

end
