(* ===== verification/SchedulerService.thy ===== *)
theory SchedulerService
  imports Dispatcher_Props Tokens
begin

text \<open>
  \<open>scheduler/scheduler_service_impl.{h,cpp}\<close>: the RPCs of the scheduler.

  The service's own state is a record; the dispatcher is the singleton \<open>TaskDispatcher\<close>. A
  handler that takes the dispatcher's mutex several times is interleaved with other threads: what
  they execute before each of its calls is an argument. \<open>RAND_bytes\<close> and \<open>inet_pton\<close> are
  parameters (the bytes, and whether the text is an address); the clock is an argument.
\<close>

section \<open>Definitions\<close>

datatype StatusCode =
    StatusOK
  | INVALID_ARGUMENT
  | NOT_FOUND
  | PERMISSION_DENIED
  | RESOURCE_EXHAUSTED
  | UNAVAILABLE
  | UNKNOWN

record SchedulerFlags =
  min_daemon_version :: u32
  token_rollout_interval_s :: int
  default_user_tokens :: string
  default_servant_tokens :: string

record SchedulerServiceImpl =
  user_token_verifier :: TokenVerifier
  servant_token_verifier :: TokenVerifier
  next_token_rollout :: time_point
  active_daemon_tokens :: "string list"

record HeartBeatRequest =
  hb_token :: string
  next_heart_beat_in_ms :: u32
  hb_version :: u32
  hb_location :: string
  hb_num_cpu_cores :: u32
  hb_current_load :: u32
  hb_priority :: ServantPriority
  hb_concurrency :: u32
  hb_total_memory_in_bytes :: u64
  hb_avail_memory_in_bytes :: u64
  hb_env_descs :: "EnviromentDesc list"
  hb_running_tasks :: "RunningTask list"

record HeartBeatResponse =
  hb_tokens :: "string list"
  expired_tasks :: "u64 list"

record WaitForStaringTaskRequest =
  ws_token :: string
  mills_to_wait :: u32
  ws_env_desc :: EnviromentDesc
  immeadiate_reqs :: u32
  prefetch_reqs :: u32
  ws_next_keep_alive_in_ms :: u32
  ws_min_version :: u32

subsection \<open>Tokens\<close>

definition NextDaemonToken :: "string \<Rightarrow> string" where
  "NextDaemonToken bytes = EncodeHex bytes False"

definition SchedulerServiceImpl_new ::
  "SchedulerFlags \<Rightarrow> string \<Rightarrow> string \<Rightarrow> string \<Rightarrow> time_point \<Rightarrow> SchedulerServiceImpl" where
  "SchedulerServiceImpl_new flags r1 r2 r3 now =
     \<lparr>user_token_verifier = MakeTokenVerifier (default_user_tokens flags),
      servant_token_verifier = MakeTokenVerifier (default_servant_tokens flags),
      next_token_rollout = now + sec (token_rollout_interval_s flags),
      active_daemon_tokens = [NextDaemonToken r1, NextDaemonToken r2, NextDaemonToken r3]\<rparr>"

definition ActiveDaemonTokens ::
  "SchedulerFlags \<Rightarrow> string \<Rightarrow> time_point \<Rightarrow> SchedulerServiceImpl \<Rightarrow> string list \<times> SchedulerServiceImpl" where
  "ActiveDaemonTokens flags bytes now sv =
     (let sv' = (if next_token_rollout sv < now
                 then sv\<lparr>next_token_rollout := now + sec (token_rollout_interval_s flags),
                         active_daemon_tokens := tl (active_daemon_tokens sv) @ [NextDaemonToken bytes]\<rparr>
                 else sv)
      in (active_daemon_tokens sv', sv'))"

subsection \<open>Addresses\<close>

text \<open>
  \<open>inet_pton\<close> stands for the call \<open>inet_pton(AF_INET, text, _) == 1\<close>; the text is cut at a
  null byte by \<open>c_str\<close>.
\<close>

definition TryParseIPv4 :: "(string \<Rightarrow> bool) \<Rightarrow> string \<Rightarrow> (string \<times> string) option" where
  "TryParseIPv4 inet_pton location =
     (case find_sub '':'' location of None \<Rightarrow> None
      | Some pos \<Rightarrow>
          (let ip = take pos location; port = drop (pos + 1) location
           in if \<not> inet_pton (c_str ip) then None
              else if \<not> list_all is_digit port then None
              else Some (ip, port)))"

definition TryParseGrpcIPv4 :: "(string \<Rightarrow> bool) \<Rightarrow> string \<Rightarrow> (string \<times> string) option" where
  "TryParseGrpcIPv4 inet_pton location =
     (if take 5 location \<noteq> ''ipv4:'' then None else TryParseIPv4 inet_pton (drop 5 location))"

subsection \<open>HeartBeat\<close>

text \<open>The checks of \<open>HeartBeat\<close> and the description it builds of the servant.\<close>

definition heartbeat_info ::
  "(string \<Rightarrow> bool) \<Rightarrow> SchedulerFlags \<Rightarrow> SchedulerServiceImpl \<Rightarrow> string \<Rightarrow> HeartBeatRequest
     \<Rightarrow> StatusCode + ServantInfo" where
  "heartbeat_info inet_pton flags sv peer request =
     (if \<not> Verify (user_token_verifier sv) (hb_token request)
         \<and> \<not> Verify (servant_token_verifier sv) (hb_token request) then Inl PERMISSION_DENIED
      else if hb_version request < min_daemon_version flags then Inl INVALID_ARGUMENT
      else if ms (uint (next_heart_beat_in_ms request)) > sec 15 then Inl PERMISSION_DENIED
      else case TryParseIPv4 inet_pton (hb_location request) of
        None \<Rightarrow> Inl INVALID_ARGUMENT
      | Some rep_addr \<Rightarrow>
          (case TryParseGrpcIPv4 inet_pton peer of
             None \<Rightarrow> Inl INVALID_ARGUMENT
           | Some obs_addr \<Rightarrow>
               (let observed_loc = fst obs_addr @ '':'' @ snd rep_addr;
                    cores = (if hb_num_cpu_cores request = 0 then ucast (hb_concurrency request)
                             else ucast (hb_num_cpu_cores request));
                    prio = (if hb_priority request = SERVANT_PRIORITY_UNKNOWN
                            then SERVANT_PRIORITY_USER else hb_priority request);
                    conc = (if observed_loc \<noteq> hb_location request
                               \<or> \<not> Verify (servant_token_verifier sv) (hb_token request)
                               \<or> next_heart_beat_in_ms request = 0
                            then 0 else ucast (hb_concurrency request))
                in Inr \<lparr>version = hb_version request, observed_location = observed_loc,
                        reported_location = hb_location request, num_cpu_cores = cores,
                        current_load = ucast (hb_current_load request),
                        total_memory_in_bytes = hb_total_memory_in_bytes request,
                        avail_memory_in_bytes = hb_avail_memory_in_bytes request,
                        concurrency = conc, priority = prio, env_decs = hb_env_descs request\<rparr>)))"

text \<open>
  The handler. \<open>ops\<close> are the operations of other threads between its two calls of the
  dispatcher; \<open>t1\<close> and \<open>t2\<close> are the clocks of the two calls that read it.
\<close>

definition HeartBeat ::
  "(string \<Rightarrow> bool) \<Rightarrow> SchedulerFlags \<Rightarrow> string \<Rightarrow> time_point \<Rightarrow> time_point \<Rightarrow> dispatcher_op list
     \<Rightarrow> string \<Rightarrow> HeartBeatRequest \<Rightarrow> SchedulerServiceImpl \<Rightarrow> TaskDispatcher
     \<Rightarrow> fault + (StatusCode \<times> HeartBeatResponse \<times> SchedulerServiceImpl \<times> TaskDispatcher)" where
  "HeartBeat inet_pton flags bytes t1 t2 ops peer request sv s =
     (case heartbeat_info inet_pton flags sv peer request of
        Inl code \<Rightarrow> Inr (code, \<lparr>hb_tokens = [], expired_tasks = []\<rparr>, sv, s)
      | Inr info \<Rightarrow>
          (let s1 = KeepServantAlive info (ms (uint (next_heart_beat_in_ms request))) t1 s;
               (tokens, sv') = ActiveDaemonTokens flags bytes t2 sv
           in bind_fault (run_steps exec_op ops s1) (\<lambda>s2.
              let (expired, s3) = NotifyServantRunningTasks (hb_location request) (hb_running_tasks request) s2
              in Inr (StatusOK, \<lparr>hb_tokens = tokens, expired_tasks = expired\<rparr>, sv', s3))))"

subsection \<open>GetConfig\<close>

definition GetConfig ::
  "SchedulerFlags \<Rightarrow> string \<Rightarrow> time_point \<Rightarrow> string \<Rightarrow> SchedulerServiceImpl
     \<Rightarrow> fault + (StatusCode \<times> string \<times> SchedulerServiceImpl)" where
  "GetConfig flags bytes now token sv =
     (if \<not> Verify (user_token_verifier sv) token then Inr (PERMISSION_DENIED, [], sv)
      else
        (let (tokens, sv') = ActiveDaemonTokens flags bytes now sv
         in if length tokens \<le> 1 then Inl OutOfRange else Inr (StatusOK, tokens ! 1, sv')))"

subsection \<open>WaitForStaringTask\<close>

text \<open>
  What happens around one call of the dispatcher: the operations of other threads before it, the
  clock when it starts, and its waits.
\<close>

record turn =
  turn_ops :: "dispatcher_op list"
  turn_now :: time_point
  turn_waits :: "(dispatcher_op list \<times> time_point) list"

datatype grants_result =
    GrantsBlocked TaskDispatcher
  | GrantsNoEnv TaskDispatcher
  | Grants "TaskAllocation list" TaskDispatcher

text \<open>
  The loop over \<open>immeadiate_reqs\<close> (\<open>prefetching\<close> false) and the one over \<open>prefetch_reqs\<close>
  (true): \<open>n\<close> iterations are left, \<open>i\<close> is the number of calls of the dispatcher made so far.
  Only the first call of the handler, or a prefetch with no grant yet, may wait.
\<close>

fun grant_loop ::
  "TaskInfo \<Rightarrow> int \<Rightarrow> time_point \<Rightarrow> int \<Rightarrow> (nat \<Rightarrow> turn) \<Rightarrow> bool \<Rightarrow> nat \<Rightarrow> nat \<Rightarrow> TaskAllocation list
     \<Rightarrow> TaskDispatcher \<Rightarrow> fault + grants_result" where
  "grant_loop ti keep_alive now max_wait turns prefetching 0 i grants s = Inr (Grants grants s)"
| "grant_loop ti keep_alive now max_wait turns prefetching (Suc n) i grants s =
     (let tn = turns i;
          timeout = now + (if (if prefetching then grants = [] else i = 0) then max_wait else 0)
      in bind_fault (run_steps exec_op (turn_ops tn) s) (\<lambda>s1.
         bind_fault (WaitForStartingNewTask ti keep_alive timeout prefetching (turn_now tn) (turn_waits tn) s1) (\<lambda>r.
         case r of
           Blocked s2 \<Rightarrow> Inr (GrantsBlocked s2)
         | Returned (Some a) st s2 \<Rightarrow>
             grant_loop ti keep_alive now max_wait turns prefetching n (Suc i) (grants @ [a]) s2
         | Returned None st s2 \<Rightarrow>
             if \<not> prefetching \<and> st = WaitStatus_EnvNotFound then Inr (GrantsNoEnv s2)
             else Inr (Grants grants s2))))"

datatype wait_rpc =
    RpcBlocked TaskDispatcher
  | RpcReturned StatusCode "TaskAllocation list" TaskDispatcher

definition WaitForStaringTask ::
  "time_point \<Rightarrow> (nat \<Rightarrow> turn) \<Rightarrow> (nat \<Rightarrow> turn) \<Rightarrow> string \<Rightarrow> WaitForStaringTaskRequest \<Rightarrow> SchedulerServiceImpl
     \<Rightarrow> TaskDispatcher \<Rightarrow> fault + wait_rpc" where
  "WaitForStaringTask now turns pturns peer request sv s =
     (if \<not> Verify (user_token_verifier sv) (ws_token request) then Inr (RpcReturned PERMISSION_DENIED [] s)
      else
        (let max_wait = ms (uint (mills_to_wait request));
             next_keep_alive = ms (uint (ws_next_keep_alive_in_ms request))
         in if max_wait > sec 15 \<or> next_keep_alive > sec 30 then Inr (RpcReturned PERMISSION_DENIED [] s)
            else
              (let ti = \<lparr>requester_ip = peer, min_version = ws_min_version request,
                         env_desc = ws_env_desc request\<rparr>
               in bind_fault (grant_loop ti next_keep_alive now max_wait turns False
                                (unat (immeadiate_reqs request)) 0 [] s) (\<lambda>r1.
                  case r1 of
                    GrantsBlocked s1 \<Rightarrow> Inr (RpcBlocked s1)
                  | GrantsNoEnv s1 \<Rightarrow> Inr (RpcReturned NOT_FOUND [] s1)
                  | Grants g1 s1 \<Rightarrow>
                      bind_fault (grant_loop ti next_keep_alive now max_wait pturns True
                                    (unat (prefetch_reqs request)) 0 g1 s1) (\<lambda>r2.
                      case r2 of
                        GrantsBlocked s2 \<Rightarrow> Inr (RpcBlocked s2)
                      | GrantsNoEnv s2 \<Rightarrow> Inr (RpcReturned NOT_FOUND [] s2)
                      | Grants g2 s2 \<Rightarrow>
                          if g2 = [] then Inr (RpcReturned RESOURCE_EXHAUSTED [] s2)
                          else Inr (RpcReturned StatusOK g2 s2))))))"

subsection \<open>KeepTaskAlive, FreeTask, GetRunningTasks\<close>

fun keep_alive_loop ::
  "int \<Rightarrow> (nat \<Rightarrow> dispatcher_op list \<times> time_point) \<Rightarrow> u64 list \<Rightarrow> nat \<Rightarrow> TaskDispatcher
     \<Rightarrow> fault + (bool list \<times> TaskDispatcher)" where
  "keep_alive_loop keep_alive turns [] i s = Inr ([], s)"
| "keep_alive_loop keep_alive turns (tid # ids) i s =
     bind_fault (run_steps exec_op (fst (turns i)) s) (\<lambda>s1.
       let (b, s2) = KeepTaskAlive tid keep_alive (snd (turns i)) s1
       in bind_fault (keep_alive_loop keep_alive turns ids (Suc i) s2) (\<lambda>(bs, s3). Inr (b # bs, s3)))"

definition Rpc_KeepTaskAlive ::
  "(nat \<Rightarrow> dispatcher_op list \<times> time_point) \<Rightarrow> string \<Rightarrow> u64 list \<Rightarrow> u32 \<Rightarrow> SchedulerServiceImpl
     \<Rightarrow> TaskDispatcher \<Rightarrow> fault + (StatusCode \<times> bool list \<times> TaskDispatcher)" where
  "Rpc_KeepTaskAlive turns token ids next_keep_alive_in_ms sv s =
     (if \<not> Verify (user_token_verifier sv) token then Inr (PERMISSION_DENIED, [], s)
      else if ms (uint next_keep_alive_in_ms) > sec 30 then Inr (INVALID_ARGUMENT, [], s)
      else bind_fault (keep_alive_loop (ms (uint next_keep_alive_in_ms)) turns ids 0 s) (\<lambda>(bs, s').
           Inr (StatusOK, bs, s')))"

fun free_loop ::
  "(nat \<Rightarrow> dispatcher_op list) \<Rightarrow> u64 list \<Rightarrow> nat \<Rightarrow> TaskDispatcher \<Rightarrow> fault + TaskDispatcher" where
  "free_loop turns [] i s = Inr s"
| "free_loop turns (tid # ids) i s =
     bind_fault (run_steps exec_op (turns i) s) (\<lambda>s1. free_loop turns ids (Suc i) (FreeTask tid s1))"

definition Rpc_FreeTask ::
  "(nat \<Rightarrow> dispatcher_op list) \<Rightarrow> string \<Rightarrow> u64 list \<Rightarrow> SchedulerServiceImpl \<Rightarrow> TaskDispatcher
     \<Rightarrow> fault + (StatusCode \<times> TaskDispatcher)" where
  "Rpc_FreeTask turns token ids sv s =
     (if \<not> Verify (user_token_verifier sv) token then Inr (PERMISSION_DENIED, s)
      else bind_fault (free_loop turns ids 0 s) (\<lambda>s'. Inr (StatusOK, s')))"

definition Rpc_GetRunningTasks :: "TaskDispatcher \<Rightarrow> StatusCode \<times> RunningTask list" where
  "Rpc_GetRunningTasks s = (StatusOK, DispatcherGetRunningTasks s)"

section \<open>Addresses\<close>

lemma find_sub_char_Some:
  "find_sub [c] s = Some n \<Longrightarrow> n < length s \<and> s = take n s @ c # drop (Suc n) s \<and> c \<notin> set (take n s)"
proof (induction s arbitrary: n)
  case (Cons x xs)
  show ?case
  proof (cases "x = c")
    case True
    with Cons.prems show ?thesis by (auto simp: StartWith_def)
  next
    case False
    with Cons.prems obtain m where "find_sub [c] xs = Some m" "n = Suc m" by auto
    with Cons.IH False show ?thesis by auto
  qed
qed simp

lemma TryParseIPv4_shape:
  assumes "TryParseIPv4 pton location = Some (ip, port)"
  shows "location = ip @ CHR '':'' # port \<and> CHR '':'' \<notin> set ip \<and> list_all is_digit port \<and> pton (c_str ip)"
proof -
  obtain n where n: "find_sub '':'' location = Some n"
    using assms by (auto simp: TryParseIPv4_def split: option.splits)
  then have "ip = take n location" "port = drop (Suc n) location" "pton (c_str ip)" "list_all is_digit port"
    using assms by (auto simp: TryParseIPv4_def Let_def split: if_splits)
  with find_sub_char_Some[OF n] show ?thesis by simp
qed

lemma digits_no_colon: "list_all is_digit port \<Longrightarrow> CHR '':'' \<notin> set port"
  by (auto simp: list_all_iff is_digit_def)

lemma TryParseGrpcIPv4_shape:
  assumes "TryParseGrpcIPv4 pton peer = Some (ip, port)"
  shows "peer = ''ipv4:'' @ ip @ CHR '':'' # port \<and> CHR '':'' \<notin> set ip \<and> list_all is_digit port"
proof -
  have t: "take 5 peer = ''ipv4:''" and p: "TryParseIPv4 pton (drop 5 peer) = Some (ip, port)"
    using assms by (auto simp: TryParseGrpcIPv4_def split: if_splits)
  have "peer = ''ipv4:'' @ drop 5 peer" using t append_take_drop_id[of 5 peer] by metis
  with TryParseIPv4_shape[OF p] show ?thesis by metis
qed

section \<open>The description of a servant\<close>

lemma heartbeat_info_shape:
  assumes "heartbeat_info pton flags sv peer request = Inr info"
  shows "\<exists>ip port ip' port'. TryParseIPv4 pton (hb_location request) = Some (ip, port) \<and>
    TryParseGrpcIPv4 pton peer = Some (ip', port') \<and>
    observed_location info = ip' @ CHR '':'' # port \<and>
    reported_location info = hb_location request \<and>
    env_decs info = hb_env_descs request \<and> version info = hb_version request \<and>
    concurrency info =
      (if ip' \<noteq> ip \<or> \<not> Verify (servant_token_verifier sv) (hb_token request) \<or> next_heart_beat_in_ms request = 0
       then 0 else ucast (hb_concurrency request))"
proof -
  obtain a b where ab: "TryParseIPv4 pton (hb_location request) = Some a" "TryParseGrpcIPv4 pton peer = Some b"
    using assms by (auto simp: heartbeat_info_def split: if_splits option.splits)
  have "hb_location request = fst a @ CHR '':'' # snd a"
    using TryParseIPv4_shape[of pton _ "fst a" "snd a"] ab by simp
  then have nat: "(fst b @ CHR '':'' # snd a = hb_location request) = (fst b = fst a)" by simp
  have "observed_location info = fst b @ CHR '':'' # snd a" "reported_location info = hb_location request"
    "env_decs info = hb_env_descs request" "version info = hb_version request"
    "concurrency info = (if fst b \<noteq> fst a \<or> \<not> Verify (servant_token_verifier sv) (hb_token request)
       \<or> next_heart_beat_in_ms request = 0 then 0 else ucast (hb_concurrency request))"
    using assms by (auto simp: heartbeat_info_def Let_def ab nat simp del: append_eq_conv_conj split: if_splits)
  with ab show ?thesis
    by (intro exI[of _ "fst a"] exI[of _ "snd a"] exI[of _ "fst b"] exI[of _ "snd b"]) simp
qed

section \<open>The token window\<close>

text \<open>Successive calls of \<open>ActiveDaemonTokens\<close>, with the fresh bytes and the clock of each.\<close>

fun token_calls ::
  "SchedulerFlags \<Rightarrow> (string \<times> time_point) list \<Rightarrow> SchedulerServiceImpl \<Rightarrow> SchedulerServiceImpl" where
  "token_calls flags [] sv = sv"
| "token_calls flags ((bytes, now) # cs) sv = token_calls flags cs (snd (ActiveDaemonTokens flags bytes now sv))"

lemma length_tokens [simp]:
  "active_daemon_tokens sv \<noteq> [] \<Longrightarrow>
     length (active_daemon_tokens (snd (ActiveDaemonTokens flags b now sv))) = length (active_daemon_tokens sv)"
  by (simp add: ActiveDaemonTokens_def Let_def)

lemma length_token_calls:
  "length (active_daemon_tokens sv) = 3 \<Longrightarrow> length (active_daemon_tokens (token_calls flags cs sv)) = 3"
proof (induction cs arbitrary: sv)
  case (Cons c cs)
  then have "active_daemon_tokens sv \<noteq> []" by auto
  with Cons show ?case by (cases c) simp
qed simp

text \<open>No rollout happens while the clock has not passed the next one.\<close>

lemma token_calls_quiet:
  "\<forall>(b, now) \<in> set cs. now \<le> next_token_rollout sv \<Longrightarrow> token_calls flags cs sv = sv"
  by (induction cs) (auto simp: ActiveDaemonTokens_def Let_def)

text \<open>Within one interval at most one rollout happens.\<close>

lemma token_calls_window:
  assumes "0 \<le> token_rollout_interval_s flags"
    and "\<forall>(b, now) \<in> set cs. t \<le> now \<and> now \<le> t + sec (token_rollout_interval_s flags)"
  shows "active_daemon_tokens (token_calls flags cs sv) = active_daemon_tokens sv \<or>
    (\<exists>b. active_daemon_tokens (token_calls flags cs sv) = tl (active_daemon_tokens sv) @ [NextDaemonToken b])"
  using assms(2)
proof (induction cs)
  case Nil
  then show ?case by simp
next
  case (Cons c cs)
  obtain b now where c: "c = (b, now)" by (cases c)
  let ?sv = "snd (ActiveDaemonTokens flags b now sv)"
  show ?case
  proof (cases "next_token_rollout sv < now")
    case True
    then have roll: "next_token_rollout ?sv = now + sec (token_rollout_interval_s flags)"
      "active_daemon_tokens ?sv = tl (active_daemon_tokens sv) @ [NextDaemonToken b]"
      by (simp_all add: ActiveDaemonTokens_def)
    have "token_calls flags cs ?sv = ?sv"
      using Cons.prems c roll by (intro token_calls_quiet) auto
    with roll c show ?thesis by auto
  next
    case False
    then have "?sv = sv" by (simp add: ActiveDaemonTokens_def)
    with Cons c show ?thesis by auto
  qed
qed

section \<open>Several grants of one request\<close>

definition turn_cost :: "turn \<Rightarrow> nat" where
  "turn_cost tn = Suc (length (turn_ops tn) + length (concat (map fst (turn_waits tn))))"

text \<open>The waits of a call last until the deadline.\<close>

definition turn_ends :: "time_point \<Rightarrow> turn \<Rightarrow> bool" where
  "turn_ends deadline tn \<longleftrightarrow> turn_waits tn \<noteq> [] \<and> deadline \<le> snd (last (turn_waits tn))"

definition turns_cost :: "(nat \<Rightarrow> turn) \<Rightarrow> nat \<Rightarrow> nat \<Rightarrow> nat" where
  "turns_cost turns i n = sum_list (map (\<lambda>j. turn_cost (turns j)) [i..<i + n])"

lemma turns_cost_simps [simp]:
  "turns_cost turns i 0 = 0"
  "turns_cost turns i (Suc n) = turn_cost (turns i) + turns_cost turns (Suc i) n"
  by (simp_all add: turns_cost_def upt_conv_Cons del: upt_Suc)

definition grants_ok :: "nat \<Rightarrow> nat \<Rightarrow> TaskAllocation list \<Rightarrow> TaskDispatcher \<Rightarrow> bool" where
  "grants_ok k n grants s \<longleftrightarrow>
     dispatcher_inv k s \<and> length grants \<le> n \<and> distinct (map alloc_task_id grants) \<and>
     (\<forall>a \<in> set grants. unat (alloc_task_id a) < unat (next_task_id s))"

lemma grants_ok_run:
  assumes "grants_ok k n grants s" and "k + length ops \<le> 2 ^ 64 - 1"
  shows "\<exists>t. run_steps exec_op ops s = Inr t \<and> grants_ok (k + length ops) n grants t"
proof -
  have inv: "dispatcher_inv k s" using assms(1) by (simp add: grants_ok_def)
  obtain t where t: "run_steps exec_op ops s = Inr t" "dispatcher_inv (k + length ops) t"
    using disp.run_inv[OF inv assms(2)] by auto
  then show ?thesis
    using assms(1) next_task_id_run[OF inv assms(2) t(1)] by (fastforce simp: grants_ok_def)
qed

lemma grants_ok_add:
  assumes "grants_ok k n grants s" and "answer_ok (unat (next_task_id s)) k' (Some a) st s'"
  shows "grants_ok k' (Suc n) (grants @ [a]) s'"
  using assms by (fastforce simp: grants_ok_def answer_ok_def)

lemma grants_ok_keep:
  assumes "grants_ok k n grants s" and "answer_ok (unat (next_task_id s)) k' None st s'"
  shows "grants_ok k' n grants s'"
  using assms by (fastforce simp: grants_ok_def answer_ok_def)

lemma grants_ok_mono: "grants_ok k n grants s \<Longrightarrow> k \<le> k' \<Longrightarrow> n \<le> n' \<Longrightarrow> grants_ok k' n' grants s"
  by (auto simp: grants_ok_def intro: dispatcher_inv_mono)

definition result_ok :: "bool \<Rightarrow> nat \<Rightarrow> nat \<Rightarrow> grants_result \<Rightarrow> bool" where
  "result_ok pf k n r \<longleftrightarrow>
     (case r of GrantsBlocked _ \<Rightarrow> False | GrantsNoEnv s \<Rightarrow> \<not> pf \<and> dispatcher_inv k s
      | Grants g s \<Rightarrow> grants_ok k n g s)"

lemma grant_loop_ok:
  assumes "0 \<le> max_wait"
  shows "grants_ok k m grants s \<Longrightarrow> k + turns_cost turns i n < 2 ^ 64 - 1 \<Longrightarrow>
    \<forall>j < n. turn_ends (now + max_wait) (turns (i + j)) \<Longrightarrow>
    \<exists>r. grant_loop ti ka now max_wait turns pf n i grants s = Inr r \<and>
      result_ok pf (k + turns_cost turns i n) (m + n) r"
proof (induction n arbitrary: k m grants s i)
  case 0
  then show ?case by (simp add: result_ok_def)
next
  case (Suc n)
  let ?tn = "turns i"
  define timeout where
    "timeout = now + (if (if pf then grants = [] else i = 0) then max_wait else 0)"
  have "k + length (turn_ops ?tn) \<le> 2 ^ 64 - 1" using Suc.prems(2) by (simp add: turn_cost_def)
  then obtain t where t: "run_steps exec_op (turn_ops ?tn) s = Inr t"
      "grants_ok (k + length (turn_ops ?tn)) m grants t"
    using grants_ok_run[OF Suc.prems(1)] by blast
  have ends: "turn_waits ?tn \<noteq> []" "timeout \<le> snd (last (turn_waits ?tn))"
    using Suc.prems(3) assms by (auto simp: turn_ends_def timeout_def dest: spec[of _ 0])
  obtain r st u where u: "WaitForStartingNewTask ti ka timeout pf (turn_now ?tn) (turn_waits ?tn) t = Inr (Returned r st u)"
      "answer_ok (unat (next_task_id t)) (k + turn_cost ?tn) r st u"
    using WaitForStartingNewTask_returns[OF _ _ ends, of "k + length (turn_ops ?tn)" t ti ka pf "turn_now ?tn"]
      t(2) Suc.prems(2) by (auto simp: grants_ok_def turn_cost_def add.assoc)
  note unfold = grant_loop.simps(2) Let_def timeout_def[symmetric] t(1) u(1) bind_fault_simps
  show ?case
  proof (cases r)
    case (Some a)
    have "\<forall>j < n. turn_ends (now + max_wait) (turns (Suc i + j))"
      using Suc.prems(3) by (metis Suc_less_eq add_Suc_shift)
    moreover have "grants_ok (k + turn_cost ?tn) (Suc m) (grants @ [a]) u"
      using grants_ok_add[OF t(2)] u(2) Some by blast
    ultimately have "\<exists>r. grant_loop ti ka now max_wait turns pf n (Suc i) (grants @ [a]) u = Inr r \<and>
        result_ok pf (k + turn_cost ?tn + turns_cost turns (Suc i) n) (Suc m + n) r"
      using Suc.prems(2) by (intro Suc.IH) simp_all
    then show ?thesis
      unfolding unfold Some by (simp add: add.assoc)
  next
    case None
    have "grants_ok (k + turn_cost ?tn) m grants u"
      using grants_ok_keep[OF t(2)] u(2) None by blast
    then have "grants_ok (k + turns_cost turns i (Suc n)) (m + Suc n) grants u"
      by (rule grants_ok_mono) simp_all
    moreover from this have "dispatcher_inv (k + turns_cost turns i (Suc n)) u"
      by (simp add: grants_ok_def)
    ultimately show ?thesis
      unfolding unfold None by (simp add: result_ok_def)
  qed
qed

text \<open>The handler after its checks.\<close>

definition ws_accepted :: "SchedulerServiceImpl \<Rightarrow> WaitForStaringTaskRequest \<Rightarrow> bool" where
  "ws_accepted sv req \<longleftrightarrow> Verify (user_token_verifier sv) (ws_token req) \<and>
     ms (uint (mills_to_wait req)) \<le> sec 15 \<and> ms (uint (ws_next_keep_alive_in_ms req)) \<le> sec 30"

definition ws_task :: "string \<Rightarrow> WaitForStaringTaskRequest \<Rightarrow> TaskInfo" where
  "ws_task peer req = \<lparr>requester_ip = peer, min_version = ws_min_version req, env_desc = ws_env_desc req\<rparr>"

abbreviation ws_loop ::
  "time_point \<Rightarrow> (nat \<Rightarrow> turn) \<Rightarrow> string \<Rightarrow> WaitForStaringTaskRequest \<Rightarrow> bool \<Rightarrow> TaskAllocation list \<Rightarrow> TaskDispatcher
     \<Rightarrow> fault + grants_result" where
  "ws_loop now turns peer req pf grants s \<equiv>
     grant_loop (ws_task peer req) (ms (uint (ws_next_keep_alive_in_ms req))) now (ms (uint (mills_to_wait req)))
       turns pf (unat (if pf then prefetch_reqs req else immeadiate_reqs req)) 0 grants s"

lemma WaitForStaringTask_refused:
  "\<not> ws_accepted sv req \<Longrightarrow> WaitForStaringTask now turns pturns peer req sv s = Inr (RpcReturned PERMISSION_DENIED [] s)"
  by (auto simp: WaitForStaringTask_def Let_def ws_accepted_def)

lemma WaitForStaringTask_no_env:
  "ws_accepted sv req \<Longrightarrow> ws_loop now turns peer req False [] s = Inr (GrantsNoEnv s1) \<Longrightarrow>
     WaitForStaringTask now turns pturns peer req sv s = Inr (RpcReturned NOT_FOUND [] s1)"
  by (simp add: WaitForStaringTask_def Let_def ws_accepted_def ws_task_def not_less)

lemma WaitForStaringTask_blocked:
  "ws_accepted sv req \<Longrightarrow> ws_loop now turns peer req False [] s = Inr (GrantsBlocked s1) \<Longrightarrow>
     WaitForStaringTask now turns pturns peer req sv s = Inr (RpcBlocked s1)"
  by (simp add: WaitForStaringTask_def Let_def ws_accepted_def ws_task_def not_less)

lemma WaitForStaringTask_prefetch:
  "ws_accepted sv req \<Longrightarrow> ws_loop now turns peer req False [] s = Inr (Grants g1 s1) \<Longrightarrow>
     WaitForStaringTask now turns pturns peer req sv s =
       bind_fault (ws_loop now pturns peer req True g1 s1) (\<lambda>r2.
         case r2 of GrantsBlocked s2 \<Rightarrow> Inr (RpcBlocked s2)
         | GrantsNoEnv s2 \<Rightarrow> Inr (RpcReturned NOT_FOUND [] s2)
         | Grants g2 s2 \<Rightarrow> if g2 = [] then Inr (RpcReturned RESOURCE_EXHAUSTED [] s2)
                           else Inr (RpcReturned StatusOK g2 s2))"
  by (simp add: WaitForStaringTask_def Let_def ws_accepted_def ws_task_def not_less)

lemma ws_loop_ok:
  assumes "grants_ok k m g s" and "k + turns_cost turns 0 (unat (if pf then prefetch_reqs req else immeadiate_reqs req)) < 2 ^ 64 - 1"
    and "\<forall>j < unat (if pf then prefetch_reqs req else immeadiate_reqs req).
      turn_ends (now + ms (uint (mills_to_wait req))) (turns j)"
  shows "\<exists>r. ws_loop now turns peer req pf g s = Inr r \<and>
    result_ok pf (k + turns_cost turns 0 (unat (if pf then prefetch_reqs req else immeadiate_reqs req)))
      (m + unat (if pf then prefetch_reqs req else immeadiate_reqs req)) r"
  by (rule grant_loop_ok[OF _ assms(1,2)]) (use assms(3) in simp_all)

lemma WaitForStaringTask_ok:
  fixes k and req and turns and pturns
  defines "k1 \<equiv> k + turns_cost turns 0 (unat (immeadiate_reqs req))"
  defines "k2 \<equiv> k1 + turns_cost pturns 0 (unat (prefetch_reqs req))"
  assumes start: "grants_ok k 0 [] s" and lim: "k2 < 2 ^ 64 - 1"
    and ends: "\<forall>j < unat (immeadiate_reqs req). turn_ends (now + ms (uint (mills_to_wait req))) (turns j)"
      "\<forall>j < unat (prefetch_reqs req). turn_ends (now + ms (uint (mills_to_wait req))) (pturns j)"
  shows "\<exists>code g s'. WaitForStaringTask now turns pturns peer req sv s = Inr (RpcReturned code g s') \<and>
    (code = StatusOK \<longleftrightarrow> g \<noteq> []) \<and>
    grants_ok k2 (unat (immeadiate_reqs req) + unat (prefetch_reqs req)) g s'"
proof (cases "ws_accepted sv req")
  case False
  have "grants_ok k2 (unat (immeadiate_reqs req) + unat (prefetch_reqs req)) [] s"
    using grants_ok_mono[OF start] by (simp add: k1_def k2_def)
  with False show ?thesis by (auto simp: WaitForStaringTask_refused)
next
  case True
  obtain r1 where r1: "ws_loop now turns peer req False [] s = Inr r1"
      "result_ok False k1 (unat (immeadiate_reqs req)) r1"
    using ws_loop_ok[OF start, of turns False req now peer] lim ends(1) by (auto simp: k1_def k2_def)
  show ?thesis
  proof (cases r1)
    case (GrantsNoEnv s1)
    then have "grants_ok k2 (unat (immeadiate_reqs req) + unat (prefetch_reqs req)) [] s1"
      using r1(2) by (auto simp: result_ok_def grants_ok_def k2_def intro: dispatcher_inv_mono)
    with GrantsNoEnv r1(1) show ?thesis using WaitForStaringTask_no_env[OF True] by fastforce
  next
    case (Grants g1 s1)
    with r1(2) have "grants_ok k1 (unat (immeadiate_reqs req)) g1 s1" by (simp add: result_ok_def)
    from ws_loop_ok[OF this, of pturns True req now peer] lim ends(2)
    obtain r2 where r2: "ws_loop now pturns peer req True g1 s1 = Inr r2"
        "result_ok True k2 (unat (immeadiate_reqs req) + unat (prefetch_reqs req)) r2"
      by (auto simp: k2_def)
    then obtain g2 s2 where "r2 = Grants g2 s2"
        "grants_ok k2 (unat (immeadiate_reqs req) + unat (prefetch_reqs req)) g2 s2"
      by (cases r2) (auto simp: result_ok_def)
    then show ?thesis
      using WaitForStaringTask_prefetch[OF True, of peer now turns s g1 s1 pturns] r1(1) r2(1) Grants by auto
  qed (use r1(2) in \<open>simp add: result_ok_def\<close>)
qed

section \<open>Handlers as sequences of dispatcher operations\<close>

text \<open>\<open>s'\<close> is reached from \<open>s\<close> by atomic operations of the dispatcher.\<close>

definition op_reachable :: "TaskDispatcher \<Rightarrow> TaskDispatcher \<Rightarrow> bool" where
  "op_reachable s s' \<longleftrightarrow> (\<exists>xs. run_steps exec_op xs s = Inr s')"

lemma op_reachable_refl [simp, intro]: "op_reachable s s"
  unfolding op_reachable_def by (rule exI[of _ "[]"]) simp

lemma op_reachable_trans: "op_reachable s t \<Longrightarrow> op_reachable t u \<Longrightarrow> op_reachable s u"
  unfolding op_reachable_def by (metis bind_fault_simps(2) run_steps_append)

lemma op_reachable_run: "run_steps exec_op xs s = Inr t \<Longrightarrow> op_reachable s t"
  unfolding op_reachable_def by blast

lemma op_reachable_step: "exec_op x s = Inr t \<Longrightarrow> op_reachable s t"
  unfolding op_reachable_def by (rule exI[of _ "[x]"]) simp

lemma op_reachable_keep: "op_reachable s (snd (KeepTaskAlive i e now s))"
  by (rule op_reachable_step[of "OpKeepTaskAlive i e now"]) simp

lemma op_reachable_free: "op_reachable s (FreeTask i s)"
  by (rule op_reachable_step[of "OpFreeTask i"]) simp

lemma op_reachable_servant: "op_reachable s (KeepServantAlive info e now s)"
  by (rule op_reachable_step[of "OpKeepServantAlive info e now"]) simp

lemma op_reachable_notify: "op_reachable s (snd (NotifyServantRunningTasks l rs s))"
  by (rule op_reachable_step[of "OpNotify l rs"]) simp

fun result_state :: "wait_result \<Rightarrow> TaskDispatcher" where
  "result_state (Blocked s) = s"
| "result_state (Returned r st s) = s"

fun grants_state :: "grants_result \<Rightarrow> TaskDispatcher" where
  "grants_state (GrantsBlocked s) = s"
| "grants_state (GrantsNoEnv s) = s"
| "grants_state (Grants g s) = s"

fun rpc_state :: "wait_rpc \<Rightarrow> TaskDispatcher" where
  "rpc_state (RpcBlocked s) = s"
| "rpc_state (RpcReturned c g s) = s"

lemma WaitForStartingNewTask_reachable:
  "WaitForStartingNewTask ti e timeout pf now waits s = Inr r \<Longrightarrow> op_reachable s (result_state r)"
proof (induction waits arbitrary: s now)
  case Nil
  show ?case
    using Nil by (cases rule: try_start_cases[of ti e pf now s])
      (auto simp: WaitForStartingNewTask.simps intro: op_reachable_step[of "OpStart ti e pf now"])
next
  case (Cons w waits)
  obtain ops now' where w: "w = (ops, now')" by (cases w)
  show ?case
  proof (cases rule: try_start_cases[of ti e pf now s])
    case busy
    with Cons.prems w obtain t where t: "run_steps exec_op ops s = Inr t"
      and r: "(if timeout \<le> now' then Inr (Returned None WaitStatus_Timeout t)
        else WaitForStartingNewTask ti e timeout pf now' waits t) = Inr r"
      by (auto simp: WaitForStartingNewTask.simps[of _ _ _ _ now])
    have "op_reachable t (result_state r)"
      using r Cons.IH[of now' t] by (auto split: if_splits)
    with op_reachable_run[OF t] show ?thesis by (rule op_reachable_trans)
  qed (use Cons.prems in \<open>auto simp: WaitForStartingNewTask.simps intro: op_reachable_step[of "OpStart ti e pf now"]\<close>)
qed

lemma grant_loop_reachable:
  "grant_loop ti ka now mw turns pf n i grants s = Inr r \<Longrightarrow> op_reachable s (grants_state r)"
proof (induction n arbitrary: i grants s)
  case 0
  then show ?case by auto
next
  case (Suc n)
  from Suc.prems obtain t u where t: "run_steps exec_op (turn_ops (turns i)) s = Inr t"
    and u: "WaitForStartingNewTask ti ka (now + (if (if pf then grants = [] else i = 0) then mw else 0)) pf
        (turn_now (turns i)) (turn_waits (turns i)) t = Inr u"
    and r: "(case u of Blocked s2 \<Rightarrow> Inr (GrantsBlocked s2)
        | Returned (Some a) st s2 \<Rightarrow> grant_loop ti ka now mw turns pf n (Suc i) (grants @ [a]) s2
        | Returned None st s2 \<Rightarrow> if \<not> pf \<and> st = WaitStatus_EnvNotFound then Inr (GrantsNoEnv s2)
            else Inr (Grants grants s2)) = Inr r"
    by (auto simp: Let_def simp del: if_split_eq1)
  have "op_reachable (result_state u) (grants_state r)"
    using r Suc.IH by (auto split: wait_result.splits option.splits if_splits)
  with op_reachable_run[OF t] WaitForStartingNewTask_reachable[OF u] show ?case
    by (blast intro: op_reachable_trans)
qed

lemma keep_alive_loop_reachable:
  "keep_alive_loop ka turns ids i s = Inr (bs, s') \<Longrightarrow> op_reachable s s' \<and> length bs = length ids"
proof (induction ids arbitrary: i s bs)
  case (Cons x ids)
  then obtain t bs' where t: "run_steps exec_op (fst (turns i)) s = Inr t"
    and u: "keep_alive_loop ka turns ids (Suc i) (snd (KeepTaskAlive x ka (snd (turns i)) t)) = Inr (bs', s')"
    and bs: "bs = fst (KeepTaskAlive x ka (snd (turns i)) t) # bs'"
    by (auto simp: case_prod_unfold Let_def)
  with Cons.IH[OF u] op_reachable_run[OF t] op_reachable_keep[of t x ka "snd (turns i)"] show ?case
    by (auto intro: op_reachable_trans)
qed auto

lemma free_loop_reachable: "free_loop turns ids i s = Inr s' \<Longrightarrow> op_reachable s s'"
proof (induction ids arbitrary: i s)
  case (Cons x ids)
  then obtain t where t: "run_steps exec_op (turns i) s = Inr t"
    and u: "free_loop turns ids (Suc i) (FreeTask x t) = Inr s'"
    by auto
  with Cons.IH[OF u] op_reachable_run[OF t] op_reachable_free[of t x] show ?case
    by (blast intro: op_reachable_trans)
qed auto

lemma WaitForStaringTask_reachable:
  assumes "WaitForStaringTask now turns pturns peer req sv s = Inr r"
  shows "op_reachable s (rpc_state r)"
proof (cases "ws_accepted sv req")
  case False
  with assms show ?thesis by (auto simp: WaitForStaringTask_refused)
next
  case True
  with assms obtain r1 where r1: "ws_loop now turns peer req False [] s = Inr r1"
    by (auto simp: WaitForStaringTask_def Let_def ws_accepted_def ws_task_def not_less)
  note r1' = grant_loop_reachable[OF r1]
  show ?thesis
  proof (cases r1)
    case (Grants g1 s1)
    note eq = WaitForStaringTask_prefetch[OF True, of peer now turns s g1 s1 pturns]
    obtain r2 where r2: "ws_loop now pturns peer req True g1 s1 = Inr r2"
      and "rpc_state r = grants_state r2"
      using eq[unfolded assms] r1 Grants
      by (cases "ws_loop now pturns peer req True g1 s1") (auto split: grants_result.splits if_splits)
    with grant_loop_reachable[OF r2] r1' Grants show ?thesis by (auto intro: op_reachable_trans)
  qed (use assms r1 r1' WaitForStaringTask_no_env[OF True] WaitForStaringTask_blocked[OF True] in auto)
qed

lemma HeartBeat_reachable:
  "HeartBeat pton flags bytes t1 t2 ops peer req sv s = Inr (code, resp, sv', s') \<Longrightarrow> op_reachable s s'"
  by (auto simp: HeartBeat_def Let_def case_prod_unfold split: sum.splits dest!: op_reachable_run)
     (blast intro: op_reachable_trans op_reachable_servant op_reachable_notify)

lemma GetConfig_tokens:
  assumes "GetConfig flags bytes t token sv = Inr (StatusOK, tok, sv')"
  shows "sv' = snd (ActiveDaemonTokens flags bytes t sv) \<and> tok = active_daemon_tokens sv' ! 1"
  using assms by (auto simp: GetConfig_def ActiveDaemonTokens_def Let_def split: if_splits)

lemma config_token_active:
  assumes "length (active_daemon_tokens sv) = 3" and "0 \<le> token_rollout_interval_s flags"
    and "GetConfig flags bytes t token sv = Inr (StatusOK, tok, sv')"
    and "\<forall>(b, now) \<in> set calls. t \<le> now \<and> now \<le> t + sec (token_rollout_interval_s flags)"
  shows "tok \<in> set (active_daemon_tokens (token_calls flags calls sv'))"
proof -
  note sv' = GetConfig_tokens[OF assms(3), THEN conjunct1] and tok = GetConfig_tokens[OF assms(3), THEN conjunct2]
  have "active_daemon_tokens sv \<noteq> []" using assms(1) by auto
  then have "length (active_daemon_tokens sv') = 3" using assms(1) sv' by simp
  then obtain a b c where abc: "active_daemon_tokens sv' = [a, b, c]"
    by (auto simp: length_Suc_conv numeral_3_eq_3)
  with token_calls_window[OF assms(2,4), of sv'] tok show ?thesis by auto
qed

section \<open>Properties\<close>


definition demo_flags :: SchedulerFlags where
  "demo_flags = \<lparr>min_daemon_version = 0, token_rollout_interval_s = 3000,
     default_user_tokens = ''user'', default_servant_tokens = ''servant''\<rparr>"

definition demo_service :: SchedulerServiceImpl where
  "demo_service = \<lparr>user_token_verifier = \<lparr>recognized_tokens = [''user'']\<rparr>,
     servant_token_verifier = \<lparr>recognized_tokens = [''servant'']\<rparr>, next_token_rollout = sec 3000,
     active_daemon_tokens = [''t0'', ''t1'', ''t2'']\<rparr>"


text \<open>
  \<open>WaitForStaringTask\<close> on a scheduler that has executed any operations always answers,
  if the waits of its calls last until its deadline. It answers OK exactly when it has grants;
  there are at most as many as were asked for, their ids are pairwise different, and the counters
  of the dispatcher are exact in the state it leaves.
\<close>

theorem wait_for_staring_task_outcome:
  assumes "run_steps exec_op ops (dispatcher_init m) = Inr s"
    and "length ops + turns_cost turns 0 (unat (immeadiate_reqs req))
           + turns_cost pturns 0 (unat (prefetch_reqs req)) < 2 ^ 64 - 1"
    and "\<forall>j < unat (immeadiate_reqs req). turn_ends (now + ms (uint (mills_to_wait req))) (turns j)"
    and "\<forall>j < unat (prefetch_reqs req). turn_ends (now + ms (uint (mills_to_wait req))) (pturns j)"
  shows "\<exists>code grants s'. WaitForStaringTask now turns pturns peer req sv s = Inr (RpcReturned code grants s') \<and>
    (code = StatusOK \<longleftrightarrow> grants \<noteq> []) \<and>
    length grants \<le> unat (immeadiate_reqs req) + unat (prefetch_reqs req) \<and>
    distinct (map alloc_task_id grants) \<and>
    (\<forall>p. unat (running_tasks (store s' p)) = length (filter (\<lambda>(i, t). task_servant t = p) (tasks s')))"
proof -
  have inv: "dispatcher_inv (length ops) s"
    using disp.run_invD[OF dispatcher_init_inv _ assms(1)] assms(2) by simp
  then have "grants_ok (length ops) 0 [] s" by (simp add: grants_ok_def)
  from WaitForStaringTask_ok[OF this assms(2-4)] obtain code grants s' where
    r: "WaitForStaringTask now turns pturns peer req sv s = Inr (RpcReturned code grants s')"
      "code = StatusOK \<longleftrightarrow> grants \<noteq> []"
    and ok: "grants_ok (length ops + turns_cost turns 0 (unat (immeadiate_reqs req))
           + turns_cost pturns 0 (unat (prefetch_reqs req)))
        (unat (immeadiate_reqs req) + unat (prefetch_reqs req)) grants s'"
    by blast
  then have "\<forall>p. unat (running_tasks (store s' p)) = length (filter (\<lambda>(i, t). task_servant t = p) (tasks s'))"
    using running_tasks_exact[of _ s'] assms(2) by (force simp: grants_ok_def tasks_on_def)
  with r ok show ?thesis by (auto simp: grants_ok_def)
qed

definition demo_wait :: WaitForStaringTaskRequest where
  "demo_wait = \<lparr>ws_token = ''user'', mills_to_wait = 5000, ws_env_desc = \<lparr>compiler_digest = ''gcc''\<rparr>,
     immeadiate_reqs = 1, prefetch_reqs = 0, ws_next_keep_alive_in_ms = 15000, ws_min_version = 1\<rparr>"

definition demo_turn :: turn where
  "demo_turn = \<lparr>turn_ops = [OpTimer 1], turn_now = 2, turn_waits = [([], sec 6)]\<rparr>"

theorem wait_for_staring_task_outcome_witness:
  "\<exists>code grants s'. WaitForStaringTask 0 (\<lambda>_. demo_turn) (\<lambda>_. demo_turn) ''ipv4:10.0.0.3:4000'' demo_wait
      demo_service demo_state = Inr (RpcReturned code grants s') \<and>
    (code = StatusOK \<longleftrightarrow> grants \<noteq> []) \<and> length grants \<le> 1"
proof -
  have "length demo_ops + turns_cost (\<lambda>_. demo_turn) 0 (unat (immeadiate_reqs demo_wait))
      + turns_cost (\<lambda>_. demo_turn) 0 (unat (prefetch_reqs demo_wait)) < 2 ^ 64 - 1"
    by (simp add: demo_wait_def demo_ops_def turns_cost_def turn_cost_def demo_turn_def)
  moreover have "turn_ends (0 + ms (uint (mills_to_wait demo_wait))) demo_turn"
    by (simp add: turn_ends_def demo_turn_def demo_wait_def ms_def sec_def)
  ultimately show ?thesis
    using wait_for_staring_task_outcome[OF demo_run, of "\<lambda>_. demo_turn" demo_wait "\<lambda>_. demo_turn" 0
        "''ipv4:10.0.0.3:4000''" demo_service]
    by (auto simp: demo_wait_def)
qed

text \<open>
  The daemon token that \<open>GetConfig\<close> hands out stays among the three active tokens for at
  least one whole rotation interval: whatever calls follow within the interval, every answer of
  \<open>ActiveDaemonTokens\<close> still contains it, and there are always three.
\<close>

theorem daemon_token_window:
  assumes "length (active_daemon_tokens sv) = 3" and "0 \<le> token_rollout_interval_s flags"
    and "GetConfig flags bytes t token sv = Inr (StatusOK, tok, sv')"
    and "\<forall>(b, now) \<in> set calls. t \<le> now \<and> now \<le> t + sec (token_rollout_interval_s flags)"
  shows "tok \<in> set (active_daemon_tokens (token_calls flags calls sv')) \<and>
    length (active_daemon_tokens (token_calls flags calls sv')) = 3"
proof -
  have "active_daemon_tokens sv \<noteq> []" using assms(1) by auto
  then have "length (active_daemon_tokens sv') = 3" using GetConfig_tokens[OF assms(3)] assms(1) by simp
  with config_token_active[OF assms] show ?thesis by (simp add: length_token_calls)
qed

theorem daemon_token_window_witness:
  "''t1'' \<in> set (active_daemon_tokens (token_calls demo_flags [(''x'', sec 3001)] demo_service))"
proof -
  have "GetConfig demo_flags ''r'' (sec 1000) ''user'' demo_service = Inr (StatusOK, ''t1'', demo_service)"
    by (simp add: GetConfig_def ActiveDaemonTokens_def demo_service_def Verify_def sec_def)
  then show ?thesis
    using daemon_token_window[of demo_service demo_flags "''r''" "sec 1000" "''user''" "''t1''" demo_service
        "[(''x'', sec 3001)]"]
    by (simp add: demo_service_def demo_flags_def sec_def)
qed

text \<open>
  Claim C32. A heartbeat that presents no servant token, comes from another address than the one it
  reports, or announces its departure, never makes the node eligible for work: directly after it
  no servant registered under the observed address is offered for any request.
\<close>

theorem untrusted_node_gets_no_work:
  assumes "heartbeat_info pton flags sv peer req = Inr info"
    and "\<not> Verify (servant_token_verifier sv) (hb_token req) \<or> observed_location info \<noteq> hb_location req
         \<or> next_heart_beat_in_ms req = 0"
    and "length ops < 2 ^ 64" and "run_steps exec_op ops (dispatcher_init m) = Inr s"
    and "p \<in> set (UnsafeGetServantsHasEnv ti (KeepServantAlive info e now s))"
  shows "observed_location (servant_info (store (KeepServantAlive info e now s) p)) \<noteq> observed_location info"
proof
  let ?s = "KeepServantAlive info e now s"
  assume same: "observed_location (servant_info (store ?s p)) = observed_location info"
  obtain ip port ip' port' where "TryParseIPv4 pton (hb_location req) = Some (ip, port)"
    and obs: "observed_location info = ip' @ CHR '':'' # port"
    and conc: "concurrency info = (if ip' \<noteq> ip \<or> \<not> Verify (servant_token_verifier sv) (hb_token req)
        \<or> next_heart_beat_in_ms req = 0 then 0 else ucast (hb_concurrency req))"
    using heartbeat_info_shape[OF assms(1)] by blast
  then have "observed_location info \<noteq> hb_location req \<longleftrightarrow> ip' \<noteq> ip"
    using TryParseIPv4_shape[of pton "hb_location req" ip port] by simp
  then have zero: "concurrency info = 0" using assms(2) conc by auto
  have p: "p \<in> set (servants ?s)" "concurrency (servant_info (store ?s p)) \<noteq> 0"
    using assms(5) by (auto simp: UnsafeGetServantsHasEnv_def)
  have inv: "dispatcher_inv (length ops) s"
    using disp.run_invD[OF dispatcher_init_inv _ assms(4)] assms(3) by simp
  have "inj_on (location_of ?s) (set (servants ?s))"
    using KeepServantAlive_inv[OF inv, of info e now] by (auto simp: dispatcher_inv_def distinct_map)
  moreover obtain q where q: "q \<in> set (servants ?s)" "servant_info (store ?s q) = info"
    using KeepServantAlive_registers by blast
  ultimately have "p = q" using p(1) same by (simp add: inj_on_def)
  with q p(2) zero show False by simp
qed

definition demo_heartbeat :: HeartBeatRequest where
  "demo_heartbeat = \<lparr>hb_token = ''user'', next_heart_beat_in_ms = 10000, hb_version = 1,
     hb_location = ''10.0.0.7:8335'', hb_num_cpu_cores = 8, hb_current_load = 0,
     hb_priority = SERVANT_PRIORITY_USER, hb_concurrency = 4, hb_total_memory_in_bytes = 0,
     hb_avail_memory_in_bytes = 0, hb_env_descs = [\<lparr>compiler_digest = ''gcc''\<rparr>], hb_running_tasks = []\<rparr>"

definition demo_heartbeat_info :: ServantInfo where
  "demo_heartbeat_info = \<lparr>version = 1, observed_location = ''10.0.0.7:8335'', reported_location = ''10.0.0.7:8335'',
     num_cpu_cores = 8, current_load = 0, total_memory_in_bytes = 0, avail_memory_in_bytes = 0,
     concurrency = 0, priority = SERVANT_PRIORITY_USER, env_decs = [\<lparr>compiler_digest = ''gcc''\<rparr>]\<rparr>"

lemma demo_heartbeat_accepted:
  "heartbeat_info (\<lambda>a. a = ''10.0.0.7'') demo_flags demo_service ''ipv4:10.0.0.7:51000'' demo_heartbeat
     = Inr demo_heartbeat_info"
  by (simp add: heartbeat_info_def demo_heartbeat_def demo_heartbeat_info_def demo_flags_def demo_service_def
      Verify_def ms_def sec_def TryParseIPv4_def TryParseGrpcIPv4_def StartWith_def c_str_def is_digit_def Let_def)

theorem untrusted_node_gets_no_work_witness:
  "\<not> (\<exists>p \<in> set (UnsafeGetServantsHasEnv demo_task (KeepServantAlive demo_heartbeat_info (sec 10) 1 demo_state)).
     observed_location (servant_info (store (KeepServantAlive demo_heartbeat_info (sec 10) 1 demo_state) p))
       = ''10.0.0.7:8335'')"
proof -
  have "length demo_ops < 2 ^ 64" by (simp add: demo_ops_def)
  moreover have "\<not> Verify (servant_token_verifier demo_service) (hb_token demo_heartbeat)"
    by (simp add: demo_service_def Verify_def demo_heartbeat_def)
  moreover have "observed_location demo_heartbeat_info = ''10.0.0.7:8335''" by (simp add: demo_heartbeat_info_def)
  ultimately show ?thesis
    using untrusted_node_gets_no_work[OF demo_heartbeat_accepted _ _ demo_run] by metis
qed

text \<open>
  The scheduler never recognises a requester's own machine among the servants: requests
  carry the gRPC peer (with its \<open>ipv4:\<close> prefix and port) as requester, and no location that a
  heartbeat can register starts with such a peer.
\<close>

theorem requester_never_self:
  assumes "heartbeat_info pton flags sv peer req = Inr info" and "servant_info v = info"
    and "TryParseGrpcIPv4 pton' peer' = Some (ip', port')"
  shows "\<not> is_self peer' v"
proof
  assume "is_self peer' v"
  then obtain rest where rest: "observed_location info = peer' @ rest"
    using assms(2) by (auto simp: is_self_def Let_def StartWith_iff)
  obtain ip port where "observed_location info = ip @ CHR '':'' # port" "CHR '':'' \<notin> set ip" "CHR '':'' \<notin> set port"
    using heartbeat_info_shape[OF assms(1)] TryParseIPv4_shape TryParseGrpcIPv4_shape digits_no_colon
    by metis
  then have one: "length (filter (\<lambda>c. c = CHR '':'') (observed_location info)) = 1"
    by (simp add: filter_empty_conv) (metis (mono_tags) filter_False length_0_conv)
  have "length (filter (\<lambda>c. c = CHR '':'') peer') \<ge> 2"
    using TryParseGrpcIPv4_shape[OF assms(3)] by simp
  with one rest show False by simp
qed

theorem requester_never_self_witness:
  "\<not> is_self ''ipv4:10.0.0.7:51000'' \<lparr>servant_info = demo_heartbeat_info, discovered_tp = 0,
     servant_expires_tp = 0, running_tasks = 0, assigned_tasks = 0\<rparr>"
proof (rule requester_never_self[OF demo_heartbeat_accepted])
  show "TryParseGrpcIPv4 (\<lambda>_. True) ''ipv4:10.0.0.7:51000'' = Some (''10.0.0.7'', ''51000'')"
    by (simp add: TryParseIPv4_def TryParseGrpcIPv4_def StartWith_def c_str_def is_digit_def Let_def)
qed simp

end
