(* ===== verification/SysInfo.thy ===== *)
theory SysInfo
  imports Decimal Tools
begin

text \<open>
  \<open>daemon/sysinfo.h\<close>: memory sizes. The text of \<open>/proc/meminfo\<close> is an argument. \<open>operator>>\<close>
  on a stream skips white space; reading a number that is not there yields 0, and one out of range
  the nearest bound.
\<close>

section \<open>Definitions\<close>

record ProcMemInfo =
  mem_total :: int
  mem_free :: int
  mem_available :: int
  mem_buffers :: int
  mem_cached :: int
  swap_total :: int
  swap_free :: int

definition ProcMemInfo_init :: ProcMemInfo where
  "ProcMemInfo_init = \<lparr>mem_total = -1, mem_free = -1, mem_available = -1, mem_buffers = -1,
     mem_cached = -1, swap_total = -1, swap_free = -1\<rparr>"

text \<open>\<open>iss >> key\<close>: the word, and what is left of the stream.\<close>

definition read_word :: "string \<Rightarrow> string \<times> string" where
  "read_word s = (let t = dropWhile is_space s
                  in (takeWhile (\<lambda>c. \<not> is_space c) t, dropWhile (\<lambda>c. \<not> is_space c) t))"

text \<open>
  \<open>iss >> value\<close> for a \<open>std::int64_t\<close>. If the stream has failed before (no word was found), the
  value stays uninitialised; then the key is empty and the value is not used.
\<close>

definition read_int64 :: "string \<Rightarrow> int" where
  "read_int64 s =
     (case scan_integer s of None \<Rightarrow> 0
      | Some (neg, n) \<Rightarrow> max LONG_MIN (min LONG_MAX (signed_value neg n)))"

definition meminfo_line :: "string \<Rightarrow> ProcMemInfo \<Rightarrow> ProcMemInfo" where
  "meminfo_line line info =
     (let (key, rest) = read_word line; val = read_int64 rest
      in if key = ''MemTotal:'' then info\<lparr>mem_total := val\<rparr>
         else if key = ''MemFree:'' then info\<lparr>mem_free := val\<rparr>
         else if key = ''MemAvailable:'' then info\<lparr>mem_available := val\<rparr>
         else if key = ''Buffers:'' then info\<lparr>mem_buffers := val\<rparr>
         else if key = ''Cached:'' then info\<lparr>mem_cached := val\<rparr>
         else if key = ''SwapTotal:'' then info\<lparr>swap_total := val\<rparr>
         else if key = ''SwapFree:'' then info\<lparr>swap_free := val\<rparr>
         else info)"

text \<open>\<open>std::getline\<close> until the end of the file: a last empty piece is not a line.\<close>

lemma getline_shorter: "s \<noteq> [] \<Longrightarrow> length (snd (getline s)) < length s"
  using length_dropWhile_le[of "\<lambda>c. c \<noteq> CHR 0x0A" s] by (cases s) (auto simp: getline_def)

function file_lines :: "string \<Rightarrow> string list" where
  "file_lines s = (if s = [] then [] else let (l, r) = getline s in l # file_lines r)"
  by pat_completeness auto
termination
  by (relation "measure length") (simp, metis getline_shorter in_measure snd_conv)

declare file_lines.simps [simp del]

definition GetProcMemInfo :: "string \<Rightarrow> ProcMemInfo" where
  "GetProcMemInfo meminfo = fold meminfo_line (file_lines meminfo) ProcMemInfo_init"

definition GetAvailMemory :: "string \<Rightarrow> u64" where
  "GetAvailMemory meminfo = of_int (mem_available (GetProcMemInfo meminfo) * 1024)"

definition GetTotalMemory :: "string \<Rightarrow> u64" where
  "GetTotalMemory meminfo = of_int (mem_total (GetProcMemInfo meminfo) * 1024)"

text \<open>\<open>back\<close> of an empty string is undefined.\<close>

definition ParseMemorySize :: "string \<Rightarrow> fault + u64" where
  "ParseMemorySize size_str =
     (if size_str = [] then Inl OutOfRange
      else
        (let (scale, digits) =
           (if last size_str = CHR ''G'' then (2 ^ 30, butlast size_str)
            else if last size_str = CHR ''M'' then (2 ^ 20, butlast size_str)
            else if last size_str = CHR ''K'' then (2 ^ 10, butlast size_str)
            else if last size_str = CHR ''B'' then (1, butlast size_str)
            else (1, size_str))
         in bind_fault (stoul digits) (\<lambda>n. Inr (n * scale))))"

section \<open>Sizes\<close>

text \<open>The scale of a unit character.\<close>

definition unit_scale :: "char \<Rightarrow> nat" where
  "unit_scale u = (if u = CHR ''G'' then 2 ^ 30 else if u = CHR ''M'' then 2 ^ 20
                   else if u = CHR ''K'' then 2 ^ 10 else 1)"

lemma ParseMemorySize_unit:
  assumes "u \<in> set ''GMKB''" and "n < 2 ^ 64"
  shows "ParseMemorySize (to_string n @ [u]) = Inr (of_nat (n * unit_scale u))"
  using assms by (auto simp: ParseMemorySize_def unit_scale_def stoul_to_string mult.commute)

lemma last_to_string: "is_digit (last (to_string n))"
  by (rule to_string_digits[OF last_in_set]) simp

lemma ParseMemorySize_plain:
  assumes "n < 2 ^ 64"
  shows "ParseMemorySize (to_string n) = Inr (of_nat n)"
proof -
  have "last (to_string n) \<notin> set ''GMKB''"
    using last_to_string[of n] by (auto simp: is_digit_def)
  with assms show ?thesis by (auto simp: ParseMemorySize_def stoul_to_string)
qed

section \<open>The memory table\<close>

lemma meminfo_line_other:
  "fst (read_word line) \<noteq> ''MemAvailable:'' \<Longrightarrow> mem_available (meminfo_line line info) = mem_available info"
  by (auto simp: meminfo_line_def Let_def case_prod_unfold)

lemma fold_meminfo_other:
  "\<forall>line \<in> set ls. fst (read_word line) \<noteq> ''MemAvailable:'' \<Longrightarrow>
     mem_available (fold meminfo_line ls info) = mem_available info"
  by (induction ls arbitrary: info) (auto simp: meminfo_line_other)

section \<open>Properties\<close>

text \<open>
  A memory size with a unit (G, M, K, B) or without one is the number times the scale of
  the unit, in 64-bit arithmetic: the product wraps silently when it does not fit.
\<close>

theorem parse_memory_size:
  assumes "u \<in> set ''GMKB''" and "n < 2 ^ 64"
  shows "ParseMemorySize (to_string n @ [u]) = Inr (of_nat (n * unit_scale u)) \<and>
    ParseMemorySize (to_string n) = Inr (of_nat n)"
  using ParseMemorySize_unit[OF assms] ParseMemorySize_plain[OF assms(2)] by simp

theorem parse_memory_size_witness:
  "ParseMemorySize (to_string (2 ^ 34 + 2) @ ''G'') = Inr (2 * 2 ^ 30)"
  using parse_memory_size[of "CHR ''G''" "2 ^ 34 + 2"] by (simp add: unit_scale_def of_nat_mult)

text \<open>
  When the memory table has no \<open>MemAvailable\<close> line, the available memory is reported as
  \<open>2 ^ 64 - 1024\<close> bytes, so the memory guard of a servant never refuses a task there.
\<close>

theorem avail_memory_missing:
  assumes "\<forall>line \<in> set (file_lines meminfo). fst (read_word line) \<noteq> ''MemAvailable:''"
  shows "unat (GetAvailMemory meminfo) = 2 ^ 64 - 1024"
  using fold_meminfo_other[OF assms, of ProcMemInfo_init]
  by (simp add: GetAvailMemory_def GetProcMemInfo_def ProcMemInfo_init_def)

theorem avail_memory_missing_witness:
  "unat (GetAvailMemory ''MemTotal:  1024 kB'') = 2 ^ 64 - 1024"
  by (rule avail_memory_missing) (simp add: file_lines.simps getline_def read_word_def is_space_def)

end
