(* ===== verification/Executor.thy ===== *)
theory Executor
  imports SysInfo
begin

text \<open>
  \<open>daemon/cloud/executor.{h,cpp}\<close>: the servant's process table.

  Task descriptions are shared pointers into a store of records. The virtual \<open>Task\<close> objects are a
  type parameter; \<open>OnCompleted\<close> is an argument where the code calls it. The operating system is
  part of the state: the child processes not yet waited for and the signals sent. What \<open>fork\<close>,
  \<open>wait\<close>, the clock and \<open>/proc/meminfo\<close> return is an argument. A function that gives up the mutex
  in the middle is split there. \<open>Poco::Event\<close> is a flag; whether a successful wait resets it (the
  event's type) is the argument \<open>autoreset\<close>.
\<close>

section \<open>Definitions\<close>

datatype ExecutionStatus = Exec_Unknown | Exec_Failed | Exec_Running | Exec_NotFound

type_synonym desc_ptr = nat

record 'task TaskDesc =
  pid :: int
  is_running :: bool
  grant_id :: u64
  ref_count :: u32
  start_tp :: time_point
  completed_tp :: time_point
  desc_task :: "'task option"
  completion_event :: bool
  desc_cmd :: string

text \<open>
  The members of \<open>Executor\<close>, the store of descriptions, and the surroundings: \<open>children\<close> are the
  child processes that nobody has waited for, \<open>waiting\<close> and \<open>waiter_done\<close> are the control state
  of \<open>WaiterProc\<close>, \<open>exit_tasks\<close> the \<open>OnExitTask\<close> objects in the thread pool, and \<open>signals\<close> the
  process ids given to \<open>kill\<close>.
\<close>

record 'task Executor =
  exiting :: bool
  ex_next_task_id :: u64
  ex_running_tasks :: u64
  max_concurrency :: u64
  min_memory :: u64
  task_ran_sum :: u64
  ex_tasks :: "(u64, desc_ptr) umap"
  descs :: "desc_ptr \<Rightarrow> 'task TaskDesc"
  next_desc :: desc_ptr
  waitpid_semaphore :: nat
  children :: "int list"
  waiting :: bool
  waiter_done :: bool
  exit_tasks :: "(int \<times> int) list"
  signals :: "int list"

subsection \<open>Construction\<close>

definition configured_concurrency :: "32 word \<Rightarrow> string \<Rightarrow> u32 \<Rightarrow> u64 \<Rightarrow> u64" where
  "configured_concurrency flag_max_concurrency servant_priority poor_cpu_cores_threshold num_cpu_cores =
     (if flag_max_concurrency = - 1 then
        (if servant_priority = ''dedicated'' then num_cpu_cores * 95 div 100
         else if servant_priority = ''user'' then
           (if num_cpu_cores < ucast poor_cpu_cores_threshold then 0 else num_cpu_cores * 40 div 100)
         else 0)
      else scast flag_max_concurrency)"

definition blank_desc :: "'task TaskDesc" where
  "blank_desc = \<lparr>pid = 0, is_running = True, grant_id = 0, ref_count = 0, start_tp = 0, completed_tp = 0,
     desc_task = None, completion_event = False, desc_cmd = []\<rparr>"

definition Executor_new ::
  "32 word \<Rightarrow> string \<Rightarrow> u32 \<Rightarrow> string \<Rightarrow> u64 \<Rightarrow> fault + 'task Executor" where
  "Executor_new flag_max_concurrency servant_priority threshold min_memory_flag num_cpu_cores =
     bind_fault (ParseMemorySize min_memory_flag) (\<lambda>memory.
       Inr \<lparr>exiting = False, ex_next_task_id = 1, ex_running_tasks = 0,
            max_concurrency = configured_concurrency flag_max_concurrency servant_priority threshold num_cpu_cores,
            min_memory = memory, task_ran_sum = 0, ex_tasks = [], descs = (\<lambda>_. blank_desc),
            next_desc = 0, waitpid_semaphore = 0, children = [], waiting = False, waiter_done = False,
            exit_tasks = [], signals = []\<rparr>)"

subsection \<open>Queueing\<close>

definition TryStartingNewTaskUnsafe :: "u64 \<Rightarrow> 'task Executor \<Rightarrow> u64 option \<times> 'task Executor" where
  "TryStartingNewTaskUnsafe avail s =
     (if exiting s then (None, s)
      else
        (let id' = ex_next_task_id s;
             s1 = s\<lparr>ex_next_task_id := id' + 1, ex_running_tasks := ex_running_tasks s + 1\<rparr>
         in if ex_running_tasks s1 > max_concurrency s1
            then (None, s1\<lparr>ex_running_tasks := ex_running_tasks s1 - 1\<rparr>)
            else if avail < min_memory s1
            then (None, s1\<lparr>ex_running_tasks := ex_running_tasks s1 - 1\<rparr>)
            else (Some id', s1\<lparr>task_ran_sum := task_ran_sum s1 + 1\<rparr>)))"

text \<open>\<open>cmd\<close> is \<open>GetCmdLine\<close> of the task, \<open>child\<close> what \<open>StartProgram\<close> returns: the pid, or -1.\<close>

definition TryQueueTask ::
  "u64 \<Rightarrow> 'task \<Rightarrow> string \<Rightarrow> int \<Rightarrow> time_point \<Rightarrow> u64 \<Rightarrow> 'task Executor \<Rightarrow> u64 option \<times> 'task Executor" where
  "TryQueueTask grant user_task cmd child now avail s =
     (case TryStartingNewTaskUnsafe avail s of
        (None, s1) \<Rightarrow> (None, s1)
      | (Some id', s1) \<Rightarrow>
          (let p = next_desc s1;
               desc = blank_desc\<lparr>grant_id := grant, ref_count := 1, start_tp := now, pid := child,
                                 desc_task := Some user_task, desc_cmd := cmd\<rparr>
           in (Some id',
               s1\<lparr>ex_tasks := umap_set id' p (ex_tasks s1),
                  descs := (descs s1)(p := desc), next_desc := Suc p,
                  children := (if child = -1 then children s1 else children s1 @ [child]),
                  waitpid_semaphore := Suc (waitpid_semaphore s1)\<rparr>)))"

subsection \<open>References and waiting\<close>

definition upd_desc :: "desc_ptr \<Rightarrow> ('task TaskDesc \<Rightarrow> 'task TaskDesc) \<Rightarrow> 'task Executor \<Rightarrow> 'task Executor" where
  "upd_desc p f s = s\<lparr>descs := (descs s)(p := f (descs s p))\<rparr>"

definition TryAddTaskRef :: "u64 \<Rightarrow> 'task Executor \<Rightarrow> bool \<times> 'task Executor" where
  "TryAddTaskRef i s =
     (case umap_find (ex_tasks s) i of
        Some p \<Rightarrow> (True, upd_desc p (\<lambda>d. d\<lparr>ref_count := ref_count d + 1\<rparr>) s)
      | None \<Rightarrow> (False, s))"

text \<open>
  \<open>WaitForTask\<close> looks the description up, and then waits on its event without the mutex:
  \<open>after\<close> is the state when the wait ends, by the event or by the timeout.
\<close>

definition WaitForTask_wait ::
  "bool \<Rightarrow> desc_ptr \<Rightarrow> 'task Executor \<Rightarrow> ('task option \<times> ExecutionStatus) \<times> 'task Executor" where
  "WaitForTask_wait autoreset p after =
     (if \<not> completion_event (descs after p) then ((None, Exec_Running), after)
      else ((desc_task (descs after p), Exec_Unknown),
            upd_desc p (\<lambda>d. d\<lparr>completion_event := \<not> autoreset\<rparr>) after))"

definition WaitForTask ::
  "bool \<Rightarrow> u64 \<Rightarrow> ('task Executor \<Rightarrow> 'task Executor) \<Rightarrow> 'task Executor
     \<Rightarrow> ('task option \<times> ExecutionStatus) \<times> 'task Executor" where
  "WaitForTask autoreset i others s =
     (case umap_find (ex_tasks s) i of
        None \<Rightarrow> ((None, Exec_NotFound), s)
      | Some p \<Rightarrow> WaitForTask_wait autoreset p (others s))"

subsection \<open>Releasing and killing\<close>

definition KillTask :: "desc_ptr \<Rightarrow> 'task Executor \<Rightarrow> 'task Executor" where
  "KillTask p s = (if is_running (descs s p) then s\<lparr>signals := signals s @ [- pid (descs s p)]\<rparr> else s)"

text \<open>The part of \<open>FreeTask\<close> under the mutex: the description to kill afterwards, if any.\<close>

definition FreeTask_locked :: "u64 \<Rightarrow> 'task Executor \<Rightarrow> desc_ptr option \<times> 'task Executor" where
  "FreeTask_locked i s =
     (case umap_find (ex_tasks s) i of
        None \<Rightarrow> (None, s)
      | Some p \<Rightarrow>
          (let s1 = upd_desc p (\<lambda>d. d\<lparr>ref_count := ref_count d - 1\<rparr>) s
           in if ref_count (descs s1 p) > 0 then (None, s1)
              else (Some p, s1\<lparr>ex_tasks := umap_erase i (ex_tasks s1)\<rparr>)))"

definition ExecutorFreeTask :: "u64 \<Rightarrow> 'task Executor \<Rightarrow> 'task Executor" where
  "ExecutorFreeTask i s =
     (case FreeTask_locked i s of (None, s1) \<Rightarrow> s1 | (Some p, s1) \<Rightarrow> KillTask p s1)"

definition GetAllTasks :: "'task Executor \<Rightarrow> (u64 \<times> u64 \<times> 'task) list" where
  "GetAllTasks s =
     List.map_filter (\<lambda>(k, p). map_option (\<lambda>t. (k, grant_id (descs s p), t)) (desc_task (descs s p)))
       (ex_tasks s)"

definition KillExpiredTasks :: "u64 list \<Rightarrow> 'task Executor \<Rightarrow> 'task Executor" where
  "KillExpiredTasks expired_grant_ids s =
     fold (\<lambda>(k, p) s. if is_running (descs s p) \<and> grant_id (descs s p) \<in> set expired_grant_ids
                      then KillTask p s else s) (ex_tasks s) s"

definition Stop :: "'task Executor \<Rightarrow> 'task Executor" where
  "Stop s = (let s1 = s\<lparr>exiting := True\<rparr>;
                 s2 = fold (\<lambda>(k, p) s. KillTask p s) (ex_tasks s1) s1
             in s2\<lparr>waitpid_semaphore := Suc (waitpid_semaphore s2)\<rparr>)"

text \<open>The test of \<open>Join\<close>: some description of the table is still running.\<close>

definition keep_sleep :: "'task Executor \<Rightarrow> bool" where
  "keep_sleep s \<longleftrightarrow> list_ex (\<lambda>(k, p). is_running (descs s p)) (ex_tasks s)"

definition OnTimerClean :: "time_point \<Rightarrow> 'task Executor \<Rightarrow> 'task Executor" where
  "OnTimerClean now s =
     s\<lparr>ex_tasks := filter (\<lambda>(k, p). \<not> (\<not> is_running (descs s p)
                                    \<and> completed_tp (descs s p) + sec 60 < now)) (ex_tasks s)\<rparr>"

subsection \<open>The end of a process\<close>

definition has_work :: "'task Executor \<Rightarrow> bool" where
  "has_work s \<longleftrightarrow> \<not> exiting s \<or> ex_running_tasks s \<noteq> 0"

text \<open>
  \<open>WaiterProc\<close>, one step each: taking the semaphore (or leaving the loop), and returning from
  \<open>wait\<close>. \<open>None\<close> is \<open>pid == -1\<close>; then \<open>status\<close> was not written and \<open>code\<close> is whatever it
  decodes to.
\<close>

definition WaiterProc_acquire :: "'task Executor \<Rightarrow> 'task Executor" where
  "WaiterProc_acquire s =
     (let s1 = s\<lparr>waitpid_semaphore := waitpid_semaphore s - 1\<rparr>
      in if has_work s1 then s1\<lparr>waiting := True\<rparr> else s1\<lparr>waiter_done := True\<rparr>)"

definition WaiterProc_reap :: "int option \<Rightarrow> int \<Rightarrow> 'task Executor \<Rightarrow> 'task Executor" where
  "WaiterProc_reap result code s =
     (let s1 = s\<lparr>waiting := False\<rparr>
      in case result of
           None \<Rightarrow> if exiting s1 then s1\<lparr>waiter_done := True\<rparr>
                   else s1\<lparr>exit_tasks := exit_tasks s1 @ [(-1, code)]\<rparr>
         | Some child \<Rightarrow> s1\<lparr>children := remove1 child (children s1),
                            exit_tasks := exit_tasks s1 @ [(child, code)]\<rparr>)"

text \<open>\<open>OnExitCallback\<close> under the mutex, and what it does after it gave the mutex up.\<close>

definition OnExitCallback_locked ::
  "int \<Rightarrow> time_point \<Rightarrow> 'task Executor \<Rightarrow> desc_ptr option \<times> 'task Executor" where
  "OnExitCallback_locked child now s =
     (let found = map_option snd (find (\<lambda>(k, p). pid (descs s p) = child) (ex_tasks s));
          s1 = s\<lparr>ex_running_tasks := ex_running_tasks s - 1\<rparr>
      in case found of
           None \<Rightarrow> (None, s1)
         | Some p \<Rightarrow> (Some p, upd_desc p (\<lambda>d. d\<lparr>completed_tp := now, is_running := False\<rparr>) s1))"

definition OnExitCallback_finish ::
  "(int \<Rightarrow> string \<Rightarrow> string \<Rightarrow> 'task \<Rightarrow> 'task) \<Rightarrow> int \<Rightarrow> string \<Rightarrow> string \<Rightarrow> desc_ptr \<Rightarrow> 'task Executor
     \<Rightarrow> fault + 'task Executor" where
  "OnExitCallback_finish OnCompleted exit_code std_out std_err p s =
     (case desc_task (descs s p) of
        None \<Rightarrow> Inl NullPointer
      | Some t \<Rightarrow>
          Inr (upd_desc p (\<lambda>d. d\<lparr>desc_task := Some (OnCompleted exit_code std_out std_err t),
                                completion_event := True\<rparr>) s))"

end
