(* ===== verification/Executor_Props.thy ===== *)
theory Executor_Props
  imports Executor
begin

text \<open>
  The executor as a state machine: the steps of the RPC threads, of \<open>WaiterProc\<close>, of the thread
  pool and of the timer in any order, with the operating system as \<open>fork\<close>, \<open>wait\<close> and \<open>kill\<close>
  document it. The invariant ties the counter \<open>running_tasks_\<close> to the child processes.
\<close>

section \<open>Steps\<close>

inductive executor_step :: "'task Executor \<Rightarrow> 'task Executor \<Rightarrow> bool" where
  queue: "child = -1 \<or> 0 < child \<and> child \<notin> set (children s) \<Longrightarrow>
            executor_step s (snd (TryQueueTask grant t cmd child now avail s))"
| add_ref: "executor_step s (snd (TryAddTaskRef i s))"
| free: "executor_step s (snd (FreeTask_locked i s))"
| kill: "executor_step s (KillTask p s)"
| expire: "executor_step s (KillExpiredTasks ids s)"
| clean: "executor_step s (OnTimerClean now s)"
| stop: "executor_step s (Stop s)"
| wait_task: "executor_step s (snd (WaitForTask_wait autoreset p s))"
| acquire: "\<not> waiting s \<Longrightarrow> \<not> waiter_done s \<Longrightarrow> has_work s \<Longrightarrow> 0 < waitpid_semaphore s \<Longrightarrow>
            executor_step s (WaiterProc_acquire s)"
| leave: "\<not> waiting s \<Longrightarrow> \<not> has_work s \<Longrightarrow> executor_step s (s\<lparr>waiter_done := True\<rparr>)"
| reap: "waiting s \<Longrightarrow> child \<in> set (children s) \<Longrightarrow> executor_step s (WaiterProc_reap (Some child) code s)"
| no_child: "waiting s \<Longrightarrow> children s = [] \<Longrightarrow> executor_step s (WaiterProc_reap None code s)"
| exit_task: "(child, code) \<in> set (exit_tasks s) \<Longrightarrow>
            executor_step s (snd (OnExitCallback_locked child now
              (s\<lparr>exit_tasks := remove1 (child, code) (exit_tasks s)\<rparr>)))"
| finish: "p < next_desc s \<Longrightarrow> OnExitCallback_finish f code out err p s = Inr s' \<Longrightarrow> executor_step s s'"

inductive executor_reachable :: "'task Executor \<Rightarrow> 'task Executor \<Rightarrow> bool" for s0 where
  start: "executor_reachable s0 s0"
| step: "executor_reachable s0 s \<Longrightarrow> executor_step s t \<Longrightarrow> executor_reachable s0 t"

section \<open>The invariant\<close>

text \<open>
  \<open>lost\<close> counts the forks that failed and whose semaphore token has not been used up by a \<open>wait\<close>
  that found no child.
\<close>

definition counts_inv :: "'task Executor \<Rightarrow> bool" where
  "counts_inv s \<longleftrightarrow>
     (\<exists>lost. unat (ex_running_tasks s) = length (children s) + length (exit_tasks s) + lost \<and>
             (\<not> exiting s \<longrightarrow> waitpid_semaphore s + (if waiting s then 1 else 0) = length (children s) + lost)) \<and>
     ex_running_tasks s \<le> max_concurrency s \<and> max_concurrency s \<noteq> - 1"

definition table_inv :: "'task Executor \<Rightarrow> bool" where
  "table_inv s \<longleftrightarrow>
     umap_wf (ex_tasks s) \<and> distinct (map snd (ex_tasks s)) \<and> snd ` set (ex_tasks s) \<subseteq> {..<next_desc s} \<and>
     (\<forall>p < next_desc s. desc_task (descs s p) \<noteq> None)"

definition executor_inv :: "'task Executor \<Rightarrow> bool" where
  "executor_inv s \<longleftrightarrow> counts_inv s \<and> table_inv s"

text \<open>Steps that leave the counters alone.\<close>

definition same_counts :: "'task Executor \<Rightarrow> 'task Executor \<Rightarrow> bool" where
  "same_counts s t \<longleftrightarrow>
     ex_running_tasks t = ex_running_tasks s \<and> children t = children s \<and> exit_tasks t = exit_tasks s \<and>
     exiting t = exiting s \<and> waitpid_semaphore t = waitpid_semaphore s \<and> waiting t = waiting s \<and>
     max_concurrency t = max_concurrency s \<and> next_desc t = next_desc s"

lemma same_counts_inv: "same_counts s t \<Longrightarrow> counts_inv s \<Longrightarrow> counts_inv t"
  by (simp add: same_counts_def counts_inv_def)

lemma table_inv_sub:
  assumes "table_inv s" and "next_desc t = next_desc s" and "set (ex_tasks t) \<subseteq> set (ex_tasks s)"
    and "umap_wf (ex_tasks t)" and "distinct (map snd (ex_tasks t))"
    and "\<And>p. desc_task (descs s p) \<noteq> None \<Longrightarrow> desc_task (descs t p) \<noteq> None"
  shows "table_inv t"
proof -
  have "snd ` set (ex_tasks t) \<subseteq> snd ` set (ex_tasks s)" using assms(3) by (rule image_mono)
  also have "\<dots> \<subseteq> {..<next_desc t}" using assms(1,2) by (simp add: table_inv_def)
  finally have "snd ` set (ex_tasks t) \<subseteq> {..<next_desc t}" .
  moreover have "\<forall>p < next_desc t. desc_task (descs t p) \<noteq> None"
    using assms(1,2,6) unfolding table_inv_def by simp
  ultimately show ?thesis using assms(4,5) unfolding table_inv_def by simp
qed

lemma table_inv_filter:
  assumes "table_inv s" and "next_desc t = next_desc s" and "ex_tasks t = filter P (ex_tasks s)"
    and "\<And>p. desc_task (descs s p) \<noteq> None \<Longrightarrow> desc_task (descs t p) \<noteq> None"
  shows "table_inv t"
  by (rule table_inv_sub[OF assms(1,2) _ _ _ assms(4)])
     (use assms in \<open>auto simp: table_inv_def umap_wf_def distinct_map_filter\<close>)

lemmas table_inv_same = table_inv_filter[where P = "\<lambda>_. True", simplified]

lemma KillTask_fields [simp]:
  "ex_tasks (KillTask p s) = ex_tasks s" "descs (KillTask p s) = descs s" "same_counts s (KillTask p s)"
  by (simp_all add: KillTask_def same_counts_def)

lemma same_counts_refl [simp]: "same_counts s s"
  by (simp add: same_counts_def)

lemma same_counts_trans: "same_counts s t \<Longrightarrow> same_counts t u \<Longrightarrow> same_counts s u"
  by (simp add: same_counts_def)

lemma fold_kill:
  "ex_tasks (fold (\<lambda>(k, p) s. if P k p then KillTask p s else s) xs s) = ex_tasks s \<and>
   descs (fold (\<lambda>(k, p) s. if P k p then KillTask p s else s) xs s) = descs s \<and>
   same_counts s (fold (\<lambda>(k, p) s. if P k p then KillTask p s else s) xs s) \<and>
   signals (fold (\<lambda>(k, p) s. if P k p then KillTask p s else s) xs s) =
     signals s @ map (\<lambda>(k, p). - pid (descs s p)) (filter (\<lambda>(k, p). P k p \<and> is_running (descs s p)) xs)"
proof (induction xs arbitrary: s)
  case (Cons x xs)
  obtain k p where x: "x = (k, p)" by (cases x)
  show ?case
    using Cons[of s] Cons[of "KillTask p s"] same_counts_trans[OF KillTask_fields(3)[of s p]]
    by (simp add: x) (simp add: KillTask_def)
qed simp

text \<open>Killing expired tasks: the descriptions do not change while the loop runs.\<close>

lemma KillExpiredTasks_eq:
  "KillExpiredTasks ids s =
     fold (\<lambda>(k, p) s'. if is_running (descs s p) \<and> grant_id (descs s p) \<in> set ids then KillTask p s' else s')
       (ex_tasks s) s"
proof -
  have "fold (\<lambda>(k, p) t. if is_running (descs t p) \<and> grant_id (descs t p) \<in> set ids then KillTask p t else t) xs t =
      fold (\<lambda>(k, p) t. if is_running (descs s p) \<and> grant_id (descs s p) \<in> set ids then KillTask p t else t) xs t"
    if "descs t = descs s" for t :: "'a Executor" and xs :: "(u64 \<times> desc_ptr) list"
    using that by (induction xs arbitrary: t) auto
  then show ?thesis by (simp add: KillExpiredTasks_def)
qed

lemma Stop_fields:
  "ex_tasks (Stop s) = ex_tasks s" "descs (Stop s) = descs s" "exiting (Stop s)"
  "ex_running_tasks (Stop s) = ex_running_tasks s" "children (Stop s) = children s"
  "exit_tasks (Stop s) = exit_tasks s" "max_concurrency (Stop s) = max_concurrency s"
  "next_desc (Stop s) = next_desc s"
  using fold_kill[of "\<lambda>_ _. True" "ex_tasks s" "s\<lparr>exiting := True\<rparr>"]
  by (simp_all add: Stop_def Let_def same_counts_def)

lemma TryStartingNewTaskUnsafe_eq:
  "TryStartingNewTaskUnsafe avail s =
     (if exiting s then (None, s)
      else if \<not> ex_running_tasks s + 1 \<le> max_concurrency s \<or> avail < min_memory s
      then (None, s\<lparr>ex_next_task_id := ex_next_task_id s + 1\<rparr>)
      else (Some (ex_next_task_id s),
            s\<lparr>ex_next_task_id := ex_next_task_id s + 1, ex_running_tasks := ex_running_tasks s + 1,
              task_ran_sum := task_ran_sum s + 1\<rparr>))"
  by (simp add: TryStartingNewTaskUnsafe_def Let_def not_le)

lemma umap_set_values: "snd ` set (umap_set k v m) \<subseteq> insert v (snd ` set m)"
  unfolding umap_set_def by (induction m) auto

lemma umap_set_distinct_values:
  "distinct (map snd m) \<Longrightarrow> v \<notin> snd ` set m \<Longrightarrow> distinct (map snd (umap_set k v m))"
  unfolding umap_set_def
proof (induction m)
  case (Cons x m)
  then show ?case using umap_set_values[of k v m] by (cases x) (auto simp: umap_set_def)
qed simp

text \<open>A queued task raises the counter below the limit, and owns one semaphore token.\<close>

lemma TryQueueTask_inv:
  assumes "executor_inv s"
  shows "executor_inv (snd (TryQueueTask grant t cmd child now avail s))"
proof (cases "exiting s \<or> \<not> ex_running_tasks s + 1 \<le> max_concurrency s \<or> avail < min_memory s")
  case True
  then have "same_counts s (snd (TryQueueTask grant t cmd child now avail s)) \<and>
      ex_tasks (snd (TryQueueTask grant t cmd child now avail s)) = ex_tasks s \<and>
      descs (snd (TryQueueTask grant t cmd child now avail s)) = descs s"
    by (auto simp: TryQueueTask_def TryStartingNewTaskUnsafe_eq same_counts_def)
  with assms show ?thesis
    by (auto simp: executor_inv_def same_counts_def intro: same_counts_inv[unfolded same_counts_def] table_inv_same)
next
  case False
  let ?t = "snd (TryQueueTask grant t cmd child now avail s)"
  have new: "snd ` set (ex_tasks s) \<subseteq> {..<next_desc s}" using assms by (simp add: executor_inv_def table_inv_def)
  obtain lost where lost: "unat (ex_running_tasks s) = length (children s) + length (exit_tasks s) + lost"
    "waitpid_semaphore s + (if waiting s then 1 else 0) = length (children s) + lost"
    using assms False by (auto simp: executor_inv_def counts_inv_def)
  have "ex_running_tasks s < - 1"
    using assms by (auto simp: executor_inv_def counts_inv_def word_order.not_eq_extremum)
  then have inc: "unat (ex_running_tasks s + 1) = Suc (unat (ex_running_tasks s))" by (rule unat_inc_less)
  have fields: "exiting ?t = exiting s" "ex_running_tasks ?t = ex_running_tasks s + 1"
    "max_concurrency ?t = max_concurrency s" "exit_tasks ?t = exit_tasks s" "waiting ?t = waiting s"
    "children ?t = (if child = -1 then children s else children s @ [child])"
    "waitpid_semaphore ?t = Suc (waitpid_semaphore s)" "next_desc ?t = Suc (next_desc s)"
    "ex_tasks ?t = umap_set (ex_next_task_id s) (next_desc s) (ex_tasks s)"
    "\<And>p. desc_task (descs ?t p) = (if p = next_desc s then Some t else desc_task (descs s p))"
    using False by (simp_all add: TryQueueTask_def TryStartingNewTaskUnsafe_eq Let_def)
  have "counts_inv ?t"
    unfolding counts_inv_def fields
    using False lost inc assms
    by (intro conjI exI[of _ "if child = -1 then Suc lost else lost"])
       (auto simp: executor_inv_def counts_inv_def)
  moreover have "snd ` set (umap_set (ex_next_task_id s) (next_desc s) (ex_tasks s)) \<subseteq> {..<Suc (next_desc s)}"
    using new umap_set_values[of "ex_next_task_id s" "next_desc s" "ex_tasks s"] by fastforce
  then have "table_inv ?t"
    using assms new unfolding table_inv_def fields executor_inv_def
    by (auto simp: umap.ok_put intro!: umap_set_distinct_values)
  ultimately show ?thesis by (simp add: executor_inv_def)
qed

text \<open>Steps that touch only the table or the descriptions.\<close>

lemma desc_steps_inv:
  assumes "executor_inv s"
  shows "executor_inv (snd (TryAddTaskRef i s))" "executor_inv (snd (FreeTask_locked i s))"
    "executor_inv (KillTask p s)" "executor_inv (KillExpiredTasks ids s)" "executor_inv (OnTimerClean now s)"
    "executor_inv (snd (WaitForTask_wait ar p s))" "executor_inv (s\<lparr>waiter_done := True\<rparr>)"
proof -
  have c: "counts_inv s" and t: "table_inv s" using assms by (simp_all add: executor_inv_def)
  have refs: "desc_task (descs (upd_desc q f s) p) = desc_task (descs s p)"
    if "\<And>d. desc_task (f d) = desc_task d" for q f p using that by (simp add: upd_desc_def)
  show "executor_inv (snd (TryAddTaskRef i s))"
    unfolding executor_inv_def
    by (intro conjI same_counts_inv[OF _ c] table_inv_same[OF t])
       (auto simp: TryAddTaskRef_def upd_desc_def same_counts_def split: option.split)
  show "executor_inv (snd (FreeTask_locked i s))"
    unfolding executor_inv_def
  proof (intro conjI same_counts_inv[OF _ c])
    let ?P = "\<lambda>(k :: u64, p :: desc_ptr). fst (FreeTask_locked i s) = None \<or> k \<noteq> i"
    show "table_inv (snd (FreeTask_locked i s))"
      by (rule table_inv_filter[OF t, of _ ?P])
         (auto simp: FreeTask_locked_def upd_desc_def Let_def umap_erase_def split: option.split)
  qed (auto simp: FreeTask_locked_def upd_desc_def same_counts_def Let_def split: option.split)
  show "executor_inv (KillTask p s)"
    unfolding executor_inv_def
    by (intro conjI same_counts_inv[OF _ c] table_inv_same[OF t]) (simp_all add: KillTask_def same_counts_def)
  show "executor_inv (KillExpiredTasks ids s)"
    unfolding executor_inv_def KillExpiredTasks_eq
    using fold_kill[of "\<lambda>k p. is_running (descs s p) \<and> grant_id (descs s p) \<in> set ids" "ex_tasks s" s]
    by (intro conjI same_counts_inv[OF _ c] table_inv_same[OF t]) (auto simp: same_counts_def)
  show "executor_inv (OnTimerClean now s)"
    unfolding executor_inv_def
    by (intro conjI same_counts_inv[OF _ c] table_inv_filter[OF t]) (auto simp: OnTimerClean_def same_counts_def)
  show "executor_inv (snd (WaitForTask_wait ar p s))"
    unfolding executor_inv_def
    by (intro conjI same_counts_inv[OF _ c] table_inv_same[OF t])
       (auto simp: WaitForTask_wait_def upd_desc_def same_counts_def)
  show "executor_inv (s\<lparr>waiter_done := True\<rparr>)"
    using c t by (simp add: executor_inv_def counts_inv_def table_inv_def)
qed

lemma Stop_inv: "executor_inv s \<Longrightarrow> executor_inv (Stop s)"
  by (auto simp: executor_inv_def counts_inv_def table_inv_def Stop_fields)

lemma WaiterProc_acquire_inv:
  "executor_inv s \<Longrightarrow> \<not> waiting s \<Longrightarrow> has_work s \<Longrightarrow> 0 < waitpid_semaphore s \<Longrightarrow>
     executor_inv (WaiterProc_acquire s)"
  by (auto simp: executor_inv_def counts_inv_def table_inv_def WaiterProc_acquire_def has_work_def Let_def)

lemma WaiterProc_reap_inv:
  assumes "executor_inv s" and "waiting s" and "case r of None \<Rightarrow> children s = [] | Some child \<Rightarrow> child \<in> set (children s)"
  shows "executor_inv (WaiterProc_reap r code s)"
proof -
  obtain lost where lost: "unat (ex_running_tasks s) = length (children s) + length (exit_tasks s) + lost"
    "\<not> exiting s \<Longrightarrow> Suc (waitpid_semaphore s) = length (children s) + lost"
    using assms(1,2) by (auto simp: executor_inv_def counts_inv_def)
  have t: "table_inv (WaiterProc_reap r code s)"
    using assms(1) by (auto simp: executor_inv_def table_inv_def WaiterProc_reap_def Let_def split: option.split)
  have rest: "ex_running_tasks s \<le> max_concurrency s" "max_concurrency s \<noteq> - 1"
    using assms(1) by (auto simp: executor_inv_def counts_inv_def)
  have "counts_inv (WaiterProc_reap r code s)"
  proof (cases r)
    case None
    with lost rest assms(3) show ?thesis
      by (auto simp: counts_inv_def WaiterProc_reap_def Let_def intro!: exI[of _ "lost - 1"])
  next
    case (Some child)
    with assms(3) have "Suc (length (remove1 child (children s))) = length (children s)"
      by (simp add: Suc_length_remove1)
    with lost rest Some show ?thesis
      by (auto simp: counts_inv_def WaiterProc_reap_def Let_def intro!: exI[of _ lost])
  qed
  with t show ?thesis by (simp add: executor_inv_def)
qed

lemma OnExitCallback_inv:
  assumes "executor_inv s" and "e \<in> set (exit_tasks s)"
  shows "executor_inv (snd (OnExitCallback_locked child now (s\<lparr>exit_tasks := remove1 e (exit_tasks s)\<rparr>)))"
proof -
  let ?s = "s\<lparr>exit_tasks := remove1 e (exit_tasks s)\<rparr>"
  let ?t = "snd (OnExitCallback_locked child now ?s)"
  have fields: "ex_running_tasks ?t = ex_running_tasks s - 1" "children ?t = children s"
    "exit_tasks ?t = remove1 e (exit_tasks s)" "exiting ?t = exiting s" "waiting ?t = waiting s"
    "waitpid_semaphore ?t = waitpid_semaphore s" "max_concurrency ?t = max_concurrency s"
    "ex_tasks ?t = ex_tasks s" "next_desc ?t = next_desc s" "\<And>p. desc_task (descs ?t p) = desc_task (descs s p)"
    by (simp_all add: OnExitCallback_locked_def Let_def upd_desc_def split: option.split)
  have len: "Suc (length (remove1 e (exit_tasks s))) = length (exit_tasks s)"
    using assms(2) by (rule Suc_length_remove1)
  obtain lost where lost: "unat (ex_running_tasks s) = length (children s) + length (exit_tasks s) + lost"
    "\<not> exiting s \<longrightarrow> waitpid_semaphore s + (if waiting s then 1 else 0) = length (children s) + lost"
    using assms(1) by (auto simp: executor_inv_def counts_inv_def)
  then have "ex_running_tasks s \<noteq> 0" using len by auto
  then have dec: "unat (ex_running_tasks s - 1) = unat (ex_running_tasks s) - 1"
    by (simp add: unat_minus_one)
  have "counts_inv ?t"
    unfolding counts_inv_def fields dec word_le_nat_alt
    using lost len assms(1)
    by (intro conjI exI[of _ lost]) (auto simp: executor_inv_def counts_inv_def word_le_nat_alt)
  moreover have "table_inv ?t"
    using assms(1) unfolding table_inv_def fields executor_inv_def by blast
  ultimately show ?thesis by (simp add: executor_inv_def)
qed

lemma OnExitCallback_finish_inv:
  assumes "executor_inv s" and "p < next_desc s"
  shows "\<exists>s'. OnExitCallback_finish f code out err p s = Inr s' \<and> executor_inv s'"
proof -
  have c: "counts_inv s" and t: "table_inv s" using assms(1) by (simp_all add: executor_inv_def)
  obtain u where u: "desc_task (descs s p) = Some u" using t assms(2) by (auto simp: table_inv_def)
  let ?s = "upd_desc p (\<lambda>d. d\<lparr>desc_task := Some (f code out err u), completion_event := True\<rparr>) s"
  have "counts_inv ?s" by (rule same_counts_inv[OF _ c]) (simp add: upd_desc_def same_counts_def)
  moreover have "table_inv ?s" by (rule table_inv_same[OF t]) (simp_all add: upd_desc_def)
  ultimately show ?thesis by (simp add: OnExitCallback_finish_def u executor_inv_def)
qed

lemma executor_step_inv: "executor_step s t \<Longrightarrow> executor_inv s \<Longrightarrow> executor_inv t"
proof (induction rule: executor_step.induct)
  case (queue child s)
  then show ?case by (simp add: TryQueueTask_inv)
next
  case (reap s child code)
  then show ?case using WaiterProc_reap_inv[of s "Some child" code] by simp
next
  case (no_child s code)
  then show ?case using WaiterProc_reap_inv[of s None code] by simp
next
  case (finish p s f code out err s')
  then show ?case using OnExitCallback_finish_inv[of s p f code out err] by auto
qed (simp_all add: desc_steps_inv Stop_inv WaiterProc_acquire_inv OnExitCallback_inv)

lemma executor_reachable_inv: "executor_reachable s0 s \<Longrightarrow> executor_inv s0 \<Longrightarrow> executor_inv s"
  by (induction rule: executor_reachable.induct) (auto intro: executor_step_inv)

section \<open>The configured concurrency\<close>

lemma word_div_100: "unat (w div 100 :: u64) \<le> (2 ^ 64 - 1) div 100"
proof -
  have "unat (w div 100) = unat w div 100" by (simp add: unat_div)
  also have "\<dots> \<le> (2 ^ 64 - 1) div 100"
    using unsigned_less[of w, where ?'a = nat] by (intro div_le_mono) simp
  finally show ?thesis .
qed

lemma div_100_ne: "w div 100 \<noteq> (- 1 :: u64)"
proof
  assume "w div 100 = - 1"
  then have "uint (w div 100) = 2 ^ 64 - 1" by (simp add: unsigned_minus_1_eq_mask mask_eq_exp_minus_1)
  with word_div_100[of w] show False by (simp add: unat_eq_nat_uint)
qed

lemma scast_ne: "(x :: 32 word) \<noteq> - 1 \<Longrightarrow> (scast x :: u64) \<noteq> - 1"
proof
  assume "x \<noteq> - 1" and e: "(scast x :: u64) = - 1"
  have "scast (scast x :: u64) = x" by (rule scast_up_scast_id) (simp add: is_up)
  with \<open>x \<noteq> - 1\<close> show False unfolding e by (simp add: scast_n1)
qed

lemma configured_concurrency_ne: "configured_concurrency f prio th cores \<noteq> - 1"
  using div_100_ne[of "cores * 95"] div_100_ne[of "cores * 40"] scast_ne[of f]
  by (simp add: configured_concurrency_def)

lemma Executor_new_inv:
  "Executor_new f prio th mem cores = Inr s \<Longrightarrow>
     executor_inv s \<and> max_concurrency s = configured_concurrency f prio th cores"
  using configured_concurrency_ne[of f prio th cores]
  by (auto simp: Executor_new_def executor_inv_def counts_inv_def table_inv_def umap.ok_emp elim!: bind_fault_InrE)

lemma max_concurrency_simps [simp]:
  "max_concurrency (snd (TryQueueTask g u c ch now av s)) = max_concurrency s"
  "max_concurrency (snd (TryAddTaskRef i s)) = max_concurrency s"
  "max_concurrency (snd (FreeTask_locked i s)) = max_concurrency s"
  "max_concurrency (KillTask p s) = max_concurrency s"
  "max_concurrency (KillExpiredTasks ids s) = max_concurrency s"
  "max_concurrency (OnTimerClean now s) = max_concurrency s"
  "max_concurrency (snd (WaitForTask_wait ar p s)) = max_concurrency s"
  "max_concurrency (WaiterProc_acquire s) = max_concurrency s"
  "max_concurrency (WaiterProc_reap r code s) = max_concurrency s"
  "max_concurrency (snd (OnExitCallback_locked ch now s)) = max_concurrency s"
  using fold_kill[of "\<lambda>k p. is_running (descs s p) \<and> grant_id (descs s p) \<in> set ids" "ex_tasks s" s]
  by (auto simp: TryQueueTask_def TryStartingNewTaskUnsafe_eq TryAddTaskRef_def FreeTask_locked_def KillTask_def
      KillExpiredTasks_eq same_counts_def OnTimerClean_def WaitForTask_wait_def WaiterProc_acquire_def
      WaiterProc_reap_def OnExitCallback_locked_def upd_desc_def Let_def split: option.split)

lemma executor_step_max: "executor_step s t \<Longrightarrow> max_concurrency t = max_concurrency s"
proof (induction rule: executor_step.induct)
  case (finish p s f code out err s')
  then show ?case by (auto simp: OnExitCallback_finish_def upd_desc_def split: option.splits)
qed (simp_all add: Stop_fields)

lemma executor_reachable_max: "executor_reachable s0 s \<Longrightarrow> max_concurrency s = max_concurrency s0"
  by (induction rule: executor_reachable.induct) (auto dest: executor_step_max)

section \<open>Properties\<close>


text \<open>A servant with one task, for the concrete instances.\<close>

definition demo_executor :: "string Executor" where
  "demo_executor = \<lparr>exiting = False, ex_next_task_id = 1, ex_running_tasks = 0, max_concurrency = 4,
     min_memory = 2 * 2 ^ 30, task_ran_sum = 0, ex_tasks = [], descs = (\<lambda>_. blank_desc), next_desc = 0,
     waitpid_semaphore = 0, children = [], waiting = False, waiter_done = False, exit_tasks = [], signals = []\<rparr>"

lemma demo_executor_new: "Executor_new 4 ''user'' 4 ''2G'' 8 = Inr demo_executor"
  by (simp add: Executor_new_def demo_executor_def ParseMemorySize_def stoul_def scan_integer_def c_str_def
      is_space_def is_digit_def digits_val_def configured_concurrency_def Let_def)

definition demo_queued :: "string Executor" where
  "demo_queued = snd (TryQueueTask 7 ''task'' ''gcc'' 100 5 (2 ^ 40) demo_executor)"

lemma demo_queued_reachable: "executor_reachable demo_executor demo_queued"
  unfolding demo_queued_def
  by (rule executor_reachable.step[OF executor_reachable.start executor_step.queue])
     (simp add: demo_executor_def)

lemmas demo_queued_simps = demo_queued_def demo_executor_def TryQueueTask_def TryStartingNewTaskUnsafe_eq
  word_le_nat_alt word_less_nat_alt umap_set_def

lemma demo_queued_fields:
  "ex_tasks demo_queued = [(1, 0)]" "children demo_queued = [100]" "next_desc demo_queued = 1"
  "descs demo_queued 0 = blank_desc\<lparr>grant_id := 7, ref_count := 1, start_tp := 5, pid := 100,
     desc_task := Some ''task'', desc_cmd := ''gcc''\<rparr>"
  by (simp_all add: demo_queued_simps)


text \<open>
  A queued task is accepted exactly when the executor is not stopping, one more task fits
  its concurrency and enough memory is available. Then it is in the table under the returned id
  with one reference, running, with its grant and process; a refusal leaves the table, the counter
  and the processes as they were.
\<close>

theorem try_queue_task_outcome:
  "case TryQueueTask grant t cmd child now avail s of
     (Some i, s') \<Rightarrow>
       \<not> exiting s \<and> ex_running_tasks s + 1 \<le> max_concurrency s \<and> min_memory s \<le> avail \<and>
       ex_running_tasks s' = ex_running_tasks s + 1 \<and>
       umap_find (ex_tasks s') i = Some (next_desc s) \<and>
       descs s' (next_desc s) = \<lparr>pid = child, is_running = True, grant_id = grant, ref_count = 1, start_tp = now,
         completed_tp = 0, desc_task = Some t, completion_event = False, desc_cmd = cmd\<rparr>
   | (None, s') \<Rightarrow>
       (exiting s \<or> max_concurrency s < ex_running_tasks s + 1 \<or> avail < min_memory s) \<and>
       ex_running_tasks s' = ex_running_tasks s \<and> ex_tasks s' = ex_tasks s \<and> children s' = children s \<and>
       descs s' = descs s"
  by (auto simp: TryQueueTask_def TryStartingNewTaskUnsafe_eq Let_def umap.look_put blank_desc_def not_le not_less)

text \<open>
  Claim C17. When a child exits, its task is completed: if it is the only task of the table with that
  process id, then after both parts of the exit callback (with no step between them that removes
  the task) a wait for the task returns it, as \<open>OnCompleted\<close> left it.
\<close>

theorem exit_completes_task:
  assumes "(i, p) \<in> set (ex_tasks s)" and "umap_wf (ex_tasks s)" and "pid (descs s p) = child"
    and "\<forall>(j, q) \<in> set (ex_tasks s). pid (descs s q) = child \<longrightarrow> q = p"
    and "desc_task (descs s p) = Some t"
  shows "\<exists>s1 s2. OnExitCallback_locked child now s = (Some p, s1) \<and>
    OnExitCallback_finish OnCompleted code out err p s1 = Inr s2 \<and>
    \<not> is_running (descs s2 p) \<and> completed_tp (descs s2 p) = now \<and>
    fst (WaitForTask autoreset i (\<lambda>u. u) s2) = (Some (OnCompleted code out err t), Exec_Unknown)"
proof -
  obtain j q where f: "find (\<lambda>(k, p). pid (descs s p) = child) (ex_tasks s) = Some (j, q)"
    using assms(1,3) by (cases "find (\<lambda>(k, p). pid (descs s p) = child) (ex_tasks s)") (auto simp: find_None_iff)
  then have "(j, q) \<in> set (ex_tasks s)" "pid (descs s q) = child" by (auto dest: find_SomeD)
  then have q: "q = p" using assms(4) by auto
  have "umap_find (ex_tasks s) i = Some p" using assms(1,2) by (simp add: umap_find_iff)
  with f q assms(5) show ?thesis
    by (auto simp: OnExitCallback_locked_def OnExitCallback_finish_def WaitForTask_def WaitForTask_wait_def
        upd_desc_def Let_def)
qed

theorem exit_completes_task_witness:
  "\<exists>s1 s2. OnExitCallback_locked 100 9 demo_queued = (Some 0, s1) \<and>
    OnExitCallback_finish (\<lambda>c out err t. t @ out) 0 ''ok'' [] 0 s1 = Inr s2 \<and>
    fst (WaitForTask True 1 (\<lambda>u. u) s2) = (Some ''taskok'', Exec_Unknown)"
  using exit_completes_task[of 1 0 demo_queued 100 "''task''" 9 "\<lambda>c out err t. t @ out" 0 "''ok''" "[]" True]
  by (auto simp: demo_queued_fields umap_wf_def)

text \<open>
  Expired grants: \<open>KillExpiredTasks\<close> signals exactly the process groups of the running
  tasks of the table whose grant is among the expired ones, in table order, and changes neither
  the table nor the descriptions nor the counters.
\<close>

theorem kill_expired_exact:
  "signals (KillExpiredTasks ids s) =
     signals s @ map (\<lambda>(k, p). - pid (descs s p))
       (filter (\<lambda>(k, p). is_running (descs s p) \<and> grant_id (descs s p) \<in> set ids) (ex_tasks s)) \<and>
   ex_tasks (KillExpiredTasks ids s) = ex_tasks s \<and> descs (KillExpiredTasks ids s) = descs s \<and>
   ex_running_tasks (KillExpiredTasks ids s) = ex_running_tasks s"
proof -
  have "filter (\<lambda>(k, p). (is_running (descs s p) \<and> grant_id (descs s p) \<in> set ids) \<and> is_running (descs s p)) (ex_tasks s)
      = filter (\<lambda>(k, p). is_running (descs s p) \<and> grant_id (descs s p) \<in> set ids) (ex_tasks s)"
    by (intro filter_cong) auto
  then show ?thesis
    using fold_kill[of "\<lambda>k p. is_running (descs s p) \<and> grant_id (descs s p) \<in> set ids" "ex_tasks s" s]
    by (simp add: KillExpiredTasks_eq same_counts_def)
qed

text \<open>
  A task is released when its last reference goes: of as many \<open>FreeTask\<close> calls as the
  task has references all but the last keep it in the table and signal nobody, and the last one
  removes it and kills its process group if it still runs.
\<close>

theorem free_task_last_reference:
  assumes "umap_find (ex_tasks s) i = Some p" and "0 < k" and "k \<le> unat (ref_count (descs s p))"
  shows "if k < unat (ref_count (descs s p))
    then umap_find (ex_tasks ((ExecutorFreeTask i ^^ k) s)) i = Some p \<and> signals ((ExecutorFreeTask i ^^ k) s) = signals s
    else umap_find (ex_tasks ((ExecutorFreeTask i ^^ k) s)) i = None \<and>
      signals ((ExecutorFreeTask i ^^ k) s) = signals s @ (if is_running (descs s p) then [- pid (descs s p)] else [])"
  using assms
proof (induction k arbitrary: s)
  case 0
  then show ?case by simp
next
  case (Suc k)
  let ?s = "ExecutorFreeTask i s"
  have "ref_count (descs s p) \<noteq> 0" using Suc.prems(3) by auto
  then have dec: "unat (ref_count (descs s p) - 1) = unat (ref_count (descs s p)) - 1"
    by (simp add: unat_minus_one)
  show ?case
  proof (cases "ref_count (descs s p) - 1 = 0")
    case True
    then have "unat (ref_count (descs s p)) = 1" using dec \<open>ref_count (descs s p) \<noteq> 0\<close> by simp
    with Suc.prems True show ?thesis
      by (auto simp: ExecutorFreeTask_def FreeTask_locked_def upd_desc_def KillTask_def umap.look_del Let_def)
  next
    case False
    then have pos: "0 < ref_count (descs s p) - 1" by (simp only: word_neq_0_conv)
    then have more: "1 < unat (ref_count (descs s p))" unfolding word_less_nat_alt dec by simp
    from pos have s: "?s = upd_desc p (\<lambda>d. d\<lparr>ref_count := ref_count d - 1\<rparr>) s"
      using Suc.prems(1) by (simp add: ExecutorFreeTask_def FreeTask_locked_def upd_desc_def Let_def)
    show ?thesis
    proof (cases "k = 0")
      case True
      with more Suc.prems(1) show ?thesis by (simp add: s upd_desc_def)
    next
      case k: False
      have f: "umap_find (ex_tasks ?s) i = Some p" "k \<le> unat (ref_count (descs ?s p))"
        "is_running (descs ?s p) = is_running (descs s p)" "pid (descs ?s p) = pid (descs s p)"
        "signals ?s = signals s" "(ExecutorFreeTask i ^^ Suc k) s = (ExecutorFreeTask i ^^ k) ?s"
        using Suc.prems dec by (simp_all add: s upd_desc_def funpow_swap1)
      have "Suc k < unat (ref_count (descs s p)) \<longleftrightarrow> k < unat (ref_count (descs ?s p))"
        using dec more by (simp add: s upd_desc_def) linarith
      with Suc.IH[OF f(1) _ f(2)] k show ?thesis unfolding f by simp
    qed
  qed
qed

theorem free_task_last_reference_witness:
  "signals ((ExecutorFreeTask 1 ^^ 2) (snd (TryAddTaskRef 1 demo_queued))) =
     signals (snd (TryAddTaskRef 1 demo_queued)) @ [- 100]"
  using free_task_last_reference[of "snd (TryAddTaskRef 1 demo_queued)" 1 0 2]
  by (simp add: TryAddTaskRef_def demo_queued_fields umap_find_def upd_desc_def blank_desc_def)

text \<open>
  The timer drops exactly the tasks that completed more than a minute ago: a running task
  stays in the table, as does a completed one within the minute, and the order is kept.
\<close>

theorem timer_clean_exact:
  "ex_tasks (OnTimerClean now s) =
     filter (\<lambda>(k, p). is_running (descs s p) \<or> now \<le> completed_tp (descs s p) + sec 60) (ex_tasks s) \<and>
   descs (OnTimerClean now s) = descs s \<and> ex_running_tasks (OnTimerClean now s) = ex_running_tasks s"
  by (auto simp: OnTimerClean_def not_less intro!: filter_cong)

text \<open>
  If the completion event resets itself after a wait, only the first of two waiters is
  served: after one successful wait for a completed task a second one reports the task as still
  running, although it has completed.
\<close>

theorem second_waiter_starves:
  assumes "umap_find (ex_tasks s) i = Some p" and "completion_event (descs s p)"
    and "desc_task (descs s p) = Some t"
  shows "\<exists>s1. WaitForTask True i (\<lambda>u. u) s = ((Some t, Exec_Unknown), s1) \<and>
    fst (WaitForTask True i (\<lambda>u. u) s1) = (None, Exec_Running)"
  using assms by (simp add: WaitForTask_def WaitForTask_wait_def upd_desc_def)

theorem second_waiter_starves_witness:
  "\<exists>s1. WaitForTask True 1 (\<lambda>u. u) (upd_desc 0 (\<lambda>d. d\<lparr>completion_event := True\<rparr>) demo_queued)
      = ((Some ''task'', Exec_Unknown), s1) \<and> fst (WaitForTask True 1 (\<lambda>u. u) s1) = (None, Exec_Running)"
  by (rule second_waiter_starves[of _ _ 0]) (simp_all add: demo_queued_fields umap_find_def upd_desc_def)

text \<open>
  The exit callback looks a task up by its process id alone: if an earlier entry of the
  table carries the same process id (a completed task whose id the system has given out again), the
  exit is booked on that entry and the later task stays marked as running.
\<close>

theorem reused_pid_misattributed:
  assumes "ex_tasks s = xs @ (j, q) # ys" and "\<exists>(i, p) \<in> set xs. pid (descs s p) = child"
    and "q \<notin> snd ` set xs"
  shows "descs (snd (OnExitCallback_locked child now s)) q = descs s q"
proof -
  obtain a b where f: "find (\<lambda>(k, p). pid (descs s p) = child) xs = Some (a, b)"
    using assms(2) by (cases "find (\<lambda>(k, p). pid (descs s p) = child) xs") (auto simp: find_None_iff)
  then have "b \<noteq> q" using assms(3) by (auto dest!: find_SomeD simp: image_iff)
  moreover have "find (\<lambda>(k, p). pid (descs s p) = child) (xs @ ys') = Some (a, b)" for ys'
    using f by (induction xs) auto
  ultimately show ?thesis
    by (simp add: OnExitCallback_locked_def assms(1) upd_desc_def Let_def)
qed

definition demo_reused :: "string Executor" where
  "demo_reused = snd (TryQueueTask 8 ''new'' ''gcc'' 100 50 (2 ^ 40) (demo_queued\<lparr>children := []\<rparr>))"

theorem reused_pid_misattributed_witness:
  "descs (snd (OnExitCallback_locked 100 60 demo_reused)) 1 = descs demo_reused 1"
proof (rule reused_pid_misattributed)
  show "ex_tasks demo_reused = [(1, 0)] @ (2, 1) # []"
    by (simp add: demo_reused_def demo_queued_simps Let_def)
  show "\<exists>(i, p) \<in> set [(1 :: u64, 0 :: desc_ptr)]. pid (descs demo_reused p) = 100"
    by (simp add: demo_reused_def demo_queued_simps Let_def)
qed simp

end
