(* ===== verification/CxxTask.thy ===== *)
theory CxxTask
  imports Tools Tokens SchedulerService
begin

text \<open>
  \<open>daemon/cloud/compile_task/cxx_task.{h,cpp}\<close>, \<open>daemon/cloud/compilers.{h,cpp}\<close> and the digests of
  \<open>daemon/local/dist_task/cxx_task.cpp\<close>: one compilation on a servant.

  zstd and blake3 are parameters (\<open>compress\<close>, \<open>decompress\<close>, \<open>blake3\<close> on the concatenated input);
  the file system (which compilers exist, the files a compilation leaves in its directory) is an
  argument. \<open>Any\<close> is the message it packs.
\<close>

section \<open>Definitions\<close>

subsection \<open>Digests\<close>

text \<open>\<open>Blake3\<close> of a list hashes its parts one after the other.\<close>

definition Blake3 :: "(string \<Rightarrow> string) \<Rightarrow> string list \<Rightarrow> string" where
  "Blake3 blake3 parts = blake3 (concat parts)"

definition cxx_key :: "(string \<Rightarrow> string) \<Rightarrow> string \<Rightarrow> string \<Rightarrow> string \<Rightarrow> string \<Rightarrow> string" where
  "cxx_key blake3 prefix compiler args source_digest =
     prefix @ EncodeHex (Blake3 blake3 [compiler, args, source_digest]) False"

subsection \<open>Compilers\<close>

record Compilers =
  compilers :: "EnviromentDesc list"
  compiler_paths :: "(string, string) umap"

definition kSupportedCompilers :: "string list" where
  "kSupportedCompilers = [''gcc'', ''g++'']"

text \<open>
  \<open>GetPathHasCompiler\<close> (the path resolves to an executable) and the content of a file are the
  arguments \<open>resolve\<close> and \<open>content_of\<close>.
\<close>

definition SearchCompiler :: "(string \<Rightarrow> string option) \<Rightarrow> string \<Rightarrow> string list" where
  "SearchCompiler resolve dir =
     List.map_filter (\<lambda>compiler.
       resolve (if dir = [] \<or> last dir = CHR ''/'' then dir @ compiler else dir @ ''/'' @ compiler))
       kSupportedCompilers"

definition TryGetFileDigest :: "(string \<Rightarrow> string) \<Rightarrow> (string \<Rightarrow> string option) \<Rightarrow> string \<Rightarrow> string option" where
  "TryGetFileDigest blake3 content_of path =
     map_option (\<lambda>c. EncodeHex (Blake3 blake3 [c]) False) (content_of path)"

definition AddEnvTo ::
  "(string \<Rightarrow> string) \<Rightarrow> (string \<Rightarrow> string option) \<Rightarrow> string \<Rightarrow> Compilers \<Rightarrow> Compilers" where
  "AddEnvTo blake3 content_of path found =
     (case TryGetFileDigest blake3 content_of path of
        None \<Rightarrow> found
      | Some digest \<Rightarrow>
          if umap_find (compiler_paths found) digest = None
          then found\<lparr>compiler_paths := umap_set digest path (compiler_paths found),
                     compilers := compilers found @ [\<lparr>compiler_digest = digest\<rparr>]\<rparr>
          else found)"

text \<open>\<open>OnTimerRescan\<close>: the directories of \<open>PATH\<close>, then those of the flag, into a fresh table.\<close>

definition OnTimerRescan ::
  "(string \<Rightarrow> string) \<Rightarrow> (string \<Rightarrow> string option) \<Rightarrow> (string \<Rightarrow> string option) \<Rightarrow> string \<Rightarrow> string
     \<Rightarrow> Compilers \<Rightarrow> Compilers" where
  "OnTimerRescan blake3 resolve content_of path_env compiler_dir_path old =
     fold (\<lambda>dir found. fold (AddEnvTo blake3 content_of) (SearchCompiler resolve dir) found)
       (Split_char path_env CHR '':'' True @ Split_char compiler_dir_path CHR '':'' True)
       \<lparr>compilers = [], compiler_paths = []\<rparr>"

definition TryGetPath :: "EnviromentDesc \<Rightarrow> Compilers \<Rightarrow> string option" where
  "TryGetPath env c = umap_find (compiler_paths c) (compiler_digest env)"

subsection \<open>Paths inside an object file\<close>

record Location =
  loc_position :: u32
  loc_length :: u32
  loc_suffix :: u32

definition PATH_MAX :: nat where
  "PATH_MAX = 4096"

text \<open>
  The loop of \<open>FindPathLocations\<close> from the offset \<open>start\<close>. \<open>None\<close>: the loop makes no progress and
  never ends (only for a prefix that is empty or begins with a null byte).
\<close>

function location_loop :: "string \<Rightarrow> string \<Rightarrow> nat \<Rightarrow> Location list option" where
  "location_loop content prefix start =
     (case find_sub prefix (drop start content) of
        None \<Rightarrow> Some []
      | Some d \<Rightarrow>
          (let pos = start + d in
           if length content \<le> pos then Some []
           else
             (let fin = (case find_sub [CHR 0x00] (drop pos content) of
                           None \<Rightarrow> length content | Some e \<Rightarrow> pos + e)
              in if fin \<le> start then None
                 else if fin = length content \<or> fin - pos > PATH_MAX then location_loop content prefix fin
                 else map_option ((#) \<lparr>loc_position = of_nat pos, loc_length = of_nat (fin - pos),
                                       loc_suffix = of_int (int (fin - pos) - int (length prefix))\<rparr>)
                        (location_loop content prefix fin))))"
  by pat_completeness auto
termination
  by (relation "measure (\<lambda>(content, prefix, start). length content - start)") auto

declare location_loop.simps [simp del]

definition FindPathLocations :: "string \<Rightarrow> string \<Rightarrow> Location list option" where
  "FindPathLocations content prefix = location_loop content prefix 0"

subsection \<open>The task\<close>

datatype CompressType = COMPRESS_TYPE_UNKNOWN | COMPRESS_TYPE_ZSTD

record QueueCxxTaskRequest =
  q_token :: string
  q_task_grant_id :: u64
  q_env_desc :: EnviromentDesc
  q_source_path :: string
  q_args :: string
  q_compress_type :: CompressType
  q_fill_cache :: bool

text \<open>
  \<open>write_cache_future\<close> is the value the future will have, if there is one; \<open>work_dir\<close> the path of
  the task's directory; \<open>extra_info\<close> the packed \<open>CxxExtraInfo\<close>, if any.
\<close>

record CxxCompileTask =
  exit_code :: int
  task_stdout :: string
  task_stderr :: string
  write_cache_future :: "bool option"
  task_env_desc :: EnviromentDesc
  cmdline :: string
  args :: string
  source :: string
  source_path :: string
  source_digest :: string
  work_dir :: string
  temp_sub_dir :: string
  file_pack :: string
  extra_info :: "(string, Location list) umap option"

definition kRejectMacros :: "string list" where
  "kRejectMacros = [''__TIME__'', ''__DATE__'', ''__TIMESTAMP__'']"

text \<open>
  \<open>PrepareCachePocoTask\<close>: the first \<open>set_value\<close> counts (a second one throws), so the value is false
  when the source contains one of the macros, and true otherwise. It runs in another thread and reads
  \<open>source_\<close>, which \<open>GetSource\<close> moves away; it is taken to be done by then.
\<close>

definition PrepareCachePocoTask :: "string \<Rightarrow> bool" where
  "PrepareCachePocoTask src \<longleftrightarrow> \<not> list_ex (\<lambda>macro. find_sub macro src \<noteq> None) kRejectMacros"

definition PrepareCache :: "CxxCompileTask \<Rightarrow> CxxCompileTask" where
  "PrepareCache t =
     (if list_all (\<lambda>macro. find_sub (''-D'' @ macro @ ''='') (args t) \<noteq> None) kRejectMacros then t
      else t\<lparr>write_cache_future := Some (PrepareCachePocoTask (source t))\<rparr>)"

definition Prepare ::
  "(string \<Rightarrow> string) \<Rightarrow> (string \<Rightarrow> string option) \<Rightarrow> Compilers \<Rightarrow> QueueCxxTaskRequest \<Rightarrow> string \<Rightarrow> CxxCompileTask
     \<Rightarrow> StatusCode \<times> CxxCompileTask" where
  "Prepare blake3 decompress comps request content t =
     (case TryGetPath (q_env_desc request) comps of
        None \<Rightarrow> (NOT_FOUND, t)
      | Some compiler \<Rightarrow>
          if q_compress_type request \<noteq> COMPRESS_TYPE_ZSTD then (NOT_FOUND, t)
          else (case decompress content of
                  None \<Rightarrow> (NOT_FOUND, t)
                | Some decompressed_source \<Rightarrow>
                    (let t1 = t\<lparr>source := decompressed_source, task_env_desc := q_env_desc request,
                                source_path := q_source_path request, args := q_args request,
                                source_digest := EncodeHex (Blake3 blake3 [decompressed_source]) False\<rparr>;
                         t2 = (if q_fill_cache request then PrepareCache t1 else t1);
                         t3 = t2\<lparr>temp_sub_dir := source_digest t2\<rparr>
                     in (StatusOK,
                         t3\<lparr>cmdline := compiler @ '' '' @ args t3 @ '' -o '' @ work_dir t3 @ ''/''
                                        @ temp_sub_dir t3 @ ''/output.o''\<rparr>))))"

definition GetCacheKey :: "(string \<Rightarrow> string) \<Rightarrow> CxxCompileTask \<Rightarrow> string option" where
  "GetCacheKey blake3 t =
     (case write_cache_future t of
        None \<Rightarrow> None
      | Some b \<Rightarrow>
          if b then None
          else Some (cxx_key blake3 ''distribuild-cxx-cache-'' (compiler_digest (task_env_desc t)) (args t) (source_digest t)))"

definition GetDigest :: "(string \<Rightarrow> string) \<Rightarrow> CxxCompileTask \<Rightarrow> string" where
  "GetDigest blake3 t =
     cxx_key blake3 ''distribuild-cxx-digest-'' (compiler_digest (task_env_desc t)) (args t) (source_digest t)"

record CompileOutput =
  out_files :: "(string \<times> string) list"
  out_extra_info :: "(string, Location list) umap option"

text \<open>
  The loop over the files of the directory. \<open>filename.substr\<close> throws when the name is shorter than
  the prefix; the check that it starts with it only logs.
\<close>

fun output_loop ::
  "string \<Rightarrow> string \<Rightarrow> (string \<times> string) list \<Rightarrow> (string \<times> string) list \<Rightarrow> (string, Location list) umap
     \<Rightarrow> fault + ((string \<times> string) list \<times> (string, Location list) umap) option" where
  "output_loop work prefix [] acc infos = Inr (Some (acc, infos))"
| "output_loop work prefix ((filename, content) # rest) acc infos =
     (if length filename < length prefix then Inl OutOfRange
      else
        (let suffix = drop (length prefix) filename
         in case FindPathLocations content (work @ ''/'' @ prefix) of
              None \<Rightarrow> Inr None
            | Some locs \<Rightarrow> output_loop work prefix rest (acc @ [(suffix, content)]) (umap_set suffix locs infos)))"

text \<open>\<open>None\<close> inside the result stands for a call that never returns.\<close>

definition GetOutput ::
  "(string \<times> string) list \<Rightarrow> int \<Rightarrow> CxxCompileTask \<Rightarrow> fault + CompileOutput option" where
  "GetOutput output_files code t =
     (if code \<noteq> 0 then Inr (Some \<lparr>out_files = [], out_extra_info = None\<rparr>)
      else bind_fault (output_loop (work_dir t) (temp_sub_dir t @ ''/output'') output_files [] []) (\<lambda>r.
           Inr (map_option (\<lambda>(files, infos). \<lparr>out_files = files, out_extra_info = Some infos\<rparr>) r)))"

fun compress_files :: "(string \<Rightarrow> string option) \<Rightarrow> (string \<times> string) list \<Rightarrow> fault + (string \<times> string) list" where
  "compress_files compress [] = Inr []"
| "compress_files compress ((filename, content) # rest) =
     (case compress content of None \<Rightarrow> Inl BadOptional
      | Some c \<Rightarrow> bind_fault (compress_files compress rest) (\<lambda>fs. Inr ((filename, c) # fs)))"

record CacheEntry =
  ce_exit_code :: int
  ce_stdout :: string
  ce_stderr :: string
  ce_extra_info :: "(string, Location list) umap option"
  ce_packed :: string

text \<open>The result carries the entry handed to the cache writer, if any.\<close>

definition OnCompleted ::
  "(string \<Rightarrow> string) \<Rightarrow> (string \<Rightarrow> string option) \<Rightarrow> (string \<times> string) list \<Rightarrow> int \<Rightarrow> string \<Rightarrow> string
     \<Rightarrow> CxxCompileTask \<Rightarrow> fault + (CxxCompileTask \<times> (string \<times> CacheEntry) option) option" where
  "OnCompleted blake3 compress output_files code std_out std_err t =
     (let t1 = t\<lparr>exit_code := code, task_stdout := std_out, task_stderr := std_err\<rparr>
      in bind_fault (GetOutput output_files code t1) (\<lambda>r.
         case r of None \<Rightarrow> Inr None
         | Some output \<Rightarrow>
             (let t2 = t1\<lparr>extra_info := out_extra_info output\<rparr>
              in bind_fault (compress_files compress (out_files output)) (\<lambda>files.
                 let t3 = t2\<lparr>file_pack := PackFiles files\<rparr>;
                     written = (case GetCacheKey blake3 t3 of None \<Rightarrow> None
                                | Some key \<Rightarrow>
                                    if code = 0 then Some (key, \<lparr>ce_exit_code = exit_code t3,
                                       ce_stdout = task_stdout t3, ce_stderr = task_stderr t3,
                                       ce_extra_info = extra_info t3, ce_packed = file_pack t3\<rparr>)
                                    else None)
                 in Inr (Some (t3, written))))))"

subsection \<open>The local side of the digests\<close>

record CxxDistTask =
  cache_control :: bool
  dt_requester_pid :: int
  dt_env_desc :: EnviromentDesc
  dt_source_path :: string
  dt_source_digest :: string
  dt_args :: string
  dt_source :: string

definition CacheKey :: "(string \<Rightarrow> string) \<Rightarrow> CxxDistTask \<Rightarrow> string" where
  "CacheKey blake3 t =
     cxx_key blake3 ''distribuild-cxx-cache-'' (compiler_digest (dt_env_desc t)) (dt_args t) (dt_source_digest t)"

definition DistGetDigest :: "(string \<Rightarrow> string) \<Rightarrow> CxxDistTask \<Rightarrow> string" where
  "DistGetDigest blake3 t =
     cxx_key blake3 ''distribuild-cxx-digest-'' (compiler_digest (dt_env_desc t)) (dt_args t) (dt_source_digest t)"

section \<open>Digests\<close>

lemma cxx_key_inj:
  assumes "length c1 = length c2" and "length d1 = length d2"
    and "blake3 (c1 @ a1 @ d1) = blake3 (c2 @ a2 @ d2) \<Longrightarrow> c1 @ a1 @ d1 = c2 @ a2 @ d2"
  shows "cxx_key blake3 p c1 a1 d1 = cxx_key blake3 p c2 a2 d2 \<longleftrightarrow> c1 = c2 \<and> a1 = a2 \<and> d1 = d2"
proof
  assume "cxx_key blake3 p c1 a1 d1 = cxx_key blake3 p c2 a2 d2"
  then have "blake3 (c1 @ a1 @ d1) = blake3 (c2 @ a2 @ d2)"
    by (simp add: cxx_key_def Blake3_def hex.enc_inj)
  then have "c1 @ a1 @ d1 = c2 @ a2 @ d2" by (rule assms(3))
  with assms(1,2) show "c1 = c2 \<and> a1 = a2 \<and> d1 = d2" by (simp add: append_eq_append_conv)
qed simp

section \<open>Compilers\<close>

text \<open>
  The table of a rescan: the advertised digests are the keys of the path table, each once, and
  every path has a file with that digest.
\<close>

definition compilers_inv :: "(string \<Rightarrow> string) \<Rightarrow> (string \<Rightarrow> string option) \<Rightarrow> Compilers \<Rightarrow> bool" where
  "compilers_inv blake3 content_of c \<longleftrightarrow>
     map compiler_digest (compilers c) = map fst (compiler_paths c) \<and> umap_wf (compiler_paths c) \<and>
     (\<forall>(d, path) \<in> set (compiler_paths c). TryGetFileDigest blake3 content_of path = Some d)"

lemma AddEnvTo_inv:
  assumes "compilers_inv blake3 content_of c"
  shows "compilers_inv blake3 content_of (AddEnvTo blake3 content_of path c)"
proof (cases "TryGetFileDigest blake3 content_of path")
  case None
  with assms show ?thesis by (simp add: AddEnvTo_def)
next
  case (Some d)
  show ?thesis
  proof (cases "umap_find (compiler_paths c) d")
    case None
    then have "umap_set d path (compiler_paths c) = compiler_paths c @ [(d, path)]" by (rule umap_set_fresh)
    moreover have "umap_wf (umap_set d path (compiler_paths c))"
      using assms by (simp add: compilers_inv_def umap.ok_put)
    ultimately show ?thesis using assms Some None by (auto simp: AddEnvTo_def compilers_inv_def)
  qed (use assms Some in \<open>simp add: AddEnvTo_def\<close>)
qed

lemma fold_inv: "P s \<Longrightarrow> (\<And>x s. P s \<Longrightarrow> P (f x s)) \<Longrightarrow> P (fold f xs s)"
  by (induction xs arbitrary: s) auto

lemma OnTimerRescan_inv:
  "compilers_inv blake3 content_of (OnTimerRescan blake3 resolve content_of path_env flag old)"
  unfolding OnTimerRescan_def
  by (intro fold_inv[where P = "compilers_inv blake3 content_of"] AddEnvTo_inv)
     (simp_all add: compilers_inv_def umap.ok_emp)

text \<open>Every compiler the scan comes across is in the table.\<close>

definition advertises :: "Compilers \<Rightarrow> string \<Rightarrow> bool" where
  "advertises c digest \<longleftrightarrow> digest \<in> compiler_digest ` set (compilers c)"

lemma AddEnvTo_mono: "advertises c d \<Longrightarrow> advertises (AddEnvTo blake3 content_of path c) d"
  by (auto simp: AddEnvTo_def advertises_def split: option.split)

lemma AddEnvTo_adds:
  assumes "compilers_inv blake3 content_of c" and "TryGetFileDigest blake3 content_of path = Some d"
  shows "advertises (AddEnvTo blake3 content_of path c) d"
proof (cases "umap_find (compiler_paths c) d")
  case None
  with assms(2) show ?thesis by (simp add: AddEnvTo_def advertises_def)
next
  case (Some q)
  then have "d \<in> set (map compiler_digest (compilers c))"
    using assms(1) by (auto simp: compilers_inv_def dest!: umap_find_SomeD intro: rev_image_eqI)
  with Some assms(2) show ?thesis by (simp add: AddEnvTo_def advertises_def)
qed

lemma fold_reaches:
  assumes "x \<in> set xs" and "I s" and "\<And>x s. I s \<Longrightarrow> I (f x s)" and "\<And>s. I s \<Longrightarrow> Q (f x s)"
    and "\<And>y s. Q s \<Longrightarrow> Q (f y s)"
  shows "Q (fold f xs s)"
  using assms(1,2)
proof (induction xs arbitrary: s)
  case (Cons y ys)
  show ?case
  proof (cases "x = y")
    case True
    with assms(4)[OF Cons.prems(2)] show ?thesis by (simp add: fold_inv[where P = Q] assms(5))
  next
    case False
    with Cons show ?thesis by (simp add: assms(3))
  qed
qed simp

lemma OnTimerRescan_complete:
  assumes "dir \<in> set (Split_char path_env CHR '':'' True) \<union> set (Split_char flag CHR '':'' True)"
    and "path \<in> set (SearchCompiler resolve dir)" and "TryGetFileDigest blake3 content_of path = Some d"
  shows "advertises (OnTimerRescan blake3 resolve content_of path_env flag old) d"
  unfolding OnTimerRescan_def
proof (rule fold_reaches[where I = "compilers_inv blake3 content_of" and x = dir])
  show "dir \<in> set (Split_char path_env CHR '':'' True @ Split_char flag CHR '':'' True)" using assms(1) by simp
  show "compilers_inv blake3 content_of \<lparr>compilers = [], compiler_paths = []\<rparr>"
    by (simp add: compilers_inv_def umap.ok_emp)
  show "compilers_inv blake3 content_of s \<Longrightarrow>
      compilers_inv blake3 content_of (fold (AddEnvTo blake3 content_of) (SearchCompiler resolve y) s)" for y s
    by (erule fold_inv) (rule AddEnvTo_inv)
  show "compilers_inv blake3 content_of s \<Longrightarrow>
      advertises (fold (AddEnvTo blake3 content_of) (SearchCompiler resolve dir) s) d" for s
    by (rule fold_reaches[where I = "compilers_inv blake3 content_of", OF assms(2)])
       (auto intro: AddEnvTo_inv AddEnvTo_mono AddEnvTo_adds assms(3))
  show "advertises s d \<Longrightarrow> advertises (fold (AddEnvTo blake3 content_of) (SearchCompiler resolve y) s) d" for y s
    by (erule fold_inv[where P = "\<lambda>s. advertises s d"]) (rule AddEnvTo_mono)
qed

section \<open>The output of a compilation\<close>

lemma output_loop_files:
  "output_loop work prefix fs acc infos = Inr (Some (files, infos')) \<Longrightarrow>
     files = acc @ map (\<lambda>(f, c). (drop (length prefix) f, c)) fs"
  by (induction work prefix fs acc infos rule: output_loop.induct) (auto simp: Let_def split: if_splits option.splits)

lemma compress_files_Inr:
  "compress_files compress fs = Inr cs \<Longrightarrow> cs = map (\<lambda>(f, c). (f, the (compress c))) fs"
  by (induction compress fs arbitrary: cs rule: compress_files.induct) (auto split: option.splits)

lemma OnCompleted_result:
  assumes "OnCompleted blake3 compress fs code std_out std_err t = Inr (Some (t', w))"
  shows "exit_code t' = code \<and> task_stdout t' = std_out \<and> task_stderr t' = std_err \<and>
    (code = 0 \<longrightarrow> file_pack t' = PackFiles (map (\<lambda>(f, c). (drop (length (temp_sub_dir t @ ''/output'')) f, the (compress c))) fs)) \<and>
    (w \<noteq> None \<longleftrightarrow> code = 0 \<and> write_cache_future t = Some False)"
  using assms
  by (auto simp: OnCompleted_def GetOutput_def GetCacheKey_def Let_def comp_def split_def
      dest!: output_loop_files compress_files_Inr split: if_splits option.splits)

section \<open>Paths inside an object file\<close>

lemma find_sub_Some:
  "find_sub pat s = Some d \<Longrightarrow> d \<le> length s \<and> StartWith (drop d s) pat"
proof (induction s arbitrary: d)
  case Nil
  then show ?case by (auto simp: StartWith_iff split: if_splits)
next
  case (Cons x s)
  show ?case
  proof (cases "StartWith (x # s) pat")
    case True
    with Cons.prems show ?thesis by simp
  next
    case False
    with Cons.prems obtain e where "find_sub pat s = Some e" "d = Suc e" by auto
    with Cons.IH[of e] show ?thesis by simp
  qed
qed

definition location_ok :: "string \<Rightarrow> string \<Rightarrow> Location \<Rightarrow> bool" where
  "location_ok content prefix l \<longleftrightarrow>
     (let pos = unat (loc_position l); n = unat (loc_length l)
      in StartWith (drop pos content) prefix \<and> n \<le> PATH_MAX \<and> pos + n < length content \<and>
         content ! (pos + n) = CHR 0x00 \<and> CHR 0x00 \<notin> set (take n (drop pos content)))"

text \<open>The end of a path that starts at \<open>pos\<close>: the next null byte, or the end of the file.\<close>

definition path_end :: "string \<Rightarrow> nat \<Rightarrow> nat" where
  "path_end content pos =
     (case find_sub [CHR 0x00] (drop pos content) of None \<Rightarrow> length content | Some e \<Rightarrow> pos + e)"

lemma path_end_bounds:
  assumes "pos < length content"
  shows "pos \<le> path_end content pos \<and> path_end content pos \<le> length content"
  using assms find_sub_Some[of "[CHR 0x00]" "drop pos content"]
  by (auto simp: path_end_def split: option.splits)

lemma path_end_null:
  assumes "path_end content pos < length content"
  shows "content ! path_end content pos = CHR 0x00 \<and>
    CHR 0x00 \<notin> set (take (path_end content pos - pos) (drop pos content))"
proof -
  obtain e where e: "find_sub [CHR 0x00] (drop pos content) = Some e" "path_end content pos = pos + e"
    using assms by (auto simp: path_end_def split: option.splits)
  from find_sub_char_Some[OF e(1)] have "e < length (drop pos content)"
    "drop pos content = take e (drop pos content) @ CHR 0x00 # drop (Suc e) (drop pos content)"
    "CHR 0x00 \<notin> set (take e (drop pos content))" by blast+
  moreover from this have "drop pos content ! e = CHR 0x00"
    by (metis append_take_drop_id length_take min.absorb4 nth_append_length)
  ultimately show ?thesis using e(2) by simp
qed

lemma path_end_after:
  assumes "StartWith (drop pos content) prefix" and "prefix \<noteq> []" and "hd prefix \<noteq> CHR 0x00"
    and "pos < length content"
  shows "pos < path_end content pos"
proof -
  have "hd (drop pos content) \<noteq> CHR 0x00" using assms(1-3) by (auto simp: StartWith_iff)
  then have "path_end content pos \<noteq> pos"
    using path_end_null[of content pos] assms(4) by (auto simp: hd_drop_conv_nth)
  with path_end_bounds[OF assms(4)] show ?thesis by simp
qed

lemma location_loop_eq:
  "location_loop content prefix start =
     (case find_sub prefix (drop start content) of
        None \<Rightarrow> Some []
      | Some d \<Rightarrow>
          (let pos = start + d; fin = path_end content pos
           in if length content \<le> pos then Some []
              else if fin \<le> start then None
              else if fin = length content \<or> fin - pos > PATH_MAX then location_loop content prefix fin
              else map_option ((#) \<lparr>loc_position = of_nat pos, loc_length = of_nat (fin - pos),
                                    loc_suffix = of_int (int (fin - pos) - int (length prefix))\<rparr>)
                     (location_loop content prefix fin)))"
  by (subst location_loop.simps) (unfold path_end_def Let_def, rule refl)

lemma location_loop_sound:
  assumes "prefix \<noteq> []" and "hd prefix \<noteq> CHR 0x00" and "length content < 2 ^ 32"
  shows "\<exists>ls. location_loop content prefix start = Some ls \<and> (\<forall>l \<in> set ls. location_ok content prefix l)"
proof (induction "length content - start" arbitrary: start rule: less_induct)
  case less
  show ?case
  proof (cases "find_sub prefix (drop start content)")
    case None
    then show ?thesis by (simp add: location_loop_eq[of content prefix start])
  next
    case (Some d)
    define pos where "pos = start + d"
    define fin where "fin = path_end content pos"
    have sw: "StartWith (drop pos content) prefix"
      using find_sub_Some[OF Some] by (simp add: pos_def add.commute)
    show ?thesis
    proof (cases "length content \<le> pos")
      case True
      with Some show ?thesis by (simp add: location_loop_eq[of content prefix start] pos_def)
    next
      case False
      then have fin: "pos < fin" "fin \<le> length content" "start < fin"
        using path_end_after[OF sw assms(1,2)] path_end_bounds[of pos content] by (auto simp: fin_def pos_def)
      then have "length content - fin < length content - start" by simp
      from less[OF this] obtain ls where ls: "location_loop content prefix fin = Some ls"
        "\<forall>l \<in> set ls. location_ok content prefix l" by blast
      let ?l = "\<lparr>loc_position = of_nat pos, loc_length = of_nat (fin - pos),
                 loc_suffix = of_int (int (fin - pos) - int (length prefix))\<rparr>"
      have step: "location_loop content prefix start =
          (if fin = length content \<or> fin - pos > PATH_MAX then Some ls else Some (?l # ls))"
        using Some False fin ls(1)
        by (simp add: location_loop_eq[of content prefix start] pos_def[symmetric] fin_def[symmetric] Let_def)
      have "location_ok content prefix ?l" if "fin \<noteq> length content" "fin - pos \<le> PATH_MAX"
      proof -
        have u: "unat (of_nat pos :: u32) = pos" "unat (of_nat (fin - pos) :: u32) = fin - pos"
          using fin assms(3) by (intro unat_of_nat_u32; linarith)+
        show ?thesis
          unfolding location_ok_def Let_def Location.simps u
          using that sw fin path_end_null[of content pos] by (auto simp: fin_def[symmetric])
      qed
      with step ls(2) show ?thesis by auto
    qed
  qed
qed

end
