(* ===== verification/ChunkStream.thy ===== *)
theory ChunkStream
  imports Prelude
begin

text \<open>
  Streams of chunks. The source cut into pieces of \<open>FLAGS_chunk_size\<close> bytes is sent in the same way
  by \<open>CxxDistTask::StartTask\<close>, \<open>DaemonServiceImpl::WaitForTask\<close>, the cache writer and the cache
  service; each receiver appends the pieces it reads. The locale \<open>chunk_stream\<close> is the contract
  between a sender and a receiver of such a stream.
\<close>

section \<open>Cutting a file\<close>

text \<open>
  The loop \<open>for (i = 0; i < file.size(); i += FLAGS_chunk_size)\<close>, on what is left of the content. With
  a chunk size of 0 and a content that is not empty it never ends, which is the result \<open>None\<close>.
\<close>

function chunk_loop :: "u64 \<Rightarrow> string \<Rightarrow> string list option" where
  "chunk_loop chunk_size content =
     (if content = [] then Some []
      else if chunk_size = 0 then None
      else map_option ((#) (take (unat chunk_size) content)) (chunk_loop chunk_size (drop (unat chunk_size) content)))"
  by pat_completeness auto
termination
  by (relation "measure (\<lambda>(n, content). length content)") (auto simp: unat_gt_0)

declare chunk_loop.simps [simp del]

lemma chunk_loop_total:
  "0 < chunk_size \<Longrightarrow>
     \<exists>cs. chunk_loop chunk_size content = Some cs \<and> concat cs = content \<and>
          (\<forall>c \<in> set cs. c \<noteq> [] \<and> length c \<le> unat chunk_size)"
proof (induction "length content" arbitrary: content rule: less_induct)
  case less
  show ?case
  proof (cases "content = []")
    case True
    then show ?thesis by (simp add: chunk_loop.simps)
  next
    case False
    then have "length (drop (unat chunk_size) content) < length content"
      using less.prems by (simp add: word_less_nat_alt)
    from less.hyps[OF this less.prems] obtain cs where
      "chunk_loop chunk_size (drop (unat chunk_size) content) = Some cs" "concat cs = drop (unat chunk_size) content"
      "\<forall>c \<in> set cs. c \<noteq> [] \<and> length c \<le> unat chunk_size" by auto
    with False less.prems show ?thesis
      by (intro exI[of _ "take (unat chunk_size) content # cs"])
         (auto simp: chunk_loop.simps[of chunk_size content] word_less_nat_alt)
  qed
qed

lemma chunk_loop_diverges: "chunk_loop 0 content = None \<longleftrightarrow> content \<noteq> []"
  by (simp add: chunk_loop.simps)

section \<open>Sender and receiver\<close>

text \<open>
  \<open>head\<close> and \<open>data\<close> are the two kinds of frames; \<open>start\<close> is what the receiver does with a first
  frame (it may refuse), \<open>more\<close> with a later one, \<open>done\<close> when the stream has ended.
\<close>

locale chunk_stream =
  fixes head :: "'req \<Rightarrow> 'frame"
    and data :: "string \<Rightarrow> 'frame"
    and start :: "'frame \<Rightarrow> 'e + 'req"
    and more :: "'frame \<Rightarrow> 'e + string"
    and accepts :: "'req \<Rightarrow> bool"
  assumes start_head: "accepts r \<Longrightarrow> start (head r) = Inr r"
    and more_data: "more (data c) = Inr c"
begin

fun receive_rest :: "string \<Rightarrow> 'frame list \<Rightarrow> 'e + string" where
  "receive_rest content [] = Inr content"
| "receive_rest content (f # fs) = bind_fault (more f) (\<lambda>c. receive_rest (content @ c) fs)"

lemma receive_rest_data: "receive_rest content (map data cs) = Inr (content @ concat cs)"
  by (induction cs arbitrary: content) (simp_all add: more_data)

lemma receive_stream:
  assumes "accepts r" and "0 < chunk_size"
  shows "\<exists>cs. chunk_loop chunk_size content = Some cs \<and>
    bind_fault (start (head r)) (\<lambda>q. bind_fault (receive_rest [] (map data cs)) (\<lambda>f. Inr (q, f))) = Inr (r, content)"
  using chunk_loop_total[OF assms(2), of content] by (auto simp: start_head[OF assms(1)] receive_rest_data)

end

end
