(* ===== verification/CloudService.thy ===== *)
theory CloudService
  imports CxxTask Executor_Props ChunkStream
begin

text \<open>
  \<open>daemon/cloud/daemon_service_impl.{h,cpp}\<close>: the RPCs of a servant and its heartbeat. A stream is
  the list of its frames; the messages of \<open>daemon.proto\<close> are records, an unset sub-message is
  \<open>None\<close>. gRPC itself, and what the scheduler answers, are arguments.
\<close>

section \<open>Definitions\<close>

record DaemonServiceImpl =
  location :: string
  token_verifier :: TokenVerifier

definition DaemonServiceImpl_new :: "string \<Rightarrow> DaemonServiceImpl" where
  "DaemonServiceImpl_new loc = \<lparr>location = loc, token_verifier = \<lparr>recognized_tokens = []\<rparr>\<rparr>"

definition IsTokenAcceptable :: "string \<Rightarrow> DaemonServiceImpl \<Rightarrow> bool" where
  "IsTokenAcceptable token d = Verify (token_verifier d) token"

definition UpdateTokens :: "string list \<Rightarrow> DaemonServiceImpl \<Rightarrow> DaemonServiceImpl" where
  "UpdateTokens tokens d = d\<lparr>token_verifier := \<lparr>recognized_tokens = tokens\<rparr>\<rparr>"

subsection \<open>QueueCxxTask\<close>

record QueueCxxTaskRequestChunk =
  qc_request :: "QueueCxxTaskRequest option"
  qc_file_chunk :: string

definition queue_first :: "DaemonServiceImpl \<Rightarrow> QueueCxxTaskRequestChunk \<Rightarrow> StatusCode + QueueCxxTaskRequest" where
  "queue_first d chunk =
     (case qc_request chunk of
        None \<Rightarrow> Inl PERMISSION_DENIED
      | Some request \<Rightarrow>
          if qc_file_chunk chunk \<noteq> [] then Inl PERMISSION_DENIED
          else if \<not> IsTokenAcceptable (q_token request) d then Inl PERMISSION_DENIED
          else Inr request)"

definition queue_more :: "QueueCxxTaskRequestChunk \<Rightarrow> StatusCode + string" where
  "queue_more chunk = (if qc_request chunk \<noteq> None then Inl PERMISSION_DENIED else Inr (qc_file_chunk chunk))"

fun queue_rest :: "string \<Rightarrow> QueueCxxTaskRequestChunk list \<Rightarrow> StatusCode + string" where
  "queue_rest content [] = Inr content"
| "queue_rest content (chunk # chunks) = bind_fault (queue_more chunk) (\<lambda>c. queue_rest (content @ c) chunks)"

text \<open>The read loop: the request (\<open>None\<close> for an empty stream) and the file.\<close>

definition queue_read ::
  "DaemonServiceImpl \<Rightarrow> QueueCxxTaskRequestChunk list \<Rightarrow> StatusCode + (QueueCxxTaskRequest option \<times> string)" where
  "queue_read d chunks =
     (case chunks of
        [] \<Rightarrow> Inr (None, [])
      | chunk # rest \<Rightarrow>
          bind_fault (queue_first d chunk) (\<lambda>request.
          bind_fault (queue_rest [] rest) (\<lambda>content. Inr (Some request, content))))"

definition blank_task :: "string \<Rightarrow> CxxCompileTask" where
  "blank_task dir = \<lparr>exit_code = 0, task_stdout = [], task_stderr = [], write_cache_future = None,
     task_env_desc = \<lparr>compiler_digest = []\<rparr>, cmdline = [], args = [], source = [], source_path = [],
     source_digest = [], work_dir = dir, temp_sub_dir = [], file_pack = [], extra_info = None\<rparr>"

text \<open>
  The handler. \<open>dir\<close> is the directory made for the task; \<open>child\<close>, \<open>now\<close> and \<open>avail\<close> are what the
  executor reads from the system. The result has the id and the standard input of the process:
  \<open>GetSource\<close> moves the source out of the task.
\<close>

definition QueueCxxTask ::
  "(string \<Rightarrow> string) \<Rightarrow> (string \<Rightarrow> string option) \<Rightarrow> Compilers \<Rightarrow> string \<Rightarrow> int \<Rightarrow> time_point \<Rightarrow> u64
     \<Rightarrow> QueueCxxTaskRequestChunk list \<Rightarrow> DaemonServiceImpl \<Rightarrow> CxxCompileTask Executor
     \<Rightarrow> fault + (StatusCode \<times> (u64 \<times> string) option \<times> CxxCompileTask Executor)" where
  "QueueCxxTask blake3 decompress comps dir child now avail chunks d ex =
     (case queue_read d chunks of
        Inl code \<Rightarrow> Inr (code, None, ex)
      | Inr (None, content) \<Rightarrow> Inl NullPointer
      | Inr (Some request, content) \<Rightarrow>
          (case Prepare blake3 decompress comps request content (blank_task dir) of
             (code, t) \<Rightarrow>
               if code \<noteq> StatusOK then Inr (code, None, ex)
               else (case TryQueueTask (q_task_grant_id request) (t\<lparr>source := []\<rparr>) (cmdline t) child now avail ex of
                       (None, ex') \<Rightarrow> Inr (PERMISSION_DENIED, None, ex')
                     | (Some i, ex') \<Rightarrow> Inr (StatusOK, Some (i, source t), ex'))))"

subsection \<open>AddTaskRef and FreeTask\<close>

definition AddTaskRef ::
  "string \<Rightarrow> u64 \<Rightarrow> DaemonServiceImpl \<Rightarrow> 'task Executor \<Rightarrow> StatusCode \<times> 'task Executor" where
  "AddTaskRef token i d ex =
     (if \<not> IsTokenAcceptable token d then (PERMISSION_DENIED, ex)
      else case TryAddTaskRef i ex of (b, ex') \<Rightarrow> (if b then StatusOK else NOT_FOUND, ex'))"

definition CloudFreeTask ::
  "string \<Rightarrow> u64 \<Rightarrow> DaemonServiceImpl \<Rightarrow> 'task Executor \<Rightarrow> StatusCode \<times> 'task Executor" where
  "CloudFreeTask token i d ex =
     (if \<not> IsTokenAcceptable token d then (PERMISSION_DENIED, ex) else (StatusOK, ExecutorFreeTask i ex))"

subsection \<open>WaitForTask\<close>

datatype TaskStatus =
    TASK_STATUS_UNKNOWN
  | TASK_STATUS_RUNNING
  | TASK_STATUS_DONE
  | TASK_STATUS_FAILED
  | TASK_STATUS_NOT_FOUND

record WaitForTaskResponse =
  wr_task_status :: TaskStatus
  wr_exit_code :: int
  wr_output :: string
  wr_err :: string
  wr_extra_info :: "(string, Location list) umap option"

record WaitForTaskResponseChunk =
  wc_response :: "WaitForTaskResponse option"
  wc_file_chunk :: string

text \<open>
  \<open>others\<close> is what other threads do to the executor while this one waits. \<open>None\<close> for the frames:
  the loop that writes the file never ends. A description without a task cannot occur after a
  successful wait; it would be a null pointer.
\<close>

definition CloudWaitForTask ::
  "u64 \<Rightarrow> bool \<Rightarrow> (CxxCompileTask Executor \<Rightarrow> CxxCompileTask Executor) \<Rightarrow> string \<Rightarrow> u64 \<Rightarrow> CompressType list
     \<Rightarrow> DaemonServiceImpl \<Rightarrow> CxxCompileTask Executor
     \<Rightarrow> fault + (StatusCode \<times> WaitForTaskResponseChunk list option \<times> CxxCompileTask Executor)" where
  "CloudWaitForTask chunk_size autoreset others token i types d ex =
     (if \<not> IsTokenAcceptable token d then Inr (PERMISSION_DENIED, Some [], ex)
      else if types = [] then Inl OutOfRange
      else if hd types \<noteq> COMPRESS_TYPE_ZSTD then Inr (INVALID_ARGUMENT, Some [], ex)
      else
        (case WaitForTask autoreset i others ex of
           ((None, st), ex') \<Rightarrow> Inr (NOT_FOUND, Some [], ex')
         | ((Some t, st), ex') \<Rightarrow>
             (let response = \<lparr>wr_task_status = TASK_STATUS_DONE, wr_exit_code = exit_code t,
                              wr_output = task_stdout t, wr_err = task_stderr t, wr_extra_info = extra_info t\<rparr>
              in Inr (StatusOK,
                      map_option (\<lambda>cs. \<lparr>wc_response = Some response, wc_file_chunk = []\<rparr>
                                       # map (\<lambda>c. \<lparr>wc_response = None, wc_file_chunk = c\<rparr>) cs)
                        (chunk_loop chunk_size (file_pack t)), ex'))))"

subsection \<open>The heartbeat\<close>

definition kServantPriorityMap :: "(string, ServantPriority) umap" where
  "kServantPriorityMap = [(''user'', SERVANT_PRIORITY_USER), (''dedicated'', SERVANT_PRIORITY_DEDICATED)]"

definition DISTRIBUILD_VERSION :: u32 where
  "DISTRIBUILD_VERSION = 1"

record HeartbeatInputs =
  hi_scheduler_token :: string
  hi_servant_priority :: string
  hi_meminfo :: string
  hi_num_cpu_cores :: u64
  hi_current_load :: u64

text \<open>The request \<open>OnTimerHeartbeat\<close> sends; \<open>at\<close> throws for another priority.\<close>

definition heartbeat_request ::
  "(string \<Rightarrow> string) \<Rightarrow> HeartbeatInputs \<Rightarrow> Compilers \<Rightarrow> DaemonServiceImpl \<Rightarrow> CxxCompileTask Executor
     \<Rightarrow> fault + HeartBeatRequest" where
  "heartbeat_request blake3 inp comps d ex =
     (case umap_find kServantPriorityMap (hi_servant_priority inp) of
        None \<Rightarrow> Inl OutOfRange
      | Some prio \<Rightarrow>
          Inr \<lparr>hb_token = hi_scheduler_token inp, next_heart_beat_in_ms = 10000, hb_version = DISTRIBUILD_VERSION,
               hb_location = location d, hb_num_cpu_cores = ucast (hi_num_cpu_cores inp),
               hb_current_load = ucast (hi_current_load inp), hb_priority = prio,
               hb_concurrency = ucast (max_concurrency ex),
               hb_total_memory_in_bytes = GetTotalMemory (hi_meminfo inp),
               hb_avail_memory_in_bytes = GetAvailMemory (hi_meminfo inp),
               hb_env_descs = compilers comps,
               hb_running_tasks = map (\<lambda>(k, g, t). \<lparr>servant_task_id = k, task_grant_id = g,
                  servant_location = location d, task_digest = GetDigest blake3 t\<rparr>) (GetAllTasks ex)\<rparr>)"

text \<open>What it does with the scheduler's answer; a failed call changes nothing.\<close>

definition heartbeat_answer ::
  "(StatusCode \<times> HeartBeatResponse) \<Rightarrow> DaemonServiceImpl \<times> 'task Executor \<Rightarrow> DaemonServiceImpl \<times> 'task Executor" where
  "heartbeat_answer answer st =
     (if fst answer \<noteq> StatusOK then st
      else (UpdateTokens (hb_tokens (snd answer)) (fst st), KillExpiredTasks (expired_tasks (snd answer)) (snd st)))"

end
