(* ===== verification/DistTask.thy ===== *)
theory DistTask
  imports CloudService
begin

text \<open>
  \<open>daemon/local/dist_task/cxx_task.{h,cpp}\<close>, \<open>daemon/local/file_cache.{h,cpp}\<close> and the part of
  \<open>daemon/local/task_dispatcher.cpp\<close> that talks to a servant: how the local daemon submits a
  compilation, polls for its result and reads it back. What gRPC returns is an argument.
\<close>

section \<open>Definitions\<close>

subsection \<open>The cache of file digests\<close>

record CacheDesc =
  cd_size :: u64
  cd_mtime :: u64
  cd_hash :: string

record FileCache =
  caches :: "(string, CacheDesc) umap"

definition FileCacheTryGet :: "string \<Rightarrow> u64 \<Rightarrow> u64 \<Rightarrow> FileCache \<Rightarrow> string option" where
  "FileCacheTryGet path sz mtime c =
     (case umap_find (caches c) path of
        None \<Rightarrow> None
      | Some e \<Rightarrow> if cd_size e = sz \<and> cd_mtime e = mtime then Some (cd_hash e) else None)"

definition FileCacheSet :: "string \<Rightarrow> u64 \<Rightarrow> u64 \<Rightarrow> string \<Rightarrow> FileCache \<Rightarrow> FileCache" where
  "FileCacheSet path sz mtime hash c =
     c\<lparr>caches := umap_set path \<lparr>cd_size = sz, cd_mtime = mtime, cd_hash = hash\<rparr> (caches c)\<rparr>"

subsection \<open>Preparing a task\<close>

record SubmitCxxTaskRequest =
  requestor_pid :: int
  sub_source_path :: string
  sub_source_digest :: string
  sub_cache_control :: int
  compiler_args :: string
  sub_compiler_path :: string
  sub_compiler_size :: u64
  sub_compiler_mtime :: u64

text \<open>\<open>bytes[0]\<close> of an empty vector is undefined. The source path is taken from the digest field.\<close>

definition DistPrepare ::
  "FileCache \<Rightarrow> SubmitCxxTaskRequest \<Rightarrow> string list \<Rightarrow> CxxDistTask \<Rightarrow> fault + (StatusCode \<times> CxxDistTask)" where
  "DistPrepare fc req bytes t =
     (if requestor_pid req \<le> 1 \<or> sub_source_path req = [] \<or> compiler_args req = [] \<or> sub_source_digest req = []
      then Inr (INVALID_ARGUMENT, t)
      else case FileCacheTryGet (sub_compiler_path req) (sub_compiler_size req) (sub_compiler_mtime req) fc of
             None \<Rightarrow> Inr (INVALID_ARGUMENT, t)
           | Some compiler \<Rightarrow>
               (case bytes of
                  [] \<Rightarrow> Inl OutOfRange
                | b # _ \<Rightarrow>
                    Inr (StatusOK, \<lparr>cache_control = (sub_cache_control req \<noteq> 0), dt_requester_pid = requestor_pid req,
                      dt_env_desc = \<lparr>compiler_digest = compiler\<rparr>, dt_source_path = sub_source_digest req,
                      dt_source_digest = sub_source_digest req, dt_args = compiler_args req, dt_source = b\<rparr>)))"

subsection \<open>Submitting it\<close>

definition start_request :: "string \<Rightarrow> u64 \<Rightarrow> CxxDistTask \<Rightarrow> QueueCxxTaskRequest" where
  "start_request token grant t =
     \<lparr>q_token = token, q_task_grant_id = grant, q_env_desc = dt_env_desc t, q_source_path = dt_source_digest t,
      q_args = dt_args t, q_compress_type = COMPRESS_TYPE_ZSTD, q_fill_cache = cache_control t\<rparr>"

definition head_frame :: "QueueCxxTaskRequest \<Rightarrow> QueueCxxTaskRequestChunk" where
  "head_frame r = \<lparr>qc_request = Some r, qc_file_chunk = []\<rparr>"

definition data_frame :: "string \<Rightarrow> QueueCxxTaskRequestChunk" where
  "data_frame c = \<lparr>qc_request = None, qc_file_chunk = c\<rparr>"

definition start_frames :: "u64 \<Rightarrow> string \<Rightarrow> u64 \<Rightarrow> CxxDistTask \<Rightarrow> QueueCxxTaskRequestChunk list option" where
  "start_frames chunk_size token grant t =
     map_option (\<lambda>cs. head_frame (start_request token grant t) # map data_frame cs) (chunk_loop chunk_size (dt_source t))"

text \<open>
  \<open>StartTask\<close>. The call \<open>QueueCxxTask\<close> of the stub is the argument \<open>rpc\<close>: given the frames, either
  a write fails (\<open>None\<close>) or the stream ends with a status and the id in the response. The code
  answers a failed write with \<open>return false\<close>, which is the id 0 for its result type. \<open>None\<close>
  around the result: the loop that writes the file never ends.
\<close>

definition StartTask ::
  "(QueueCxxTaskRequestChunk list \<Rightarrow> (StatusCode \<times> u64) option) \<Rightarrow> u64 \<Rightarrow> string \<Rightarrow> u64 \<Rightarrow> CxxDistTask
     \<Rightarrow> (u64 option \<times> CxxDistTask) option" where
  "StartTask rpc chunk_size token grant t =
     (case start_frames chunk_size token grant t of
        None \<Rightarrow> None
      | Some frames \<Rightarrow>
          (case rpc frames of
             None \<Rightarrow> Some (Some 0, t)
           | Some (code, i) \<Rightarrow>
               Some (if code \<noteq> StatusOK then None else Some i, t\<lparr>dt_source := []\<rparr>)))"

subsection \<open>The result\<close>

record DistOutput =
  do_exit_code :: int
  do_stdout :: string
  do_stderr :: string
  do_extra_info :: "(string, Location list) umap option"
  do_output_files :: "(string \<times> string) list"

record WaitForCXXTaskResponse =
  cx_exit_code :: int
  cx_stdout :: string
  cx_stderr :: string
  file_extensions :: "string list"

definition RebuildOutput :: "DistOutput \<Rightarrow> WaitForCXXTaskResponse \<times> string list" where
  "RebuildOutput output =
     (if do_exit_code output < 0
      then (\<lparr>cx_exit_code = do_exit_code output, cx_stdout = do_stdout output, cx_stderr = do_stderr output,
             file_extensions = []\<rparr>, [])
      else (\<lparr>cx_exit_code = do_exit_code output, cx_stdout = do_stdout output, cx_stderr = do_stderr output,
             file_extensions = map fst (do_output_files output)\<rparr>, map snd (do_output_files output)))"

text \<open>The read loop of one poll: the last response wins, the pieces of the file are appended.\<close>

fun wait_read ::
  "WaitForTaskResponse \<Rightarrow> string \<Rightarrow> WaitForTaskResponseChunk list \<Rightarrow> WaitForTaskResponse \<times> string" where
  "wait_read resp content [] = (resp, content)"
| "wait_read resp content (chunk # chunks) =
     wait_read (case wc_response chunk of None \<Rightarrow> resp | Some r \<Rightarrow> r) (content @ wc_file_chunk chunk) chunks"

definition blank_response :: WaitForTaskResponse where
  "blank_response = \<lparr>wr_task_status = TASK_STATUS_UNKNOWN, wr_exit_code = 0, wr_output = [], wr_err = [],
     wr_extra_info = None\<rparr>"

text \<open>One poll: the output, and the code 0 done, 1 RPC error, 2 running, 3 failed.\<close>

definition WaitServantTask ::
  "StatusCode \<times> WaitForTaskResponseChunk list \<Rightarrow> fault + (DistOutput option \<times> int)" where
  "WaitServantTask answer =
     (let (resp, content) = wait_read blank_response [] (snd answer)
      in if fst answer \<noteq> StatusOK then Inr (None, 1)
         else if wr_task_status resp = TASK_STATUS_RUNNING then Inr (None, 2)
         else if wr_task_status resp = TASK_STATUS_DONE then
           (let output = \<lparr>do_exit_code = wr_exit_code resp, do_stdout = wr_output resp, do_stderr = wr_err resp,
                          do_extra_info = wr_extra_info resp, do_output_files = []\<rparr>
            in if wr_exit_code resp = 0
               then bind_fault (TryUnpackFiles content) (\<lambda>files.
                      case files of None \<Rightarrow> Inr (None, 3)
                      | Some fs \<Rightarrow> Inr (Some (output\<lparr>do_output_files := fs\<rparr>), 0))
               else Inr (Some output, 0))
         else Inr (None, 3))"

text \<open>
  The loop over the polls: \<open>retries\<close> are left, \<open>polls\<close> are the answers still to come, \<open>aborted\<close>
  says for each whether the task was aborted before it. A poll that reports a running task does
  not go back to the head of the loop: it reads the output, which is not there. An exhausted list of
  answers stands for a task that is aborted.
\<close>

fun WaitServantTask_loop ::
  "nat \<Rightarrow> (bool \<times> (StatusCode \<times> WaitForTaskResponseChunk list)) list \<Rightarrow> DistOutput \<Rightarrow> fault + DistOutput" where
  "WaitServantTask_loop 0 polls output = Inr output"
| "WaitServantTask_loop (Suc retries) [] output = Inr output"
| "WaitServantTask_loop (Suc retries) ((aborted, answer) # polls) output =
     (if aborted then Inr output
      else bind_fault (WaitServantTask answer) (\<lambda>(r, code).
           case r of
             Some out \<Rightarrow> Inr out
           | None \<Rightarrow>
               if code = 1 then WaitServantTask_loop retries polls output
               else if code = 3 then Inr (output\<lparr>do_exit_code := -125\<rparr>)
               else Inl BadOptional))"

definition kRetries :: nat where
  "kRetries = 5"

definition perform_output :: DistOutput where
  "perform_output = \<lparr>do_exit_code = -114514, do_stdout = [], do_stderr = [], do_extra_info = None,
     do_output_files = []\<rparr>"

section \<open>The stream of a submission\<close>

interpretation queue_stream: chunk_stream head_frame data_frame "queue_first d" queue_more
  "\<lambda>r. IsTokenAcceptable (q_token r) d" for d
  by unfold_locales (simp_all add: queue_first_def head_frame_def queue_more_def data_frame_def)

lemma queue_rest_eq: "queue_rest content chunks = queue_stream.receive_rest content chunks"
  by (induction chunks arbitrary: content) (auto simp: bind_fault_def split: sum.split)

lemma queue_read_frames:
  assumes "IsTokenAcceptable (q_token r) d"
  shows "queue_read d (head_frame r # map data_frame cs) = Inr (Some r, concat cs)"
  using assms by (simp add: queue_read_def queue_stream.start_head queue_rest_eq queue_stream.receive_rest_data)

lemma start_frames_total:
  "0 < chunk_size \<Longrightarrow> \<exists>cs. start_frames chunk_size token grant t =
     Some (head_frame (start_request token grant t) # map data_frame cs) \<and> concat cs = dt_source t"
  using chunk_loop_total[of chunk_size "dt_source t"] by (auto simp: start_frames_def)

section \<open>The stream of a result\<close>

lemma wait_read_data:
  "wait_read resp content (map (\<lambda>c. \<lparr>wc_response = None, wc_file_chunk = c\<rparr>) cs) = (resp, content @ concat cs)"
  by (induction cs arbitrary: content) simp_all

end
