(* ===== verification/Cloud_Props.thy ===== *)
theory Cloud_Props
  imports DistTask
begin

text \<open>
  What a compilation task guarantees from the submission by a local daemon to the process on the
  servant and back: the source arrives, the result is read back, the digests identify the
  compilation, the advertised compilers exist.
\<close>

section \<open>Properties\<close>

text \<open>
  Claim C7. A submission reaches the servant's process: the frames a local daemon writes, with any
  chunk size but 0, are accepted by a servant that recognises the token, has the compiler and has
  capacity; the process gets exactly the decompressed source on its standard input, the process
  table has the task with its grant, and its digest is the one the local daemon computes, if that
  was told the true digest of the source.
\<close>

theorem submission_reaches_process:
  assumes "0 < chunk_size" and "IsTokenAcceptable token d"
    and "TryGetPath (dt_env_desc t) comps = Some compiler" and "decompress (dt_source t) = Some src"
    and "\<not> exiting ex" and "ex_running_tasks ex + 1 \<le> max_concurrency ex" and "min_memory ex \<le> avail"
  shows "\<exists>frames i ex' u. start_frames chunk_size token grant t = Some frames \<and>
    QueueCxxTask blake3 decompress comps dir child now avail frames d ex = Inr (StatusOK, Some (i, src), ex') \<and>
    umap_find (ex_tasks ex') i = Some (next_desc ex) \<and> grant_id (descs ex' (next_desc ex)) = grant \<and>
    desc_task (descs ex' (next_desc ex)) = Some u \<and>
    (dt_source_digest t = EncodeHex (blake3 src) False \<longrightarrow> GetDigest blake3 u = DistGetDigest blake3 t)"
proof -
  obtain cs where cs: "start_frames chunk_size token grant t = Some (head_frame (start_request token grant t) # map data_frame cs)"
    "concat cs = dt_source t"
    using start_frames_total[OF assms(1)] by blast
  have read: "queue_read d (head_frame (start_request token grant t) # map data_frame cs) =
      Inr (Some (start_request token grant t), dt_source t)"
    using queue_read_frames[of "start_request token grant t" d cs] assms(2) cs(2) by (simp add: start_request_def)
  define u where "u = snd (Prepare blake3 decompress comps (start_request token grant t) (dt_source t) (blank_task dir))"
  have prep: "Prepare blake3 decompress comps (start_request token grant t) (dt_source t) (blank_task dir) = (StatusOK, u)"
    unfolding u_def using assms(3,4) by (simp add: Prepare_def start_request_def Let_def)
  have u: "source u = src" "task_env_desc u = dt_env_desc t" "args u = dt_args t"
    "source_digest u = EncodeHex (blake3 src) False"
    using assms(3,4) by (simp_all add: u_def Prepare_def start_request_def PrepareCache_def Blake3_def Let_def)
  have mem: "\<not> avail < min_memory ex" using assms(7) by simp
  define ex' where "ex' = snd (TryQueueTask grant (u\<lparr>source := []\<rparr>) (cmdline u) child now avail ex)"
  have q: "TryQueueTask grant (u\<lparr>source := []\<rparr>) (cmdline u) child now avail ex = (Some (ex_next_task_id ex), ex')"
    using assms(5,6) mem by (simp add: ex'_def TryQueueTask_def TryStartingNewTaskUnsafe_eq Let_def)
  have f: "umap_find (ex_tasks ex') (ex_next_task_id ex) = Some (next_desc ex)"
    "descs ex' (next_desc ex) =
      blank_desc\<lparr>grant_id := grant, ref_count := 1, start_tp := now, pid := child,
        desc_task := Some (u\<lparr>source := []\<rparr>), desc_cmd := cmdline u\<rparr>"
    using assms(5,6) mem by (simp_all add: ex'_def TryQueueTask_def TryStartingNewTaskUnsafe_eq Let_def umap.look_put)
  have g: "q_task_grant_id (start_request token grant t) = grant" by (simp add: start_request_def)
  have run: "QueueCxxTask blake3 decompress comps dir child now avail
      (head_frame (start_request token grant t) # map data_frame cs) d ex =
      Inr (StatusOK, Some (ex_next_task_id ex, src), ex')"
    unfolding QueueCxxTask_def read by (simp add: prep g q u(1))
  have dg: "dt_source_digest t = EncodeHex (blake3 src) False \<longrightarrow> GetDigest blake3 (u\<lparr>source := []\<rparr>) = DistGetDigest blake3 t"
    by (simp add: GetDigest_def DistGetDigest_def u)
  show ?thesis
    by (intro exI conjI, rule cs(1), rule run, rule f(1), simp add: f(2), simp add: f(2), rule dg)
qed

text \<open>
  A servant with one compiler and one free slot, and a task of the local daemon for it. The
  digest function and the codec are the identity.
\<close>

definition demo_servant_service :: DaemonServiceImpl where
  "demo_servant_service = UpdateTokens [''tok''] (DaemonServiceImpl_new ''10.0.0.2:8335'')"

definition demo_compilers :: Compilers where
  "demo_compilers = \<lparr>compilers = [\<lparr>compiler_digest = ''aa''\<rparr>], compiler_paths = [(''aa'', ''/usr/bin/gcc'')]\<rparr>"

definition demo_dist_task :: CxxDistTask where
  "demo_dist_task = \<lparr>cache_control = True, dt_requester_pid = 42, dt_env_desc = \<lparr>compiler_digest = ''aa''\<rparr>,
     dt_source_path = ''d'', dt_source_digest = ''6d61696e'', dt_args = ''-c'', dt_source = ''main''\<rparr>"

definition demo_cloud :: "CxxCompileTask Executor" where
  "demo_cloud = \<lparr>exiting = False, ex_next_task_id = 1, ex_running_tasks = 0, max_concurrency = 4,
     min_memory = 1, task_ran_sum = 0, ex_tasks = [], descs = (\<lambda>_. blank_desc), next_desc = 0,
     waitpid_semaphore = 0, children = [], waiting = False, waiter_done = False, exit_tasks = [], signals = []\<rparr>"

lemmas demo_cloud_defs = demo_servant_service_def demo_compilers_def demo_dist_task_def demo_cloud_def
  UpdateTokens_def IsTokenAcceptable_def Verify_def TryGetPath_def umap_find_def

theorem submission_reaches_process_witness:
  "\<exists>frames i ex'. start_frames 3 ''tok'' 7 demo_dist_task = Some frames \<and>
    QueueCxxTask (\<lambda>x. x) Some demo_compilers ''/tmp'' 100 5 2 frames demo_servant_service demo_cloud =
      Inr (StatusOK, Some (i, ''main''), ex')"
proof -
  have "(0 :: u64) < 3" "IsTokenAcceptable ''tok'' demo_servant_service"
    "TryGetPath (dt_env_desc demo_dist_task) demo_compilers = Some ''/usr/bin/gcc''"
    "Some (dt_source demo_dist_task) = Some ''main''" "\<not> exiting demo_cloud"
    "ex_running_tasks demo_cloud + 1 \<le> max_concurrency demo_cloud" "min_memory demo_cloud \<le> 2"
    by (simp_all add: demo_cloud_defs)
  from submission_reaches_process[where decompress = Some, OF this, of 7 "\<lambda>x. x" "''/tmp''" 100 5]
  show ?thesis by (elim exE conjE) (intro exI conjI)
qed

text \<open>
  Claim C8. A result comes back: when a compilation that exited with code 0 has completed, the next
  poll of the local daemon receives its exit code, outputs and files, each file under its suffix and
  compressed, whatever the chunk size (but 0) and however many retries are left.
\<close>

theorem result_returns_to_local:
  assumes "0 < chunk_size" and "IsTokenAcceptable token d" and "umap_find (ex_tasks ex) i = Some p"
    and "completion_event (descs (others ex) p)" and "desc_task (descs (others ex) p) = Some t'"
    and "OnCompleted blake3 compress files 0 std_out std_err t = Inr (Some (t', w))"
    and "packable (map (\<lambda>(f, c). (drop (length (temp_sub_dir t @ ''/output'')) f, the (compress c))) files)"
  shows "\<exists>frames ex'. CloudWaitForTask chunk_size autoreset others token i [COMPRESS_TYPE_ZSTD] d ex =
      Inr (StatusOK, Some frames, ex') \<and>
    WaitServantTask_loop (Suc retries) ((False, StatusOK, frames) # polls) output =
      Inr \<lparr>do_exit_code = 0, do_stdout = std_out, do_stderr = std_err, do_extra_info = extra_info t',
           do_output_files = map (\<lambda>(f, c). (drop (length (temp_sub_dir t @ ''/output'')) f, the (compress c))) files\<rparr>"
proof -
  obtain cs where cs: "chunk_loop chunk_size (file_pack t') = Some cs" "concat cs = file_pack t'"
    using chunk_loop_total[OF assms(1)] by blast
  have t': "exit_code t' = 0" "task_stdout t' = std_out" "task_stderr t' = std_err"
    "TryUnpackFiles (file_pack t') =
      Inr (Some (map (\<lambda>(f, c). (drop (length (temp_sub_dir t @ ''/output'')) f, the (compress c))) files))"
    using OnCompleted_result[OF assms(6)] TryUnpackFiles_PackFiles[OF assms(7)] by simp_all
  show ?thesis
    using assms(2-5) cs t'
    by (simp add: CloudWaitForTask_def WaitForTask_def WaitForTask_wait_def WaitServantTask_def
        blank_response_def wait_read_data)
qed

definition demo_task_dir :: CxxCompileTask where
  "demo_task_dir = (blank_task ''/tmp'')\<lparr>temp_sub_dir := ''s''\<rparr>"

definition demo_task_done :: CxxCompileTask where
  "demo_task_done = demo_task_dir\<lparr>task_stdout := ''ok'', file_pack := PackFiles [(''.o'', ''x'')], extra_info := Some [(''.o'', [])]\<rparr>"

definition demo_cloud_done :: "CxxCompileTask Executor" where
  "demo_cloud_done = demo_cloud\<lparr>ex_tasks := [(1, 0)],
     descs := (\<lambda>_. blank_desc\<lparr>desc_task := Some demo_task_done, completion_event := True\<rparr>)\<rparr>"

theorem result_returns_to_local_witness:
  "\<exists>frames ex'. CloudWaitForTask 3 True (\<lambda>x. x) ''tok'' 1 [COMPRESS_TYPE_ZSTD] demo_servant_service demo_cloud_done =
      Inr (StatusOK, Some frames, ex') \<and>
    WaitServantTask_loop (Suc 0) [(False, StatusOK, frames)] perform_output =
      Inr \<lparr>do_exit_code = 0, do_stdout = ''ok'', do_stderr = [], do_extra_info = Some [(''.o'', [])],
           do_output_files = [(''.o'', ''x'')]\<rparr>"
proof -
  have "find_sub ''/tmp/s/output'' ''x'' = None" by (simp add: StartWith_iff)
  then have "OnCompleted (\<lambda>x. x) Some [(''s/output.o'', ''x'')] 0 ''ok'' [] demo_task_dir = Inr (Some (demo_task_done, None))"
    by (simp add: OnCompleted_def GetOutput_def GetCacheKey_def demo_task_done_def demo_task_dir_def blank_task_def
        FindPathLocations_def location_loop.simps umap_set_def Let_def)
  moreover have "packable (map (\<lambda>(f, c). (drop (length (temp_sub_dir demo_task_dir @ ''/output'')) f, the (Some c))) [(''s/output.o'', ''x'')])"
    by (simp add: packable_def demo_task_dir_def PackFiles_def files_total_def suffix_line_def size_line_def to_string.simps)
  moreover have "IsTokenAcceptable ''tok'' demo_servant_service" "umap_find (ex_tasks demo_cloud_done) 1 = Some 0"
    "completion_event (descs demo_cloud_done 0)" "desc_task (descs demo_cloud_done 0) = Some demo_task_done"
    by (simp_all add: demo_cloud_defs demo_cloud_done_def)
  ultimately show ?thesis
    using result_returns_to_local[of 3 "''tok''" demo_servant_service demo_cloud_done 1 0 "\<lambda>x. x" demo_task_done "\<lambda>x. x"
      Some "[(''s/output.o'', ''x'')]" "''ok''" "[]" demo_task_dir None True 0 "[]" perform_output]
    by (simp add: demo_task_dir_def demo_task_done_def)
qed

text \<open>
  Claim C37. A compilation longer than five polls fails: while the task runs, the servant answers
  each poll with \<open>NOT_FOUND\<close>, the local daemon takes this for an RPC error, and after its five
  retries it reports the exit code \<open>-114514\<close> although the compilation goes on.
\<close>

theorem long_compilation_fails:
  assumes "length polls = kRetries" and "IsTokenAcceptable token d"
    and "\<forall>(aborted, answer) \<in> set polls. \<not> aborted \<and>
      (\<exists>others ex p ex'. umap_find (ex_tasks ex) i = Some p \<and> \<not> completion_event (descs (others ex) p) \<and>
        CloudWaitForTask chunk_size autoreset others token i [COMPRESS_TYPE_ZSTD] d ex = Inr (fst answer, Some (snd answer), ex'))"
  shows "WaitServantTask_loop kRetries polls perform_output = Inr perform_output \<and> do_exit_code perform_output = -114514"
proof -
  have "WaitServantTask_loop n ps out = Inr out" if "set ps \<subseteq> set polls" "length ps = n" for n ps out
    using that
  proof (induction ps arbitrary: n)
    case (Cons poll ps)
    obtain aborted answer where poll: "poll = (aborted, answer)" by (cases poll)
    from Cons.prems(1) assms(3) poll obtain others ex p ex' where "\<not> aborted" "umap_find (ex_tasks ex) i = Some p"
      "\<not> completion_event (descs (others ex) p)"
      "CloudWaitForTask chunk_size autoreset others token i [COMPRESS_TYPE_ZSTD] d ex = Inr (fst answer, Some (snd answer), ex')"
      by fastforce
    with assms(2) have "\<not> aborted" "fst answer = NOT_FOUND" "snd answer = []"
      by (simp_all add: CloudWaitForTask_def WaitForTask_def WaitForTask_wait_def)
    with Cons poll show ?case by (cases n) (auto simp: WaitServantTask_def)
  qed simp
  from this[of polls kRetries perform_output] assms(1) show ?thesis by (simp add: perform_output_def)
qed

theorem long_compilation_fails_witness:
  "WaitServantTask_loop 5 (replicate 5 (False, NOT_FOUND, [])) perform_output = Inr perform_output"
proof -
  define ex where "ex = demo_cloud\<lparr>ex_tasks := [(1, 0)]\<rparr>"
  have "umap_find (ex_tasks ex) 1 = Some 0 \<and> \<not> completion_event (descs ((\<lambda>x. x) ex) 0) \<and>
      CloudWaitForTask 3 True (\<lambda>x. x) ''tok'' 1 [COMPRESS_TYPE_ZSTD] demo_servant_service ex = Inr (NOT_FOUND, Some [], ex)"
    by (simp add: ex_def CloudWaitForTask_def WaitForTask_def WaitForTask_wait_def blank_desc_def demo_cloud_defs)
  then have "\<exists>others ex p ex'. umap_find (ex_tasks ex) 1 = Some p \<and> \<not> completion_event (descs (others ex) p) \<and>
      CloudWaitForTask 3 True others ''tok'' 1 [COMPRESS_TYPE_ZSTD] demo_servant_service ex = Inr (NOT_FOUND, Some [], ex')"
    by (intro exI)
  moreover have "IsTokenAcceptable ''tok'' demo_servant_service" by (simp add: demo_cloud_defs)
  ultimately show ?thesis
    using long_compilation_fails[of "replicate 5 (False, NOT_FOUND, [])" "''tok''" demo_servant_service 1 3 True]
    by (simp add: kRetries_def)
qed

end
