(* ===== verification/CxxTask_Props.thy ===== *)
theory CxxTask_Props
  imports Cloud_Props
begin

text \<open>
  What single compilation tasks guarantee: digests identify a compilation, the advertised compilers
  exist, the recorded paths are paths of the object file, and when a result is written to the cache.
\<close>

section \<open>Properties\<close>

text \<open>
  Claim C34. Digests and cache keys identify a compilation: two tasks whose digests have the same
  lengths (as digests of one hash function do) get the same task digest exactly when compiler,
  arguments and source digest agree, and likewise the same cache key, as long as the hash function
  has no collision on their two inputs; and no digest is ever equal to a cache key.
\<close>

theorem digest_identifies_compilation:
  assumes "length (compiler_digest (dt_env_desc t1)) = length (compiler_digest (dt_env_desc t2))"
    and "length (dt_source_digest t1) = length (dt_source_digest t2)"
    and no_collision: "\<forall>x \<in> {compiler_digest (dt_env_desc t1) @ dt_args t1 @ dt_source_digest t1}.
      \<forall>y \<in> {compiler_digest (dt_env_desc t2) @ dt_args t2 @ dt_source_digest t2}. blake3 x = blake3 y \<longrightarrow> x = y"
  shows "(DistGetDigest blake3 t1 = DistGetDigest blake3 t2 \<longleftrightarrow>
      dt_env_desc t1 = dt_env_desc t2 \<and> dt_args t1 = dt_args t2 \<and> dt_source_digest t1 = dt_source_digest t2) \<and>
    (CacheKey blake3 t1 = CacheKey blake3 t2 \<longleftrightarrow> DistGetDigest blake3 t1 = DistGetDigest blake3 t2) \<and>
    CacheKey blake3 t1 \<noteq> DistGetDigest blake3 t2"
proof -
  have e: "compiler_digest a = compiler_digest b \<longleftrightarrow> a = b" for a b :: EnviromentDesc by (cases a, cases b) simp
  have k: "cxx_key blake3 p (compiler_digest (dt_env_desc t1)) (dt_args t1) (dt_source_digest t1) =
      cxx_key blake3 p (compiler_digest (dt_env_desc t2)) (dt_args t2) (dt_source_digest t2) \<longleftrightarrow>
      compiler_digest (dt_env_desc t1) = compiler_digest (dt_env_desc t2) \<and> dt_args t1 = dt_args t2 \<and>
      dt_source_digest t1 = dt_source_digest t2" for p
    using no_collision by (intro cxx_key_inj[OF assms(1,2)]) simp
  show ?thesis by (simp add: DistGetDigest_def CacheKey_def k e) (simp add: cxx_key_def)
qed

theorem digest_identifies_compilation_witness:
  "DistGetDigest (\<lambda>x. x) demo_dist_task \<noteq> DistGetDigest (\<lambda>x. x) (demo_dist_task\<lparr>dt_args := ''-c -O2''\<rparr>)"
  using digest_identifies_compilation[of demo_dist_task "demo_dist_task\<lparr>dt_args := ''-c -O2''\<rparr>" "\<lambda>x. x"]
  by (simp add: demo_dist_task_def)

text \<open>
  Claim C35. The compilers a servant advertises after a scan are exactly those it can run: their
  digests are distinct, each has a path whose file has that digest, only advertised digests have a
  path, and every compiler with a readable file in a scanned directory is advertised.
\<close>

theorem compilers_advertised:
  "let c = OnTimerRescan blake3 resolve content_of path_env flag old;
       dirs = set (Split_char path_env CHR '':'' True) \<union> set (Split_char flag CHR '':'' True)
   in distinct (compilers c) \<and>
      (\<forall>env. env \<in> set (compilers c) \<longleftrightarrow>
         (\<exists>path. TryGetPath env c = Some path \<and> TryGetFileDigest blake3 content_of path = Some (compiler_digest env))) \<and>
      (\<forall>env path. TryGetPath env c = Some path \<longrightarrow> env \<in> set (compilers c)) \<and>
      (\<forall>dir \<in> dirs. \<forall>path \<in> set (SearchCompiler resolve dir). \<forall>digest.
         TryGetFileDigest blake3 content_of path = Some digest \<longrightarrow> \<lparr>compiler_digest = digest\<rparr> \<in> set (compilers c))"
proof -
  define c where "c = OnTimerRescan blake3 resolve content_of path_env flag old"
  have inv: "compilers_inv blake3 content_of c" unfolding c_def by (rule OnTimerRescan_inv)
  then have m: "map compiler_digest (compilers c) = map fst (compiler_paths c)" and wf: "umap_wf (compiler_paths c)"
    and ok: "\<And>d path. (d, path) \<in> set (compiler_paths c) \<Longrightarrow> TryGetFileDigest blake3 content_of path = Some d"
    by (auto simp: compilers_inv_def)
  have inj: "inj (compiler_digest :: EnviromentDesc \<Rightarrow> string)" by (intro injI EnviromentDesc.equality) simp_all
  have dist: "distinct (compilers c)"
    using wf m by (metis distinct_map umap_wf_def)
  have mem: "e \<in> set (compilers c) \<longleftrightarrow> compiler_digest e \<in> fst ` set (compiler_paths c)" for e
  proof -
    have "e \<in> set (compilers c) \<longleftrightarrow> compiler_digest e \<in> set (map compiler_digest (compilers c))"
      by (simp add: inj_image_mem_iff[OF inj])
    then show ?thesis by (simp add: m)
  qed
  have path: "e \<in> set (compilers c) \<longleftrightarrow> (\<exists>path. TryGetPath e c = Some path)" for e
    unfolding mem TryGetPath_def by (metis umap_find_None_iff option.exhaust option.distinct(1))
  have found: "TryGetFileDigest blake3 content_of path = Some (compiler_digest e)" if "TryGetPath e c = Some path" for e path
    using that ok by (auto simp: TryGetPath_def dest: umap_find_SomeD)
  have all: "\<lparr>compiler_digest = d\<rparr> \<in> set (compilers c)"
    if "dir \<in> set (Split_char path_env CHR '':'' True) \<union> set (Split_char flag CHR '':'' True)"
      "path \<in> set (SearchCompiler resolve dir)" "TryGetFileDigest blake3 content_of path = Some d" for dir path d
    using OnTimerRescan_complete[OF that, of old] unfolding c_def[symmetric] advertises_def
    by (metis inj inj_image_mem_iff EnviromentDesc.select_convs(1))
  show ?thesis unfolding Let_def c_def[symmetric] using dist path found all by blast
qed

theorem compilers_advertised_witness:
  "\<lparr>compiler_digest = EncodeHex ''x'' False\<rparr> \<in> set (compilers
     (OnTimerRescan (\<lambda>x. x) Some (\<lambda>p. if p = ''/bin/gcc'' then Some ''x'' else None) ''/bin'' [] demo_compilers))"
proof -
  have "''/bin'' \<in> set (Split_char ''/bin'' CHR '':'' True)"
    by (simp add: Split_char_def Split_loop_last)
  moreover have "''/bin/gcc'' \<in> set (SearchCompiler Some ''/bin'')"
    by (simp add: SearchCompiler_def kSupportedCompilers_def List.map_filter_def)
  moreover note compilers_advertised[of "\<lambda>x. x" Some "\<lambda>p. if p = ''/bin/gcc'' then Some ''x'' else None" "''/bin''" "[]"
    demo_compilers, unfolded Let_def, THEN conjunct2, THEN conjunct2, THEN conjunct2, rule_format, of "''/bin''" "''/bin/gcc''"]
  ultimately show ?thesis by (simp add: TryGetFileDigest_def Blake3_def)
qed

text \<open>
  The locations recorded for an object file: the search always ends, and every location it
  records starts with the prefix, is ended by the first null byte after it, has at most \<open>PATH_MAX\<close>
  bytes and lies inside the file, provided the prefix does not begin with a null byte and the file
  is below 4 GiB (its offsets are 32-bit numbers).
\<close>

theorem path_locations_sound:
  assumes "prefix \<noteq> []" and "hd prefix \<noteq> CHR 0x00" and "length content < 2 ^ 32"
  shows "\<exists>ls. FindPathLocations content prefix = Some ls \<and>
    (\<forall>l \<in> set ls.
       let pos = unat (loc_position l); n = unat (loc_length l)
       in StartWith (drop pos content) prefix \<and> n \<le> PATH_MAX \<and> pos + n < length content \<and>
          content ! (pos + n) = CHR 0x00 \<and> CHR 0x00 \<notin> set (take n (drop pos content)))"
  using location_loop_sound[OF assms, of 0] by (simp add: FindPathLocations_def location_ok_def)

theorem path_locations_sound_witness:
  "\<exists>ls. FindPathLocations [CHR ''a'', CHR ''/'', CHR ''p'', CHR 0x00] ''/p'' = Some ls"
  using path_locations_sound[of "''/p''" "[CHR ''a'', CHR ''/'', CHR ''p'', CHR 0x00]"] by auto



end
