(* ===== verification/LocalKeepers.thy ===== *)
theory LocalKeepers
  imports CloudService
begin

text \<open>
  What the local daemon keeps about the rest of the system:
  \<open>daemon/local/task_grant_keeper.{h,cpp}\<close> (grants fetched from the scheduler),
  \<open>task_run_keeper.{h,cpp}\<close> (who compiles what), \<open>config_keeper.{h,cpp}\<close> (the token for servants)
  and \<open>task_monitor.{h,cpp}\<close> (how many compilations the local machine runs).

  A wait on a condition variable is split: what other threads do until it ends is an argument.
\<close>

section \<open>Definitions\<close>

subsection \<open>Grants\<close>

record GrantDesc =
  expire_tp :: time_point
  gd_grant_id :: u64
  gd_servant_location :: string

record EnvGrantKeeper =
  keeper_env_desc :: EnviromentDesc
  waiters :: u32
  remaining :: "GrantDesc list"

text \<open>
  \<open>Get\<close> drops the grants at the head of the queue that have expired; it reads the clock for each,
  \<open>clock i\<close> is what it reads the \<open>i\<close>-th time.
\<close>

fun drop_expired :: "(nat \<Rightarrow> time_point) \<Rightarrow> nat \<Rightarrow> GrantDesc list \<Rightarrow> GrantDesc list" where
  "drop_expired clock i [] = []"
| "drop_expired clock i (g # gs) = (if expire_tp g < clock i then drop_expired clock (Suc i) gs else g # gs)"

text \<open>The part before the wait: the grant, or the keeper with one more waiter.\<close>

definition Get_begin :: "(nat \<Rightarrow> time_point) \<Rightarrow> EnvGrantKeeper \<Rightarrow> GrantDesc option \<times> EnvGrantKeeper" where
  "Get_begin clock keeper =
     (case drop_expired clock 0 (remaining keeper) of
        g # gs \<Rightarrow> (Some g, keeper\<lparr>remaining := gs\<rparr>)
      | [] \<Rightarrow> (None, keeper\<lparr>remaining := [], waiters := waiters keeper + 1\<rparr>))"

text \<open>The part after it: the wait succeeded exactly if the queue has a grant.\<close>

definition Get_end :: "EnvGrantKeeper \<Rightarrow> GrantDesc option \<times> EnvGrantKeeper" where
  "Get_end keeper =
     (case remaining keeper of
        [] \<Rightarrow> (None, keeper\<lparr>waiters := waiters keeper - 1\<rparr>)
      | g # gs \<Rightarrow> (Some g, keeper\<lparr>remaining := gs, waiters := waiters keeper - 1\<rparr>))"

definition keeper_for :: "EnviromentDesc \<Rightarrow> (string, EnvGrantKeeper) umap \<Rightarrow> EnvGrantKeeper" where
  "keeper_for desc keepers =
     (case umap_find keepers (compiler_digest desc) of
        Some keeper \<Rightarrow> keeper
      | None \<Rightarrow> \<lparr>keeper_env_desc = desc, waiters = 0, remaining = []\<rparr>)"

text \<open>\<open>others\<close> is what the fetcher and other waiters do to the keepers during the wait.\<close>

definition GrantGet ::
  "(nat \<Rightarrow> time_point) \<Rightarrow> EnviromentDesc \<Rightarrow> ((string, EnvGrantKeeper) umap \<Rightarrow> (string, EnvGrantKeeper) umap)
     \<Rightarrow> (string, EnvGrantKeeper) umap \<Rightarrow> GrantDesc option \<times> (string, EnvGrantKeeper) umap" where
  "GrantGet clock desc others keepers =
     (let key = compiler_digest desc
      in case Get_begin clock (keeper_for desc keepers) of
           (Some g, keeper) \<Rightarrow> (Some g, umap_set key keeper keepers)
         | (None, keeper) \<Rightarrow>
             (let after = others (umap_set key keeper keepers)
              in case Get_end (keeper_for desc after) of (r, keeper') \<Rightarrow> (r, umap_set key keeper' after)))"

text \<open>\<open>GrantFetcherProc\<close>: when it asks, what it asks for, and what it does with the answer.\<close>

definition fetch_wanted :: "EnvGrantKeeper \<Rightarrow> bool" where
  "fetch_wanted keeper \<longleftrightarrow> remaining keeper = []"

definition fetch_request :: "string \<Rightarrow> EnvGrantKeeper \<Rightarrow> WaitForStaringTaskRequest" where
  "fetch_request token keeper =
     \<lparr>ws_token = token, mills_to_wait = 5000, ws_env_desc = keeper_env_desc keeper,
      immeadiate_reqs = waiters keeper, prefetch_reqs = 1, ws_next_keep_alive_in_ms = 15000,
      ws_min_version = DISTRIBUILD_VERSION\<rparr>"

definition kMaxWait :: int where
  "kMaxWait = sec 5"

definition kNetworkDelayTolerance :: int where
  "kNetworkDelayTolerance = sec 5"

definition fetch_answer ::
  "(nat \<Rightarrow> time_point) \<Rightarrow> StatusCode \<times> TaskAllocation list \<Rightarrow> EnvGrantKeeper \<Rightarrow> EnvGrantKeeper" where
  "fetch_answer clock answer keeper =
     (if fst answer \<noteq> StatusOK then keeper
      else keeper\<lparr>remaining := remaining keeper @
             map (\<lambda>(i, a). \<lparr>expire_tp = clock i + kMaxWait - kNetworkDelayTolerance,
                            gd_grant_id = alloc_task_id a, gd_servant_location = alloc_servant_location a\<rparr>)
               (enumerate 0 (snd answer))\<rparr>)"

subsection \<open>Running tasks\<close>

record RunDesc =
  rd_servant_location :: string
  rd_servant_task_id :: u64

record TaskRunKeeper =
  known_running :: "(string, RunDesc) umap"
  last_update_time :: time_point

definition TryFindTask :: "string \<Rightarrow> TaskRunKeeper \<Rightarrow> RunDesc option" where
  "TryFindTask digest k = umap_find (known_running k) digest"

definition OnTimerRefresh ::
  "time_point \<Rightarrow> StatusCode \<times> RunningTask list \<Rightarrow> TaskRunKeeper \<Rightarrow> TaskRunKeeper" where
  "OnTimerRefresh now answer k =
     (if fst answer \<noteq> StatusOK
      then (if now - last_update_time k > sec 5 then k\<lparr>known_running := []\<rparr> else k)
      else k\<lparr>last_update_time := now,
             known_running := fold (\<lambda>task m.
               umap_set (task_digest task)
                 \<lparr>rd_servant_location = servant_location task, rd_servant_task_id = servant_task_id task\<rparr> m)
               (snd answer) []\<rparr>)"

subsection \<open>The token for servants\<close>

record ConfigKeeper =
  serving_daemon_token :: string

definition GetServingDaemonToken :: "ConfigKeeper \<Rightarrow> string" where
  "GetServingDaemonToken k = serving_daemon_token k"

definition OnTimerFetchConfig :: "StatusCode \<times> string \<Rightarrow> ConfigKeeper \<Rightarrow> ConfigKeeper" where
  "OnTimerFetchConfig answer k =
     (if fst answer \<noteq> StatusOK then k else k\<lparr>serving_daemon_token := snd answer\<rparr>)"

subsection \<open>Local load\<close>

text \<open>
  \<open>IsAliveProc\<close> on the text of \<open>/proc/<pid>/status\<close>, if the file can be opened. \<open>LOG_FATAL\<close> aborts
  the daemon.
\<close>

fun alive_lines :: "string list \<Rightarrow> fault + bool" where
  "alive_lines [] = Inl Aborted"
| "alive_lines (str # rest) =
     (if StartWith str ''State:'' then
        (let y = fst (read_word (snd (read_word str))) in Inr (y \<noteq> ''Z'' \<and> y \<noteq> ''x'' \<and> y \<noteq> ''X''))
      else alive_lines rest)"

definition IsAliveProc :: "string option \<Rightarrow> fault + bool" where
  "IsAliveProc status = (case status of None \<Rightarrow> Inr False | Some text \<Rightarrow> alive_lines (file_lines text))"

text \<open>
  \<open>permissions_granted\<close> is the set of the process ids, each once. \<open>max_heavy_tasks * 1.5\<close> is computed
  in a double; as the number is below \<open>2 ^ 32\<close> the product is exact and is cut to an integer.
\<close>

record TaskMonitor =
  max_heavy_tasks :: u64
  max_light_tasks :: u64
  heavy_tasks :: u64
  light_tasks :: u64
  permissions_granted :: "int list"

definition TaskMonitor_new :: "32 word \<Rightarrow> u32 \<Rightarrow> TaskMonitor" where
  "TaskMonitor_new flag_max_concurrency hardware_concurrency =
     (let heavy = (if 0 <s flag_max_concurrency then ucast flag_max_concurrency else ucast hardware_concurrency)
      in \<lparr>max_heavy_tasks = heavy, max_light_tasks = heavy + heavy div 2, heavy_tasks = 0, light_tasks = 0,
          permissions_granted = []\<rparr>)"

definition may_enter :: "bool \<Rightarrow> TaskMonitor \<Rightarrow> bool" where
  "may_enter lightweight m \<longleftrightarrow>
     of_nat (length (permissions_granted m)) < max_heavy_tasks m + (if lightweight then max_light_tasks m else 0)"

text \<open>
  \<open>WaitForNewTask\<close>. The counter of waiting tasks is raised, and never lowered: a \<open>unique_ptr\<close> to
  null does not call its deleter. \<open>others\<close> is what happens until the wait ends.
\<close>

definition count_waiter :: "bool \<Rightarrow> TaskMonitor \<Rightarrow> TaskMonitor" where
  "count_waiter lightweight m =
     (if lightweight then m\<lparr>light_tasks := light_tasks m + 1\<rparr> else m\<lparr>heavy_tasks := heavy_tasks m + 1\<rparr>)"

definition monitor_admit :: "int \<Rightarrow> bool \<Rightarrow> TaskMonitor \<Rightarrow> bool \<times> TaskMonitor" where
  "monitor_admit p lightweight m =
     (if may_enter lightweight m
      then (True, if p \<in> set (permissions_granted m) then m
                  else m\<lparr>permissions_granted := permissions_granted m @ [p]\<rparr>)
      else (False, m))"

definition WaitForNewTask ::
  "int \<Rightarrow> bool \<Rightarrow> (TaskMonitor \<Rightarrow> TaskMonitor) \<Rightarrow> TaskMonitor \<Rightarrow> bool \<times> TaskMonitor" where
  "WaitForNewTask p lightweight others m =
     (let m1 = count_waiter lightweight m
      in monitor_admit p lightweight (if may_enter lightweight m1 then m1 else others m1))"

definition DropTask :: "int \<Rightarrow> TaskMonitor \<Rightarrow> TaskMonitor" where
  "DropTask p m = m\<lparr>permissions_granted := filter (\<lambda>q. q \<noteq> p) (permissions_granted m)\<rparr>"

fun drop_dead :: "(int \<Rightarrow> string option) \<Rightarrow> int list \<Rightarrow> fault + int list" where
  "drop_dead status [] = Inr []"
| "drop_dead status (p # ps) =
     bind_fault (IsAliveProc (status p)) (\<lambda>alive.
     bind_fault (drop_dead status ps) (\<lambda>qs. Inr (if alive then p # qs else qs)))"

definition OnTimerCheckAliveProc :: "(int \<Rightarrow> string option) \<Rightarrow> TaskMonitor \<Rightarrow> fault + TaskMonitor" where
  "OnTimerCheckAliveProc status m =
     bind_fault (drop_dead status (permissions_granted m)) (\<lambda>ps. Inr (m\<lparr>permissions_granted := ps\<rparr>))"

end
