(* ===== verification/LocalDispatcher.thy ===== *)
theory LocalDispatcher
  imports DistTask LocalKeepers
begin

text \<open>
  \<open>daemon/local/task_dispatcher.{h,cpp}\<close>: how the local daemon carries a compilation through its
  states, from the client's submission to the result.

  Task descriptions are shared pointers into a store. \<open>PerformTask\<close> runs in a thread of its own; what
  it learns from outside (the cache, the keepers, the servant, the scheduler, the \<open>aborted\<close> flag
  that other threads set) is an argument, and the calls it makes are a list. The timers and the
  calls of clients are operations on the whole dispatcher.
\<close>

section \<open>Definitions\<close>

datatype LocalState = Pending | Ready | Dispatched | Done

text \<open>\<open>ld_result\<close> is the member \<open>output_\<close> of the task.\<close>

record LocalTaskDesc =
  ld_state :: LocalState
  ld_completion_event :: bool
  ld_task_id :: u64
  ld_task :: CxxDistTask
  ld_result :: "(WaitForCXXTaskResponse \<times> string list) option"
  ld_start_deadline :: time_point
  ld_aborted :: bool
  ld_output :: DistOutput
  ld_start_tp :: time_point
  ld_ready_tp :: time_point
  ld_dispatched_tp :: time_point
  ld_completed_tp :: time_point
  ld_task_grant_id :: u64
  ld_servant_location :: string
  ld_servant_task_id :: u64
  ld_last_keep_alive_tp :: time_point

record LocalDispatcher =
  loc_next_id :: u64
  loc_tasks :: "(u64, desc_ptr) umap"
  loc_descs :: "desc_ptr \<Rightarrow> LocalTaskDesc"
  loc_next_desc :: desc_ptr
  performing :: "desc_ptr list"
  hit_cache :: u64
  existed_times :: u64
  run_times :: u64

subsection \<open>Submitting and waiting\<close>

definition new_desc :: "u64 \<Rightarrow> CxxDistTask \<Rightarrow> time_point \<Rightarrow> time_point \<Rightarrow> LocalTaskDesc" where
  "new_desc i task now start_deadline =
     \<lparr>ld_state = Pending, ld_completion_event = False, ld_task_id = i, ld_task = task, ld_result = None,
      ld_start_deadline = start_deadline, ld_aborted = False,
      ld_output = \<lparr>do_exit_code = 0, do_stdout = [], do_stderr = [], do_extra_info = None, do_output_files = []\<rparr>,
      ld_start_tp = now, ld_ready_tp = 0, ld_dispatched_tp = 0, ld_completed_tp = 0, ld_task_grant_id = 0,
      ld_servant_location = [], ld_servant_task_id = 0, ld_last_keep_alive_tp = 0\<rparr>"

definition QueueTask :: "CxxDistTask \<Rightarrow> time_point \<Rightarrow> time_point \<Rightarrow> LocalDispatcher \<Rightarrow> u64 \<times> LocalDispatcher" where
  "QueueTask task now start_deadline s =
     (let i = loc_next_id s + 1; p = loc_next_desc s
      in (i, s\<lparr>loc_next_id := i, loc_next_desc := Suc p,
               loc_descs := (loc_descs s)(p := new_desc i task now start_deadline),
               loc_tasks := umap_set i p (loc_tasks s), performing := performing s @ [p]\<rparr>))"

datatype LocalWaitStatus = LocalWait_OK | LocalWait_Timeout | LocalWait_NotFound

text \<open>
  \<open>WaitForTask\<close>: \<open>others\<close> is what happens while it waits for the event, which resets itself. The
  task that is moved to the caller is represented by its result.
\<close>

definition LocalWaitForTask ::
  "u64 \<Rightarrow> (LocalDispatcher \<Rightarrow> LocalDispatcher) \<Rightarrow> LocalDispatcher
     \<Rightarrow> ((WaitForCXXTaskResponse \<times> string list) option \<times> LocalWaitStatus) \<times> LocalDispatcher" where
  "LocalWaitForTask i others s =
     (case umap_find (loc_tasks s) i of
        None \<Rightarrow> ((None, LocalWait_NotFound), s)
      | Some p \<Rightarrow>
          (let s1 = others s
           in if \<not> ld_completion_event (loc_descs s1 p) then ((None, LocalWait_Timeout), s1)
              else ((ld_result (loc_descs s1 p), LocalWait_OK),
                    s1\<lparr>loc_descs := (loc_descs s1)(p := (loc_descs s1 p)\<lparr>ld_completion_event := False\<rparr>),
                       loc_tasks := umap_erase i (loc_tasks s1)\<rparr>)))"

subsection \<open>Performing a task\<close>

text \<open>How a call ends: it returns, it throws (or does something undefined), or it never ends.\<close>

datatype ending = Returns | Throws fault | Diverges

datatype local_call =
    CallAddTaskRef string u64
  | CallQueueCxxTask string u64
  | CallWaitForTask string u64
  | CallFreeTask string u64
  | CallFreeGrant u64

text \<open>
  What \<open>PerformTask\<close> gets from outside. \<open>pi_grants\<close>: for each round of the loop for a grant the
  \<open>aborted\<close> flag before it and the answer of \<open>TaskGrantKeeper::Get\<close>; \<open>pi_polls\<close>: the same for the
  polls of the servant. \<open>pi_start\<close> is the call of \<open>QueueCxxTask\<close> and \<open>pi_now\<close> the clock.
\<close>

record PerformInputs =
  pi_cache :: "CacheEntry option"
  pi_running :: "RunDesc option"
  pi_add_ref :: bool
  pi_grants :: "(bool \<times> GrantDesc option) list"
  pi_start :: "QueueCxxTaskRequestChunk list \<Rightarrow> (StatusCode \<times> u64) option"
  pi_polls :: "(bool \<times> (StatusCode \<times> WaitForTaskResponseChunk list)) list"
  pi_token :: string
  pi_chunk_size :: u64
  pi_now :: time_point

definition TryReadCache :: "CacheEntry option \<Rightarrow> LocalTaskDesc \<Rightarrow> bool \<times> LocalTaskDesc \<times> ending" where
  "TryReadCache entry d =
     (case (if cache_control (ld_task d) then entry else None) of
        None \<Rightarrow> (False, d, Returns)
      | Some e \<Rightarrow>
          (case TryUnpackFiles (ce_packed e) of
             Inl f \<Rightarrow> (False, d, Throws f)
           | Inr None \<Rightarrow> (False, d, Returns)
           | Inr (Some files) \<Rightarrow>
               (True, d\<lparr>ld_output := \<lparr>do_exit_code = 0, do_stdout = ce_stdout e, do_stderr = ce_stderr e,
                                      do_extra_info = ce_extra_info e, do_output_files = files\<rparr>\<rparr>, Returns)))"

text \<open>The polls of the servant, and then the release of its task, through the stub for \<open>loc\<close>.\<close>

definition wait_and_free ::
  "string \<Rightarrow> PerformInputs \<Rightarrow> LocalTaskDesc \<Rightarrow> LocalTaskDesc \<times> local_call list \<times> ending" where
  "wait_and_free loc inp d =
     (let i = ld_servant_task_id d
      in case WaitServantTask_loop kRetries (pi_polls inp) (ld_output d) of
           Inl f \<Rightarrow> (d, [CallWaitForTask loc i], Throws f)
         | Inr out \<Rightarrow> (d\<lparr>ld_output := out\<rparr>, [CallWaitForTask loc i, CallFreeTask loc i], Returns))"

text \<open>
  The stub is made for the description's own location, before that is set to the one of the
  running task.
\<close>

definition TryGetExistedResult ::
  "PerformInputs \<Rightarrow> LocalTaskDesc \<Rightarrow> bool \<times> LocalTaskDesc \<times> local_call list \<times> ending" where
  "TryGetExistedResult inp d =
     (case pi_running inp of
        None \<Rightarrow> (False, d, [], Returns)
      | Some r \<Rightarrow>
          (let stub = ld_servant_location d; call = CallAddTaskRef stub (rd_servant_task_id r)
           in if \<not> pi_add_ref inp then (False, d, [call], Returns)
              else
                (let d1 = d\<lparr>ld_last_keep_alive_tp := pi_now inp, ld_ready_tp := pi_now inp,
                            ld_dispatched_tp := pi_now inp, ld_task_grant_id := 0,
                            ld_servant_location := rd_servant_location r,
                            ld_servant_task_id := rd_servant_task_id r, ld_state := Dispatched\<rparr>
                 in case wait_and_free stub inp d1 of (d2, calls, e) \<Rightarrow> (True, d2, call # calls, e))))"

fun await_grant :: "(bool \<times> GrantDesc option) list \<Rightarrow> GrantDesc option" where
  "await_grant [] = None"
| "await_grant ((aborted, answer) # rest) =
     (if aborted then None else case answer of Some g \<Rightarrow> Some g | None \<Rightarrow> await_grant rest)"

definition StartNewServantTask ::
  "PerformInputs \<Rightarrow> LocalTaskDesc \<Rightarrow> LocalTaskDesc \<times> local_call list \<times> ending" where
  "StartNewServantTask inp d =
     (case await_grant (pi_grants inp) of
        None \<Rightarrow> (d, [], Returns)
      | Some g \<Rightarrow>
          (let d1 = d\<lparr>ld_last_keep_alive_tp := pi_now inp, ld_ready_tp := pi_now inp,
                      ld_task_grant_id := gd_grant_id g, ld_servant_location := gd_servant_location g,
                      ld_state := Ready\<rparr>;
               stub = ld_servant_location d1; call = CallQueueCxxTask stub (gd_grant_id g)
           in case StartTask (pi_start inp) (pi_chunk_size inp) (pi_token inp) (gd_grant_id g) (ld_task d1) of
                None \<Rightarrow> (d1, [call], Diverges)
              | Some (None, t) \<Rightarrow> (d1\<lparr>ld_task := t\<rparr>, [call, CallFreeGrant (gd_grant_id g)], Returns)
              | Some (Some i, t) \<Rightarrow>
                  (let d2 = d1\<lparr>ld_task := t, ld_dispatched_tp := pi_now inp, ld_state := Dispatched,
                               ld_servant_task_id := i\<rparr>
                   in case wait_and_free stub inp d2 of
                        (d3, calls, Returns) \<Rightarrow> (d3, call # calls @ [CallFreeGrant (gd_grant_id g)], Returns)
                      | (d3, calls, e) \<Rightarrow> (d3, call # calls, e))))"

datatype perform_kind = HitCache | Existed | Ran

text \<open>The body of \<open>PerformTask\<close>: which counter it raises at its end, if it gets there.\<close>

definition perform_body ::
  "PerformInputs \<Rightarrow> LocalTaskDesc \<Rightarrow> perform_kind option \<times> LocalTaskDesc \<times> local_call list \<times> ending" where
  "perform_body inp d =
     (case TryReadCache (pi_cache inp) (d\<lparr>ld_output := (ld_output d)\<lparr>do_exit_code := -114514\<rparr>\<rparr>) of
        (hit, d1, Returns) \<Rightarrow>
          if hit then (Some HitCache, d1, [], Returns)
          else
            (case TryGetExistedResult inp d1 of
               (existed, d2, calls, Returns) \<Rightarrow>
                 if existed then (Some Existed, d2, calls, Returns)
                 else (case StartNewServantTask inp d2 of
                         (d3, calls3, Returns) \<Rightarrow> (Some Ran, d3, calls @ calls3, Returns)
                       | (d3, calls3, e) \<Rightarrow> (None, d3, calls @ calls3, e))
             | (_, d2, calls, e) \<Rightarrow> (None, d2, calls, e))
      | (_, d1, e) \<Rightarrow> (None, d1, [], e))"

text \<open>
  The deferred function: the task gets its output, waiters are woken. It runs also when the body
  throws. Reading an empty optional does not throw but is undefined.
\<close>

definition perform_deferred :: "time_point \<Rightarrow> LocalTaskDesc \<Rightarrow> LocalTaskDesc" where
  "perform_deferred now d =
     d\<lparr>ld_result := Some (RebuildOutput (ld_output d)), ld_state := Done, ld_completed_tp := now,
       ld_completion_event := True\<rparr>"

text \<open>\<open>None\<close>: the thread never ends.\<close>

definition PerformTask ::
  "PerformInputs \<Rightarrow> LocalTaskDesc \<Rightarrow> (fault + perform_kind option \<times> LocalTaskDesc \<times> local_call list) option" where
  "PerformTask inp d =
     (case perform_body inp d of
        (kind, d1, calls, e) \<Rightarrow>
          (case e of
             Diverges \<Rightarrow> None
           | Throws BadOptional \<Rightarrow> Some (Inl BadOptional)
           | _ \<Rightarrow> Some (Inr (kind, perform_deferred (pi_now inp) d1, calls))))"

definition count_kind :: "perform_kind option \<Rightarrow> LocalDispatcher \<Rightarrow> LocalDispatcher" where
  "count_kind kind s =
     (case kind of
        Some HitCache \<Rightarrow> s\<lparr>hit_cache := hit_cache s + 1\<rparr>
      | Some Existed \<Rightarrow> s\<lparr>existed_times := existed_times s + 1\<rparr>
      | Some Ran \<Rightarrow> s\<lparr>run_times := run_times s + 1\<rparr>
      | None \<Rightarrow> s)"

text \<open>The whole thread, on the dispatcher, with no other thread between its steps.\<close>

definition PerformPocoTask ::
  "PerformInputs \<Rightarrow> desc_ptr \<Rightarrow> LocalDispatcher \<Rightarrow> (fault + local_call list \<times> LocalDispatcher) option" where
  "PerformPocoTask inp p s =
     (case PerformTask inp (loc_descs s p) of
        None \<Rightarrow> None
      | Some (Inl f) \<Rightarrow> Some (Inl f)
      | Some (Inr (kind, d, calls)) \<Rightarrow>
          Some (Inr (calls, (count_kind kind s)\<lparr>loc_descs := (loc_descs s)(p := d),
                                              performing := removeAll p (performing s)\<rparr>)))"

subsection \<open>Timers\<close>

definition upd_descs :: "(LocalTaskDesc \<Rightarrow> LocalTaskDesc) \<Rightarrow> LocalDispatcher \<Rightarrow> LocalDispatcher" where
  "upd_descs f s = s\<lparr>loc_descs := (\<lambda>p. if p \<in> snd ` set (loc_tasks s) then f (loc_descs s p) else loc_descs s p)\<rparr>"

definition OnTimerTimeoutAbort :: "time_point \<Rightarrow> LocalDispatcher \<Rightarrow> LocalDispatcher" where
  "OnTimerTimeoutAbort now s =
     upd_descs (\<lambda>d. if ld_start_deadline d < now then d\<lparr>ld_aborted := True\<rparr> else d) s"

definition OnTimerKilledAbort :: "(int \<Rightarrow> bool) \<Rightarrow> LocalDispatcher \<Rightarrow> LocalDispatcher" where
  "OnTimerKilledAbort IsProcAlive s =
     upd_descs (\<lambda>d. if \<not> ld_aborted d \<and> \<not> IsProcAlive (dt_requester_pid (ld_task d)) then d\<lparr>ld_aborted := True\<rparr> else d) s"

text \<open>The first part of \<open>OnTimerKeepAlive\<close>: which tasks are kept alive, and which are given up.\<close>

definition alive_candidate :: "LocalTaskDesc \<Rightarrow> bool" where
  "alive_candidate d \<longleftrightarrow> ld_state d \<noteq> Pending \<and> ld_state d \<noteq> Done \<and> \<not> ld_aborted d"

definition keep_alive_stale :: "time_point \<Rightarrow> LocalTaskDesc \<Rightarrow> bool" where
  "keep_alive_stale now d \<longleftrightarrow> now - ld_last_keep_alive_tp d > sec 60"

definition keep_alive_collect :: "time_point \<Rightarrow> LocalDispatcher \<Rightarrow> (u64 \<times> u64) list \<times> LocalDispatcher" where
  "keep_alive_collect now s =
     (map (\<lambda>(i, p). (ld_task_id (loc_descs s p), ld_task_grant_id (loc_descs s p)))
        (filter (\<lambda>(i, p). alive_candidate (loc_descs s p) \<and> \<not> keep_alive_stale now (loc_descs s p)) (loc_tasks s)),
      upd_descs (\<lambda>d. if alive_candidate d \<and> keep_alive_stale now d then d\<lparr>ld_aborted := True\<rparr> else d) s)"

definition keep_alive_refresh :: "time_point \<Rightarrow> u64 \<Rightarrow> LocalDispatcher \<Rightarrow> LocalDispatcher" where
  "keep_alive_refresh now i s =
     (case umap_find (loc_tasks s) i of
        None \<Rightarrow> s
      | Some p \<Rightarrow> s\<lparr>loc_descs := (loc_descs s)(p := (loc_descs s p)\<lparr>ld_last_keep_alive_tp := now\<rparr>)\<rparr>)"

text \<open>\<open>rpc\<close> is the scheduler's \<open>KeepTaskAlive\<close>: its status and the flags, for these grant ids.\<close>

definition OnTimerKeepAlive ::
  "time_point \<Rightarrow> (u64 list \<Rightarrow> StatusCode \<times> bool list) \<Rightarrow> LocalDispatcher \<Rightarrow> LocalDispatcher" where
  "OnTimerKeepAlive now rpc s =
     (case keep_alive_collect now s of
        (ids, s1) \<Rightarrow>
          if ids = [] then s1
          else (case rpc (map snd ids) of
                  (code, flags) \<Rightarrow>
                    if code \<noteq> StatusOK \<or> length flags \<noteq> length ids then s1
                    else fold (\<lambda>((i, g), ok) s. if ok then keep_alive_refresh now i s else s) (zip ids flags) s1))"

definition OnTimerClear :: "time_point \<Rightarrow> LocalDispatcher \<Rightarrow> LocalDispatcher" where
  "OnTimerClear now s =
     s\<lparr>loc_tasks := filter (\<lambda>(i, p).
         \<not> (ld_state (loc_descs s p) = Done \<and>
            (ld_aborted (loc_descs s p) \<or> ld_start_deadline (loc_descs s p) + sec 60 < now))) (loc_tasks s)\<rparr>"

end
