(* ===== verification/LocalKeepers_Props.thy ===== *)
theory LocalKeepers_Props
  imports LocalKeepers
begin

text \<open>
  What the keepers of the local daemon guarantee: the load limit of the task monitor over every
  interleaving, which running task a digest finds, and what happens to prefetched grants.
\<close>

section \<open>The task monitor\<close>

text \<open>The atomic steps of the monitor, in any order and by any number of threads.\<close>

inductive monitor_step :: "TaskMonitor \<Rightarrow> TaskMonitor \<Rightarrow> bool" where
  count: "monitor_step m (count_waiter lightweight m)"
| admit: "monitor_step m (snd (monitor_admit p lightweight m))"
| drop: "monitor_step m (DropTask p m)"
| check: "OnTimerCheckAliveProc status m = Inr m' \<Longrightarrow> monitor_step m m'"

lemma drop_dead_subseq:
  "drop_dead status ps = Inr qs \<Longrightarrow>
     length qs \<le> length ps \<and> set qs \<subseteq> set ps \<and> (distinct ps \<longrightarrow> distinct qs)"
proof (induction ps arbitrary: qs)
  case (Cons p ps)
  from Cons.prems obtain alive rs where "drop_dead status ps = Inr rs" "qs = (if alive then p # rs else rs)" by auto
  with Cons.IH[of rs] show ?case by auto
qed simp

definition monitor_inv :: "u64 \<Rightarrow> u64 \<Rightarrow> TaskMonitor \<Rightarrow> bool" where
  "monitor_inv heavy light m \<longleftrightarrow>
     max_heavy_tasks m = heavy \<and> max_light_tasks m = light \<and> distinct (permissions_granted m) \<and>
     length (permissions_granted m) \<le> unat heavy + unat light"

lemma may_enter_below:
  assumes "may_enter lightweight m" and "monitor_inv heavy light m" and "unat heavy + unat light < 2 ^ 64"
  shows "length (permissions_granted m) < unat heavy + (if lightweight then unat light else 0)"
proof -
  have "length (permissions_granted m) < 2 ^ 64" using assms(2,3) by (simp add: monitor_inv_def)
  moreover have "unat (heavy + light) = unat heavy + unat light" using assms(3) by (simp add: unat_word_ariths)
  ultimately show ?thesis
    using assms(1,2) by (auto simp: may_enter_def monitor_inv_def word_less_nat_alt unat_of_nat_u64 split: if_splits)
qed

lemma monitor_step_inv:
  assumes "monitor_step m m'" and "monitor_inv heavy light m" and "unat heavy + unat light < 2 ^ 64"
  shows "monitor_inv heavy light m'"
  using assms(1)
proof cases
  case (count lightweight)
  with assms(2) show ?thesis by (simp add: monitor_inv_def count_waiter_def)
next
  case (admit p lightweight)
  with assms(2) may_enter_below[OF _ assms(2,3), of lightweight] show ?thesis
    by (auto simp: monitor_inv_def monitor_admit_def split: if_splits)
next
  case (drop p)
  with assms(2) show ?thesis
    by (auto simp: monitor_inv_def DropTask_def intro: order_trans[OF length_filter_le])
next
  case (check status)
  with assms(2) show ?thesis
    by (auto simp: monitor_inv_def OnTimerCheckAliveProc_def dest!: drop_dead_subseq)
qed

interpretation monitor: step_invariant monitor_step
  "\<lambda>m. unat heavy + unat light < 2 ^ 64 \<and> monitor_inv heavy light m" for heavy light
  by unfold_locales (auto intro: monitor_step_inv)

lemma TaskMonitor_new_limits:
  "unat (max_heavy_tasks (TaskMonitor_new flag cores)) < 2 ^ 32 \<and>
   unat (max_light_tasks (TaskMonitor_new flag cores)) < 2 ^ 33"
proof -
  define h where "h = max_heavy_tasks (TaskMonitor_new flag cores)"
  have "unat (ucast w :: u64) < 2 ^ 32" for w :: u32
    using unsigned_less[of w, where ?'a = nat] by (simp add: unsigned_ucast_eq take_bit_nat_eq_self)
  then have h: "unat h < 2 ^ 32" by (simp add: h_def TaskMonitor_new_def Let_def)
  have light: "max_light_tasks (TaskMonitor_new flag cores) = h + h div 2"
    by (simp add: h_def TaskMonitor_new_def Let_def)
  have "unat (h div 2) = unat h div 2" by (simp add: unat_div)
  then have "unat (h + h div 2) = unat h + unat h div 2" using h by (simp add: unat_word_ariths)
  with h light show ?thesis unfolding h_def[symmetric] by simp
qed

section \<open>Grants\<close>

lemma drop_expired_eq:
  "\<forall>g \<in> set gs. \<forall>i. expire_tp g < clock i \<Longrightarrow> drop_expired clock n gs = []"
  by (induction gs arbitrary: n) auto

section \<open>Running tasks\<close>

lemma find_snoc: "find P (xs @ [x]) = (case find P xs of Some y \<Rightarrow> Some y | None \<Rightarrow> if P x then Some x else None)"
  by (induction xs) auto

lemma umap_find_fold_set:
  "umap_find (fold (\<lambda>t m. umap_set (f t) (g t) m) ts m) k =
     (case find (\<lambda>t. f t = k) (rev ts) of Some t \<Rightarrow> Some (g t) | None \<Rightarrow> umap_find m k)"
  by (induction ts arbitrary: m) (auto simp: umap.look_put find_snoc split: option.split)

section \<open>Properties\<close>

text \<open>
  Claim C31. Load of the local machine: however the requests, releases and checks of any number of
  threads interleave, a fresh monitor never has more than \<open>max_heavy + max_light\<close> processes with
  permission, each once, and a request for a heavy task is granted only while fewer than
  \<open>max_heavy\<close> processes have permission.
\<close>

theorem monitor_capacity:
  assumes "monitor_step\<^sup>*\<^sup>* (TaskMonitor_new flag cores) m"
  shows "distinct (permissions_granted m) \<and>
    length (permissions_granted m) \<le> unat (max_heavy_tasks m) + unat (max_light_tasks m) \<and>
    (fst (monitor_admit p False m) \<longrightarrow> length (permissions_granted m) < unat (max_heavy_tasks m))"
proof -
  let ?m0 = "TaskMonitor_new flag cores"
  have b: "unat (max_heavy_tasks ?m0) + unat (max_light_tasks ?m0) < 2 ^ 64"
    using TaskMonitor_new_limits[of flag cores] by simp
  have "monitor_inv (max_heavy_tasks ?m0) (max_light_tasks ?m0) ?m0"
    by (simp add: monitor_inv_def TaskMonitor_new_def Let_def)
  with b monitor.reach_inv[OF assms] have inv: "monitor_inv (max_heavy_tasks ?m0) (max_light_tasks ?m0) m" by blast
  then show ?thesis
    using may_enter_below[OF _ inv b, of False] by (auto simp: monitor_inv_def monitor_admit_def split: if_splits)
qed

theorem monitor_capacity_witness:
  "\<exists>m. monitor_step\<^sup>*\<^sup>* (TaskMonitor_new 2 8) m \<and> permissions_granted m = [77] \<and> length (permissions_granted m) \<le> 5"
proof -
  let ?m = "snd (monitor_admit 77 False (TaskMonitor_new 2 8))"
  have s: "monitor_step\<^sup>*\<^sup>* (TaskMonitor_new 2 8) ?m" by (intro r_into_rtranclp monitor_step.admit)
  moreover have "permissions_granted ?m = [77]"
    by (simp add: monitor_admit_def may_enter_def TaskMonitor_new_def Let_def word_less_nat_alt word_sless_alt)
  ultimately show ?thesis using monitor_capacity[OF s] by (intro exI[of _ ?m]) simp
qed

text \<open>
  The running tasks a local daemon knows: after a successful refresh a digest is found
  exactly if the scheduler's answer has it, with the location and id of the last report for it; a
  failed refresh changes nothing, or forgets everything once the last success is over 5 seconds ago.
\<close>

theorem run_keeper_refresh:
  "TryFindTask digest (OnTimerRefresh now (code, reports) k) =
     (if code = StatusOK then
        map_option (\<lambda>r. \<lparr>rd_servant_location = servant_location r, rd_servant_task_id = servant_task_id r\<rparr>)
          (find (\<lambda>r. task_digest r = digest) (rev reports))
      else if now - last_update_time k > sec 5 then None else TryFindTask digest k)"
  by (auto simp: TryFindTask_def OnTimerRefresh_def umap_find_fold_set umap.look_emp split: option.split)

text \<open>
  Prefetched grants are thrown away: a grant is stored with the time of its arrival as its
  expiry, so a later \<open>Get\<close> drops every grant that is in the queue and waits for a new one, although
  the scheduler holds each of them for 15 seconds.
\<close>

theorem prefetched_grants_dropped:
  assumes "remaining keeper = []" and "\<forall>i j. clock i < clock' j"
  shows "fst (Get_begin clock' (fetch_answer clock (StatusOK, grants) keeper)) = None \<and>
    remaining (snd (Get_begin clock' (fetch_answer clock (StatusOK, grants) keeper))) = [] \<and>
    ws_next_keep_alive_in_ms (fetch_request token keeper) = 15000"
proof -
  have "drop_expired clock' 0 (remaining (fetch_answer clock (StatusOK, grants) keeper)) = []"
    using assms by (intro drop_expired_eq) (auto simp: fetch_answer_def kMaxWait_def kNetworkDelayTolerance_def)
  then show ?thesis by (simp add: Get_begin_def fetch_request_def)
qed

theorem prefetched_grants_dropped_witness:
  "fst (Get_begin (\<lambda>_. 8) (fetch_answer (\<lambda>_. 7) (StatusOK, [\<lparr>alloc_task_id = 3, alloc_servant_location = ''s''\<rparr>])
     \<lparr>keeper_env_desc = \<lparr>compiler_digest = ''aa''\<rparr>, waiters = 0, remaining = []\<rparr>)) = None"
  using prefetched_grants_dropped[of "\<lparr>keeper_env_desc = \<lparr>compiler_digest = ''aa''\<rparr>, waiters = 0, remaining = []\<rparr>"
      "\<lambda>_. 7" "\<lambda>_. 8" "[\<lparr>alloc_task_id = 3, alloc_servant_location = ''s''\<rparr>]"] by simp

end
