(* ===== verification/Local_Props.thy ===== *)
theory Local_Props
  imports LocalDispatcher LocalKeepers_Props Cloud_Props
begin

text \<open>
  What the local dispatcher guarantees: performing a task always completes it, gives its grant and
  its servant task back, and what joining a running task and the timers do.
\<close>

section \<open>Unpacking never reads an empty optional\<close>

lemma stol_fault: "stol s = Inl f \<Longrightarrow> f \<noteq> BadOptional"
  by (auto simp: stol_def split: option.splits if_splits)

lemma stoul_fault: "stoul s = Inl f \<Longrightarrow> f \<noteq> BadOptional"
  by (auto simp: stoul_def split: option.splits if_splits)

lemma bind_fault_Inl:
  "bind_fault m k = Inl f \<longleftrightarrow> m = Inl f \<or> (\<exists>x. m = Inr x \<and> k x = Inl f)"
  by (cases m) auto

lemma substr_fault: "substr s a n = Inl f \<Longrightarrow> f \<noteq> BadOptional"
  by (auto simp: substr_def split: if_splits)

lemma unpack_loop_fault: "unpack_loop packed n zs = Inl f \<Longrightarrow> f \<noteq> BadOptional"
  by (induction packed n zs rule: unpack_loop.induct)
     (auto simp: bind_fault_Inl Let_def dest: stol_fault stoul_fault substr_fault split: if_splits)

lemma TryUnpackFiles_fault: "TryUnpackFiles packed = Inl f \<Longrightarrow> f \<noteq> BadOptional"
  by (auto simp: TryUnpackFiles_def Let_def bind_fault_Inl split_def dest: stol_fault unpack_loop_fault split: if_splits)

section \<open>Polling\<close>

text \<open>An answer of a servant that does not say that the task runs.\<close>

definition not_running :: "StatusCode \<times> WaitForTaskResponseChunk list \<Rightarrow> bool" where
  "not_running answer \<longleftrightarrow> wr_task_status (fst (wait_read blank_response [] (snd answer))) \<noteq> TASK_STATUS_RUNNING"

lemma CloudWaitForTask_not_running:
  assumes "CloudWaitForTask chunk_size autoreset others token i types d ex = Inr (code, Some frames, ex')"
  shows "not_running (code, frames)"
  using assms
  by (auto simp: CloudWaitForTask_def not_running_def wait_read_data blank_response_def Let_def
      split: if_splits option.splits prod.splits)

lemma WaitServantTask_fault:
  assumes "WaitServantTask answer = Inl f"
  shows "f \<noteq> BadOptional"
  using assms
  by (auto simp: WaitServantTask_def split_def Let_def bind_fault_Inl dest: TryUnpackFiles_fault
      split: if_splits option.splits)

lemma WaitServantTask_code:
  assumes "WaitServantTask answer = Inr (None, code)" and "not_running answer"
  shows "code = 1 \<or> code = 3"
  using assms
  by (auto simp: WaitServantTask_def split_def Let_def not_running_def split: if_splits option.splits)

lemma WaitServantTask_loop_fault:
  "WaitServantTask_loop n polls out = Inl f \<Longrightarrow> \<forall>(a, answer) \<in> set polls. not_running answer \<Longrightarrow> f \<noteq> BadOptional"
proof (induction n polls out rule: WaitServantTask_loop.induct)
  case (3 n aborted answer polls out)
  show ?case
  proof (cases "WaitServantTask answer")
    case (Inl g)
    with 3 WaitServantTask_fault[of answer g] show ?thesis by (auto split: if_splits)
  next
    case (Inr r)
    obtain res code where r: "r = (res, code)" by (cases r)
    have "code = 1 \<or> code = 3" if "res = None"
      using WaitServantTask_code[of answer code] Inr r that 3(3) by simp
    with 3 Inr r show ?thesis by (auto split: if_splits option.splits)
  qed
qed simp_all

section \<open>Performing a task\<close>

lemma StartTask_returns: "0 < chunk_size \<Longrightarrow> StartTask rpc chunk_size token g t = None \<longleftrightarrow> False"
  using start_frames_total[of chunk_size token g t] by (auto simp: StartTask_def split: option.splits)

text \<open>An ending after which the deferred function runs.\<close>

definition calm :: "ending \<Rightarrow> bool" where
  "calm e \<longleftrightarrow> e \<noteq> Diverges \<and> e \<noteq> Throws BadOptional"

lemma calm_simps [simp]: "calm Returns" "\<not> calm Diverges" "calm (Throws f) \<longleftrightarrow> f \<noteq> BadOptional"
  by (simp_all add: calm_def)

lemma TryReadCache_calm: "calm (snd (snd (TryReadCache entry d)))"
  by (auto simp: TryReadCache_def dest: TryUnpackFiles_fault split: option.split sum.split)

lemma wait_and_free_calm:
  "\<forall>(a, answer) \<in> set (pi_polls inp). not_running answer \<Longrightarrow> calm (snd (snd (wait_and_free loc inp d)))"
  by (auto simp: wait_and_free_def Let_def dest: WaitServantTask_loop_fault split: sum.split)

lemma TryGetExistedResult_calm:
  "\<forall>(a, answer) \<in> set (pi_polls inp). not_running answer \<Longrightarrow> calm (snd (snd (snd (TryGetExistedResult inp d))))"
  using wait_and_free_calm[of inp]
  by (auto simp: TryGetExistedResult_def Let_def split_def split: option.split)

fun grants_freed :: "local_call list \<Rightarrow> u64 list" where
  "grants_freed [] = []"
| "grants_freed (CallFreeGrant g # calls) = g # grants_freed calls"
| "grants_freed (_ # calls) = grants_freed calls"

fun tasks_freed :: "local_call list \<Rightarrow> (string \<times> u64) list" where
  "tasks_freed [] = []"
| "tasks_freed (CallFreeTask loc i # calls) = (loc, i) # tasks_freed calls"
| "tasks_freed (_ # calls) = tasks_freed calls"

lemma freed_append [simp]:
  "grants_freed (xs @ ys) = grants_freed xs @ grants_freed ys"
  "tasks_freed (xs @ ys) = tasks_freed xs @ tasks_freed ys"
  by (induction xs rule: grants_freed.induct) simp_all

lemma wait_and_free_frees:
  assumes "wait_and_free loc inp d = (d', calls, e)"
  shows "grants_freed calls = [] \<and> tasks_freed calls = (if e = Returns then [(loc, ld_servant_task_id d)] else [])"
  using assms by (auto simp: wait_and_free_def Let_def split: sum.splits)

text \<open>The servant task a submission leads to, if it gets a grant and is accepted.\<close>

definition submitted :: "PerformInputs \<Rightarrow> CxxDistTask \<Rightarrow> (string \<times> u64) list" where
  "submitted inp task =
     (case await_grant (pi_grants inp) of
        None \<Rightarrow> []
      | Some g \<Rightarrow>
          (case StartTask (pi_start inp) (pi_chunk_size inp) (pi_token inp) (gd_grant_id g) task of
             Some (Some i, t) \<Rightarrow> [(gd_servant_location g, i)]
           | _ \<Rightarrow> []))"

definition granted :: "PerformInputs \<Rightarrow> u64 list" where
  "granted inp = (case await_grant (pi_grants inp) of None \<Rightarrow> [] | Some g \<Rightarrow> [gd_grant_id g])"

lemma StartNewServantTask_frees:
  assumes "StartNewServantTask inp d = (d', calls, e)"
  shows "grants_freed calls = (if e = Returns then granted inp else []) \<and>
    (e = Returns \<longrightarrow> tasks_freed calls = submitted inp (ld_task d))"
  using assms
  by (auto simp: StartNewServantTask_def Let_def granted_def submitted_def dest: wait_and_free_frees
      split: option.splits prod.splits ending.splits)

lemma StartNewServantTask_calm:
  assumes "0 < pi_chunk_size inp" and "\<forall>(a, answer) \<in> set (pi_polls inp). not_running answer"
    and "StartNewServantTask inp d = (d', calls, e)"
  shows "calm e"
proof -
  have w: "wait_and_free loc inp d2 = (d3, cs, e3) \<Longrightarrow> calm e3" for loc d2 d3 cs e3
    using wait_and_free_calm[OF assms(2), of loc d2] by simp
  show ?thesis
    using assms(3)
    by (auto simp: StartNewServantTask_def StartTask_returns[OF assms(1)] Let_def dest: w
        split: option.splits prod.splits ending.splits)
qed

lemma TryGetExistedResult_frees:
  assumes "TryGetExistedResult inp d = (existed, d', calls, e)"
  shows "grants_freed calls = [] \<and> (\<not> existed \<longrightarrow> tasks_freed calls = [] \<and> d' = d) \<and>
    (existed \<longrightarrow> (\<exists>r. pi_running inp = Some r \<and> pi_add_ref inp \<and>
       (e = Returns \<longrightarrow> tasks_freed calls = [(ld_servant_location d, rd_servant_task_id r)])))"
  using assms
  by (auto simp: TryGetExistedResult_def Let_def dest: wait_and_free_frees split: option.splits prod.splits if_splits)

lemma perform_body_calm:
  assumes "0 < pi_chunk_size inp" and "\<forall>(a, answer) \<in> set (pi_polls inp). not_running answer"
    and "perform_body inp d = (kind, d', calls, e)"
  shows "calm e"
proof -
  have c: "TryReadCache entry d1 = (b, d2, e2) \<Longrightarrow> calm e2" for entry d1 b d2 e2
    using TryReadCache_calm[of entry d1] by simp
  have t: "TryGetExistedResult inp d1 = (b, d2, cs, e2) \<Longrightarrow> calm e2" for d1 b d2 cs e2
    using TryGetExistedResult_calm[OF assms(2), of d1] by simp
  show ?thesis
    using assms(3)
    by (auto simp: perform_body_def dest: c t StartNewServantTask_calm[OF assms(1,2)]
        split: prod.splits ending.splits if_splits)
qed

lemma PerformTask_eq:
  "perform_body inp d = (kind, d1, calls, e) \<Longrightarrow> calm e \<Longrightarrow>
     PerformTask inp d = Some (Inr (kind, perform_deferred (pi_now inp) d1, calls))"
  by (auto simp: PerformTask_def split: ending.split fault.split)

lemma TryReadCache_task: "TryReadCache entry d = (b, d', e) \<Longrightarrow> ld_task d' = ld_task d \<and> ld_servant_location d' = ld_servant_location d"
  by (auto simp: TryReadCache_def split: option.splits sum.splits)

lemma perform_body_frees:
  assumes "perform_body inp d = (kind, d', calls, e)"
  shows "grants_freed calls = (if kind = Some Ran then granted inp else []) \<and>
    (kind = Some Ran \<longrightarrow> tasks_freed calls = submitted inp (ld_task d)) \<and>
    (kind = Some Existed \<longrightarrow> (\<exists>r. pi_running inp = Some r \<and> pi_add_ref inp \<and>
       tasks_freed calls = [(ld_servant_location d, rd_servant_task_id r)])) \<and>
    (kind = Some HitCache \<longrightarrow> calls = [])"
proof -
  obtain hit d1 e1 where 1: "TryReadCache (pi_cache inp) (d\<lparr>ld_output := (ld_output d)\<lparr>do_exit_code := -114514\<rparr>\<rparr>) = (hit, d1, e1)"
    by (metis prod_cases3)
  note d1 = TryReadCache_task[OF 1]
  obtain existed d2 calls2 e2 where 2: "TryGetExistedResult inp d1 = (existed, d2, calls2, e2)" by (metis prod_cases4)
  note d2 = TryGetExistedResult_frees[OF 2]
  obtain d3 calls3 e3 where 3: "StartNewServantTask inp d2 = (d3, calls3, e3)" by (metis prod_cases3)
  note d3 = StartNewServantTask_frees[OF 3]
  show ?thesis
    using assms d1 d2 d3 unfolding perform_body_def 1 2 3 prod.case
    by (cases e1; cases hit; cases e2; cases existed; cases e3) (auto simp: 2 3)
qed

section \<open>The table of tasks\<close>

text \<open>
  The dispatcher as a state machine. A thread that performs a task changes its description in
  several steps (\<open>progress\<close>), of which nothing is assumed but which fields it leaves alone, and at
  last runs the deferred function. The rest are the calls of clients and the timers.
\<close>

definition in_progress :: "LocalTaskDesc \<Rightarrow> LocalTaskDesc \<Rightarrow> bool" where
  "in_progress d d' \<longleftrightarrow>
     ld_task_id d' = ld_task_id d \<and> ld_start_deadline d' = ld_start_deadline d \<and> ld_aborted d' = ld_aborted d \<and>
     ld_completion_event d' = ld_completion_event d \<and> ld_result d' = ld_result d \<and> ld_state d' \<noteq> Done"

definition blank_dist_task :: CxxDistTask where
  "blank_dist_task = \<lparr>cache_control = False, dt_requester_pid = 0, dt_env_desc = \<lparr>compiler_digest = []\<rparr>,
     dt_source_path = [], dt_source_digest = [], dt_args = [], dt_source = []\<rparr>"

definition local_init :: LocalDispatcher where
  "local_init = \<lparr>loc_next_id = 0, loc_tasks = [], loc_descs = (\<lambda>_. new_desc 0 blank_dist_task 0 0),
     loc_next_desc = 0, performing = [], hit_cache = 0, existed_times = 0, run_times = 0\<rparr>"

inductive local_step :: "LocalDispatcher \<Rightarrow> LocalDispatcher \<Rightarrow> bool" where
  queue: "unat (loc_next_id s) < 2 ^ 64 - 1 \<Longrightarrow> local_step s (snd (QueueTask task now deadline s))"
| progress: "p \<in> set (performing s) \<Longrightarrow> in_progress (loc_descs s p) d \<Longrightarrow>
    local_step s (s\<lparr>loc_descs := (loc_descs s)(p := d)\<rparr>)"
| finish: "p \<in> set (performing s) \<Longrightarrow>
    local_step s (s\<lparr>loc_descs := (loc_descs s)(p := perform_deferred now (loc_descs s p)),
                    performing := removeAll p (performing s)\<rparr>)"
| count: "local_step s (count_kind kind s)"
| wait: "local_step s (snd (LocalWaitForTask i (\<lambda>u. u) s))"
| timeout_abort: "local_step s (OnTimerTimeoutAbort now s)"
| killed_abort: "local_step s (OnTimerKilledAbort alive s)"
| keep_collect: "local_step s (snd (keep_alive_collect now s))"
| keep_refresh: "local_step s (keep_alive_refresh now i s)"
| clear: "local_step s (OnTimerClear now s)"

definition desc_ok :: "bool \<Rightarrow> LocalTaskDesc \<Rightarrow> bool" where
  "desc_ok running d \<longleftrightarrow>
     (ld_state d = Done \<longleftrightarrow> \<not> running) \<and> (ld_state d = Done \<longrightarrow> ld_result d \<noteq> None) \<and>
     (ld_completion_event d \<longrightarrow> ld_state d = Done)"

definition local_inv :: "LocalDispatcher \<Rightarrow> bool" where
  "local_inv s \<longleftrightarrow>
     umap_wf (loc_tasks s) \<and> distinct (map snd (loc_tasks s)) \<and>
     (\<forall>(i, p) \<in> set (loc_tasks s). p < loc_next_desc s \<and> ld_task_id (loc_descs s p) = i \<and> i \<le> loc_next_id s) \<and>
     set (performing s) \<subseteq> snd ` set (loc_tasks s) \<and>
     (\<forall>p < loc_next_desc s. desc_ok (p \<in> set (performing s)) (loc_descs s p))"

lemma local_init_inv: "local_inv local_init"
  by (simp add: local_inv_def local_init_def umap.ok_emp)

text \<open>Steps that change only descriptions keep the invariant if they keep what it says of each.\<close>

lemma local_inv_descs:
  assumes "local_inv s" and "\<And>p. ld_task_id (f p) = ld_task_id (loc_descs s p)"
    and "\<And>p. p < loc_next_desc s \<Longrightarrow> desc_ok (p \<in> set (performing s)) (f p)"
  shows "local_inv (s\<lparr>loc_descs := f\<rparr>)"
  using assms by (auto simp: local_inv_def)

lemma local_inv_upd_descs:
  assumes "local_inv s"
    and "\<And>d. ld_task_id (f d) = ld_task_id d" and "\<And>r d. desc_ok r d \<Longrightarrow> desc_ok r (f d)"
  shows "local_inv (upd_descs f s)"
  unfolding upd_descs_def using assms by (intro local_inv_descs) (auto simp: local_inv_def)

lemma local_inv_keep:
  assumes "local_inv s" and "\<And>i p. (i, p) \<in> set (loc_tasks s) \<Longrightarrow> \<not> P (i, p) \<Longrightarrow> p \<notin> set (performing s)"
  shows "local_inv (s\<lparr>loc_tasks := filter P (loc_tasks s)\<rparr>)"
  using assms
  by (fastforce simp: local_inv_def umap_wf_def distinct_map_filter)

lemma desc_ok_aborted [simp]: "desc_ok r (d\<lparr>ld_aborted := b\<rparr>) \<longleftrightarrow> desc_ok r d"
  by (simp add: desc_ok_def)

lemma queue_inv:
  assumes "local_inv s" and "unat (loc_next_id s) < 2 ^ 64 - 1"
  shows "local_inv (snd (QueueTask task now deadline s))"
proof -
  let ?i = "loc_next_id s + 1"
  have lt: "loc_next_id s < ?i" using unat_inc[OF assms(2)] by (simp add: word_less_nat_alt)
  then have fresh: "umap_find (loc_tasks s) ?i = None"
    using assms(1) by (auto simp: local_inv_def umap_find_None_iff)
  then have "umap_set ?i (loc_next_desc s) (loc_tasks s) = loc_tasks s @ [(?i, loc_next_desc s)]"
    by (rule umap_set_fresh)
  moreover have "umap_wf (umap_set ?i (loc_next_desc s) (loc_tasks s))"
    using assms(1) by (simp add: local_inv_def umap.ok_put)
  ultimately show ?thesis
    using assms(1) lt
    by (fastforce simp: QueueTask_def local_inv_def Let_def desc_ok_def new_desc_def less_Suc_eq)
qed

lemma wait_inv:
  assumes "local_inv s"
  shows "local_inv (snd (LocalWaitForTask i (\<lambda>u. u) s))"
proof (cases "umap_find (loc_tasks s) i")
  case None
  with assms show ?thesis by (simp add: LocalWaitForTask_def)
next
  case (Some p)
  show ?thesis
  proof (cases "ld_completion_event (loc_descs s p)")
    case False
    with assms Some show ?thesis by (simp add: LocalWaitForTask_def)
  next
    case True
    let ?s1 = "s\<lparr>loc_descs := (loc_descs s)(p := (loc_descs s p)\<lparr>ld_completion_event := False\<rparr>)\<rparr>"
    have ip: "(i, p) \<in> set (loc_tasks s)" "p < loc_next_desc s"
      using Some assms by (auto simp: local_inv_def dest!: umap_find_SomeD)
    with assms True have np: "p \<notin> set (performing s)" by (auto simp: local_inv_def desc_ok_def)
    have "local_inv ?s1" using assms by (intro local_inv_descs) (auto simp: local_inv_def desc_ok_def)
    moreover have "q = p" if "(i, q) \<in> set (loc_tasks s)" for q
      using that ip assms by (auto simp: local_inv_def umap_wf_def dest: eq_key_imp_eq_value)
    ultimately have "local_inv (?s1\<lparr>loc_tasks := filter (\<lambda>(k, _). k \<noteq> i) (loc_tasks ?s1)\<rparr>)"
      using np by (intro local_inv_keep) auto
    with Some True show ?thesis by (simp add: LocalWaitForTask_def umap_erase_def Let_def)
  qed
qed

lemma local_step_inv:
  assumes "local_step s s'" and "local_inv s"
  shows "local_inv s'"
  using assms(1)
proof cases
  case (queue task now deadline)
  with queue_inv[OF assms(2)] show ?thesis by simp
next
  case (progress p d)
  with assms(2) show ?thesis
    by (auto intro!: local_inv_descs simp: in_progress_def local_inv_def desc_ok_def)
next
  case (finish p now)
  with assms(2) show ?thesis by (auto simp: local_inv_def desc_ok_def perform_deferred_def)
next
  case (count kind)
  with assms(2) show ?thesis by (auto simp: count_kind_def local_inv_def split: option.split perform_kind.split)
next
  case (wait i)
  with wait_inv[OF assms(2)] show ?thesis by simp
next
  case (timeout_abort now)
  with assms(2) show ?thesis by (auto simp: OnTimerTimeoutAbort_def intro!: local_inv_upd_descs)
next
  case (killed_abort alive)
  with assms(2) show ?thesis by (auto simp: OnTimerKilledAbort_def intro!: local_inv_upd_descs)
next
  case (keep_collect now)
  with assms(2) show ?thesis by (auto simp: keep_alive_collect_def intro!: local_inv_upd_descs)
next
  case (keep_refresh now i)
  with assms(2) show ?thesis
    by (auto simp: keep_alive_refresh_def local_inv_def desc_ok_def split: option.split intro!: local_inv_descs)
next
  case (clear now)
  show ?thesis unfolding clear OnTimerClear_def
    using assms(2) by (intro local_inv_keep) (auto simp: local_inv_def desc_ok_def)
qed

interpretation local_run: step_invariant local_step local_inv
  by unfold_locales (rule local_step_inv)

text \<open>What a thread does to a description until its deferred function is a \<open>progress\<close>.\<close>

lemma wait_and_free_fields:
  "wait_and_free loc inp d = (d', calls, e) \<Longrightarrow>
     ld_task_id d' = ld_task_id d \<and> ld_start_deadline d' = ld_start_deadline d \<and> ld_aborted d' = ld_aborted d \<and>
     ld_completion_event d' = ld_completion_event d \<and> ld_result d' = ld_result d \<and> ld_state d' = ld_state d"
  by (auto simp: wait_and_free_def Let_def split: sum.splits)

lemma StartNewServantTask_progress:
  "StartNewServantTask inp d = (d', calls, e) \<Longrightarrow> ld_state d \<noteq> Done \<Longrightarrow> in_progress d d'"
  by (auto simp: StartNewServantTask_def Let_def in_progress_def dest!: wait_and_free_fields
      split: option.splits prod.splits ending.splits)

lemma TryGetExistedResult_progress:
  "TryGetExistedResult inp d = (b, d', calls, e) \<Longrightarrow> ld_state d \<noteq> Done \<Longrightarrow> in_progress d d'"
  by (auto simp: TryGetExistedResult_def Let_def in_progress_def dest!: wait_and_free_fields
      split: option.splits prod.splits if_splits)

lemma TryReadCache_progress:
  "TryReadCache entry d = (b, d', e) \<Longrightarrow> ld_state d \<noteq> Done \<Longrightarrow> in_progress d d'"
  by (auto simp: TryReadCache_def in_progress_def split: option.splits sum.splits)

lemma perform_body_progress:
  assumes "perform_body inp d = (kind, d', calls, e)" and "ld_state d \<noteq> Done"
  shows "in_progress d d'"
proof -
  let ?d0 = "d\<lparr>ld_output := (ld_output d)\<lparr>do_exit_code := -114514\<rparr>\<rparr>"
  have p0: "in_progress d ?d0" using assms(2) by (simp add: in_progress_def)
  have step: "in_progress d x" if "in_progress d y" "ld_state y \<noteq> Done \<Longrightarrow> in_progress y x" for x y
    using that by (simp add: in_progress_def)
  obtain hit d1 e1 where 1: "TryReadCache (pi_cache inp) ?d0 = (hit, d1, e1)" by (metis prod_cases3)
  then have p1: "in_progress d d1" by (intro step[OF p0] TryReadCache_progress)
  obtain existed d2 calls2 e2 where 2: "TryGetExistedResult inp d1 = (existed, d2, calls2, e2)" by (metis prod_cases4)
  then have p2: "in_progress d d2" by (intro step[OF p1] TryGetExistedResult_progress)
  obtain d3 calls3 e3 where 3: "StartNewServantTask inp d2 = (d3, calls3, e3)" by (metis prod_cases3)
  then have p3: "in_progress d d3" by (intro step[OF p2] StartNewServantTask_progress)
  show ?thesis
    using assms(1) p1 p2 p3 unfolding perform_body_def 1 2 3 prod.case
    by (cases e1; cases hit; cases e2; cases existed; cases e3) (auto simp: 2 3)
qed

text \<open>Refreshing a list of tasks.\<close>

lemma fold_refresh:
  "loc_tasks (fold (\<lambda>((i, g), ok) s. if ok then keep_alive_refresh now i s else s) xs s) = loc_tasks s \<and>
   loc_descs (fold (\<lambda>((i, g), ok) s. if ok then keep_alive_refresh now i s else s) xs s) =
     (\<lambda>p. if \<exists>i g. ((i, g), True) \<in> set xs \<and> umap_find (loc_tasks s) i = Some p
          then (loc_descs s p)\<lparr>ld_last_keep_alive_tp := now\<rparr> else loc_descs s p)"
proof (induction xs arbitrary: s)
  case (Cons x xs)
  obtain i g b where x: "x = ((i, g), b)" by (metis prod.exhaust)
  show ?case
  proof (cases "b \<and> umap_find (loc_tasks s) i \<noteq> None")
    case True
    then obtain p where p: "umap_find (loc_tasks s) i = Some p" by blast
    then have s: "keep_alive_refresh now i s = s\<lparr>loc_descs := (loc_descs s)(p := (loc_descs s p)\<lparr>ld_last_keep_alive_tp := now\<rparr>)\<rparr>"
      by (simp add: keep_alive_refresh_def)
    from True p Cons[of "keep_alive_refresh now i s"] show ?thesis by (auto simp: x s fun_eq_iff)
  next
    case False
    then have "(if b then keep_alive_refresh now i s else s) = s" by (auto simp: keep_alive_refresh_def)
    with False Cons[of s] show ?thesis by (auto simp: x fun_eq_iff)
  qed
qed simp

section \<open>Properties\<close>


text \<open>A run of the demo task: one grant, an accepted submission, and a servant that answers.\<close>

definition demo_inputs :: PerformInputs where
  "demo_inputs = \<lparr>pi_cache = None, pi_running = None, pi_add_ref = False,
     pi_grants = [(False, None), (False, Some \<lparr>expire_tp = 9, gd_grant_id = 7, gd_servant_location = ''10.0.0.2:8335''\<rparr>)],
     pi_start = (\<lambda>_. Some (StatusOK, 3)), pi_polls = [(False, NOT_FOUND, []),
       (False, StatusOK, [\<lparr>wc_response = Some (blank_response\<lparr>wr_task_status := TASK_STATUS_DONE, wr_exit_code := 1\<rparr>), wc_file_chunk = []\<rparr>])],
     pi_token = ''tok'', pi_chunk_size = 4, pi_now = 5\<rparr>"





text \<open>
  Claim C15. No task is lost: in every state the local dispatcher can reach, a task that is not yet
  completed is in the table under its own id (so a client's wait for it finds it), a wait that
  succeeds returns a result and takes the task out of the table, and the id of a new submission is
  not in use.
\<close>

theorem local_tasks_kept:
  assumes "local_step\<^sup>*\<^sup>* local_init s"
  shows "(\<forall>p \<in> set (performing s). umap_find (loc_tasks s) (ld_task_id (loc_descs s p)) = Some p) \<and>
    (\<forall>i r s'. LocalWaitForTask i (\<lambda>u. u) s = ((r, LocalWait_OK), s') \<longrightarrow>
       r \<noteq> None \<and> umap_find (loc_tasks s') i = None) \<and>
    (unat (loc_next_id s) < 2 ^ 64 - 1 \<longrightarrow> umap_find (loc_tasks s) (fst (QueueTask task now deadline s)) = None)"
proof (intro conjI ballI allI impI)
  have inv: "local_inv s" using local_run.reach_inv[OF assms local_init_inv] .
  show "umap_find (loc_tasks s) (ld_task_id (loc_descs s p)) = Some p" if "p \<in> set (performing s)" for p
    using that inv by (fastforce simp: local_inv_def umap_find_iff)
  show "r \<noteq> None" "umap_find (loc_tasks s') i = None"
    if "LocalWaitForTask i (\<lambda>u. u) s = ((r, LocalWait_OK), s')" for i r s'
    using that inv
    by (auto simp: LocalWaitForTask_def local_inv_def desc_ok_def Let_def umap.look_del
        dest!: umap_find_SomeD split: option.splits if_splits)
  assume "unat (loc_next_id s) < 2 ^ 64 - 1"
  then have "loc_next_id s < loc_next_id s + 1" using unat_inc[of "loc_next_id s"] by (simp add: word_less_nat_alt)
  then show "umap_find (loc_tasks s) (fst (QueueTask task now deadline s)) = None"
    using inv by (auto simp: QueueTask_def Let_def local_inv_def umap_find_None_iff)
qed

theorem local_tasks_kept_witness:
  "umap_find (loc_tasks (snd (QueueTask demo_dist_task 0 9 local_init))) 1 = Some 0"
proof -
  let ?s = "snd (QueueTask demo_dist_task 0 9 local_init)"
  have "local_step\<^sup>*\<^sup>* local_init ?s" by (intro r_into_rtranclp local_step.queue) (simp add: local_init_def)
  from local_tasks_kept[OF this, of demo_dist_task 0 9] show ?thesis
    by (simp add: QueueTask_def local_init_def new_desc_def Let_def)
qed



text \<open>
  Keeping tasks alive: of the tasks of the table, a dispatched one that was last kept
  alive over a minute ago is aborted and nothing else is; the scheduler is asked for exactly the
  others that are underway, and exactly those it confirms, in an answer of the right length, count
  as alive now.
\<close>

theorem keep_alive_exact:
  assumes "local_step\<^sup>*\<^sup>* local_init s" and "(i, p) \<in> set (loc_tasks s)"
  shows "let d = loc_descs s p; d' = loc_descs (OnTimerKeepAlive now rpc s) p;
       ids = fst (keep_alive_collect now s); answer = rpc (map snd ids)
     in (ld_aborted d' \<longleftrightarrow> ld_aborted d \<or> alive_candidate d \<and> keep_alive_stale now d) \<and>
        ((i, ld_task_grant_id d) \<in> set ids \<longleftrightarrow> alive_candidate d \<and> \<not> keep_alive_stale now d) \<and>
        ld_last_keep_alive_tp d' =
          (if fst answer = StatusOK \<and> length (snd answer) = length ids \<and>
              ((i, ld_task_grant_id d), True) \<in> set (zip ids (snd answer))
           then now else ld_last_keep_alive_tp d)"
proof -
  have inv: "local_inv s" using local_run.reach_inv[OF assms(1) local_init_inv] .
  then have uniq: "(i', p') \<in> set (loc_tasks s) \<Longrightarrow> ld_task_id (loc_descs s p') = i' \<and> umap_find (loc_tasks s) i' = Some p'"
    for i' p' by (auto simp: local_inv_def umap_find_iff)
  define ids where "ids = fst (keep_alive_collect now s)"
  define s1 where "s1 = snd (keep_alive_collect now s)"
  have k: "keep_alive_collect now s = (ids, s1)" by (simp add: ids_def s1_def)
  have mem: "(j, g) \<in> set ids \<longleftrightarrow> (\<exists>q. (j, q) \<in> set (loc_tasks s) \<and> g = ld_task_grant_id (loc_descs s q) \<and>
      alive_candidate (loc_descs s q) \<and> \<not> keep_alive_stale now (loc_descs s q))" for j g
    using uniq by (force simp: ids_def keep_alive_collect_def)
  have mem_i: "(i, g) \<in> set ids \<longleftrightarrow> g = ld_task_grant_id (loc_descs s p) \<and>
      alive_candidate (loc_descs s p) \<and> \<not> keep_alive_stale now (loc_descs s p)" for g
    using mem[of i g] uniq assms(2) by (metis option.inject)
  have s1: "loc_tasks s1 = loc_tasks s" "loc_descs s1 p =
      (if alive_candidate (loc_descs s p) \<and> keep_alive_stale now (loc_descs s p)
       then (loc_descs s p)\<lparr>ld_aborted := True\<rparr> else loc_descs s p)"
    using assms(2) by (auto simp: s1_def keep_alive_collect_def upd_descs_def intro: rev_image_eqI)
  obtain code flags where a: "rpc (map snd ids) = (code, flags)" by (cases "rpc (map snd ids)")
  have found: "(\<exists>j g. ((j, g), True) \<in> set (zip ids flags) \<and> umap_find (loc_tasks s) j = Some p) \<longleftrightarrow>
      ((i, ld_task_grant_id (loc_descs s p)), True) \<in> set (zip ids flags)"
  proof
    assume "\<exists>j g. ((j, g), True) \<in> set (zip ids flags) \<and> umap_find (loc_tasks s) j = Some p"
    then obtain j g where jg: "((j, g), True) \<in> set (zip ids flags)" "(j, p) \<in> set (loc_tasks s)"
      by (auto dest: umap_find_SomeD)
    with uniq[OF assms(2)] uniq[OF jg(2)] have "j = i" by simp
    with jg(1) mem_i[of g] show "((i, ld_task_grant_id (loc_descs s p)), True) \<in> set (zip ids flags)"
      by (auto dest: set_zip_leftD)
  qed (use uniq[OF assms(2)] in blast)
  have "loc_descs (OnTimerKeepAlive now rpc s) p =
      (if code = StatusOK \<and> length flags = length ids \<and> ((i, ld_task_grant_id (loc_descs s p)), True) \<in> set (zip ids flags)
       then (loc_descs s1 p)\<lparr>ld_last_keep_alive_tp := now\<rparr> else loc_descs s1 p)"
    unfolding OnTimerKeepAlive_def k prod.case a
    using fold_refresh[of now "zip ids flags" s1] found by (auto simp: s1(1))
  then show ?thesis unfolding Let_def ids_def[symmetric] a using mem_i s1(2) by auto
qed

theorem keep_alive_exact_witness:
  "ld_aborted (loc_descs (OnTimerKeepAlive (sec 61) (\<lambda>_. (StatusOK, []))
     (let s = snd (QueueTask demo_dist_task 0 9 local_init)
      in s\<lparr>loc_descs := (loc_descs s)(0 := (loc_descs s 0)\<lparr>ld_state := Dispatched\<rparr>)\<rparr>)) 0)"
proof -
  let ?s = "snd (QueueTask demo_dist_task 0 9 local_init)"
  let ?t = "?s\<lparr>loc_descs := (loc_descs ?s)(0 := (loc_descs ?s 0)\<lparr>ld_state := Dispatched\<rparr>)\<rparr>"
  have "local_step local_init ?s" by (intro local_step.queue) (simp add: local_init_def)
  moreover have "local_step ?s ?t"
    by (intro local_step.progress) (simp_all add: QueueTask_def local_init_def in_progress_def Let_def)
  ultimately have "local_step\<^sup>*\<^sup>* local_init ?t" by (simp add: converse_rtranclp_into_rtranclp r_into_rtranclp)
  moreover have "(1, 0) \<in> set (loc_tasks ?t)" "alive_candidate (loc_descs ?t 0)" "keep_alive_stale (sec 61) (loc_descs ?t 0)"
    by (simp_all add: QueueTask_def local_init_def Let_def umap_set_def alive_candidate_def keep_alive_stale_def new_desc_def sec_def)
  ultimately show ?thesis
    using keep_alive_exact[of ?t 1 0 "sec 61" "\<lambda>_. (StatusOK, [])"] by (simp add: Let_def)
qed

end
