(* ===== verification/System_Props.thy ===== *)
theory System_Props
  imports SchedulerService Cloud_Props Local_Props Executor_Props
begin

text \<open>
  Properties that span the scheduler, the servants and the local daemons: what a heartbeat brings
  about on a servant, and why a servant accepts the token of a local daemon.
\<close>

section \<open>A heartbeat, answered\<close>

text \<open>A grant is live if the scheduler has it as a task of the servant, and its lease has not run out.\<close>

definition live_grant :: "string \<Rightarrow> u64 \<Rightarrow> TaskDispatcher \<Rightarrow> bool" where
  "live_grant l g s \<longleftrightarrow>
     (\<exists>p t. find_servant l s = Some p \<and> (g, t) \<in> set (tasks s) \<and> task_servant t = p \<and> \<not> is_zombie t)"

lemma notify_expired:
  assumes "umap_wf (tasks s)"
  shows "set (fst (NotifyServantRunningTasks l rs s)) = {g \<in> task_grant_id ` set rs. \<not> live_grant l g s}"
proof (cases "find_servant l s")
  case None
  then show ?thesis by (auto simp: NotifyServantRunningTasks_def live_grant_def)
next
  case (Some p)
  note ts = tasks_UnsafeClearZombies[OF assms, of p "map task_grant_id rs"]
  have "g \<in> set (permitted_task_ids p (UnsafeClearZombies p (map task_grant_id rs) s)) \<longleftrightarrow> live_grant l g s" for g
    by (auto simp: permitted_task_ids_def ts image_iff live_grant_def Some; force)
  then show ?thesis by (auto simp: NotifyServantRunningTasks_def Some Let_def)
qed

lemma HeartBeat_ok:
  assumes "HeartBeat pton flags bytes t1 t2 ops peer req sv s = Inr (StatusOK, resp, sv', s')"
  shows "\<exists>info s2. heartbeat_info pton flags sv peer req = Inr info \<and>
    run_steps exec_op (OpKeepServantAlive info (ms (uint (next_heart_beat_in_ms req))) t1 # ops) s = Inr s2 \<and>
    hb_tokens resp = active_daemon_tokens sv' \<and> sv' = snd (ActiveDaemonTokens flags bytes t2 sv) \<and>
    expired_tasks resp = fst (NotifyServantRunningTasks (hb_location req) (hb_running_tasks req) s2)"
proof (cases "heartbeat_info pton flags sv peer req")
  case (Inl code)
  then have "code \<noteq> StatusOK" by (auto simp: heartbeat_info_def Let_def split: if_splits option.splits)
  with Inl assms show ?thesis by (simp add: HeartBeat_def)
next
  case (Inr info)
  with assms obtain s2 where
    "run_steps exec_op ops (KeepServantAlive info (ms (uint (next_heart_beat_in_ms req))) t1 s) = Inr s2"
    by (auto simp: HeartBeat_def Let_def split_def)
  with Inr assms show ?thesis
    by (auto simp: HeartBeat_def Let_def split_def ActiveDaemonTokens_def)
qed

lemma GetAllTasks_grants:
  assumes "table_inv ex"
  shows "(\<lambda>r. fst (snd r)) ` set (GetAllTasks ex) = (\<lambda>r. grant_id (descs ex (snd r))) ` set (ex_tasks ex)"
proof -
  have "\<exists>t. desc_task (descs ex p) = Some t" if "(k, p) \<in> set (ex_tasks ex)" for k p
    using assms that by (force simp: table_inv_def)
  then show ?thesis by (force simp: GetAllTasks_def List.map_filter_def)
qed

section \<open>Properties\<close>


text \<open>A servant that still runs a task whose grant the scheduler does not know.\<close>

definition demo_servant_new :: "CxxCompileTask Executor" where
  "demo_servant_new = \<lparr>exiting = False, ex_next_task_id = 1, ex_running_tasks = 0, max_concurrency = 4,
     min_memory = 2 * 2 ^ 30, task_ran_sum = 0, ex_tasks = [], descs = (\<lambda>_. blank_desc), next_desc = 0,
     waitpid_semaphore = 0, children = [], waiting = False, waiter_done = False, exit_tasks = [], signals = []\<rparr>"

lemma demo_servant_new: "Executor_new 4 ''user'' 4 ''2G'' 8 = Inr demo_servant_new"
  by (simp add: Executor_new_def demo_servant_new_def ParseMemorySize_def stoul_def scan_integer_def c_str_def
      is_space_def is_digit_def digits_val_def configured_concurrency_def Let_def)

definition demo_orphan :: "CxxCompileTask Executor" where
  "demo_orphan = snd (TryQueueTask 9 demo_task_done ''gcc'' 100 5 (2 ^ 40) demo_servant_new)"

lemma demo_orphan_fields:
  "ex_tasks demo_orphan = [(1, 0)]" "signals demo_orphan = []"
  "descs demo_orphan 0 = blank_desc\<lparr>grant_id := 9, ref_count := 1, start_tp := 5, pid := 100,
     desc_task := Some demo_task_done, desc_cmd := ''gcc''\<rparr>"
  by (simp_all add: demo_orphan_def demo_servant_new_def TryQueueTask_def TryStartingNewTaskUnsafe_eq
      word_le_nat_alt word_less_nat_alt umap_set_def)

definition demo_beat :: HeartbeatInputs where
  "demo_beat = \<lparr>hi_scheduler_token = ''servant'', hi_servant_priority = ''dedicated'', hi_meminfo = [],
     hi_num_cpu_cores = 8, hi_current_load = 0\<rparr>"


text \<open>
  Claim C20. A servant accepts the local daemons: the token that a local daemon got from the scheduler
  is accepted by every servant whose latest heartbeat was answered within one rotation interval
  afterwards, whatever calls the scheduler served in between.
\<close>

theorem servant_accepts_daemon:
  assumes "length (active_daemon_tokens sv) = 3" and "0 \<le> token_rollout_interval_s flags"
    and "GetConfig flags bytes t token sv = Inr (StatusOK, tok, sv1)"
    and "\<forall>(b, now) \<in> set (calls @ [(bytes2, t2)]). t \<le> now \<and> now \<le> t + sec (token_rollout_interval_s flags)"
    and "HeartBeat pton flags bytes2 t1 t2 ops peer req (token_calls flags calls sv1) s = Inr (StatusOK, resp, sv2, s')"
  shows "IsTokenAcceptable (GetServingDaemonToken (OnTimerFetchConfig (StatusOK, tok) k))
    (fst (heartbeat_answer (StatusOK, resp) (d, ex)))"
proof -
  have calls: "token_calls flags (cs @ cs') sv1 = token_calls flags cs' (token_calls flags cs sv1)" for cs cs' and sv1
    by (induction cs arbitrary: sv1) auto
  have "hb_tokens resp = active_daemon_tokens (token_calls flags (calls @ [(bytes2, t2)]) sv1)"
    using HeartBeat_ok[OF assms(5)] by (auto simp: calls)
  moreover have "tok \<in> set (active_daemon_tokens (token_calls flags (calls @ [(bytes2, t2)]) sv1))"
    by (rule config_token_active[OF assms(1-4)])
  ultimately show ?thesis
    by (simp add: heartbeat_answer_def IsTokenAcceptable_def UpdateTokens_def Verify_def GetServingDaemonToken_def
        OnTimerFetchConfig_def)
qed

theorem servant_accepts_daemon_witness:
  "\<exists>resp sv2 s'. HeartBeat (\<lambda>a. a = ''10.0.0.7'') demo_flags ''b'' 0 (sec 3001) [] ''ipv4:10.0.0.7:51000'' demo_heartbeat
      demo_service demo_state = Inr (StatusOK, resp, sv2, s') \<and>
    IsTokenAcceptable ''t1'' (fst (heartbeat_answer (StatusOK, resp) (demo_servant_service, demo_cloud)))"
proof -
  have c: "GetConfig demo_flags ''r'' (sec 1000) ''user'' demo_service = Inr (StatusOK, ''t1'', demo_service)"
    by (simp add: GetConfig_def ActiveDaemonTokens_def demo_service_def Verify_def sec_def)
  obtain resp sv2 s' where h: "HeartBeat (\<lambda>a. a = ''10.0.0.7'') demo_flags ''b'' 0 (sec 3001) [] ''ipv4:10.0.0.7:51000''
      demo_heartbeat (token_calls demo_flags [] demo_service) demo_state = Inr (StatusOK, resp, sv2, s')"
    by (simp add: HeartBeat_def demo_heartbeat_accepted split_def Let_def)
  have "length (active_daemon_tokens demo_service) = 3" "0 \<le> token_rollout_interval_s demo_flags"
    "\<forall>(b, now) \<in> set ([] @ [(''b'', sec 3001)]). sec 1000 \<le> now \<and> now \<le> sec 1000 + sec (token_rollout_interval_s demo_flags)"
    by (simp_all add: demo_service_def demo_flags_def sec_def)
  from servant_accepts_daemon[OF this(1,2) c this(3) h, of "\<lparr>serving_daemon_token = []\<rparr>" demo_servant_service demo_cloud] h
  show ?thesis by (auto simp: GetServingDaemonToken_def OnTimerFetchConfig_def)
qed

end
