(* ===== verification/ClientArgs.thy ===== *)
theory ClientArgs
  imports Tools "HOL-Library.Multiset"
begin

text \<open>
  \<open>client/cxx/compiler_args.{h,cpp}\<close>, \<open>client/common/rewritten_args.{h,cpp}\<close> and the decisions
  on command lines of \<open>client/client.cpp\<close> and \<open>client/cxx/rewrite_file.cpp\<close>: how the client reads a
  compiler command line, and how it rewrites it for the preprocessor and for the cloud.

  A \<open>const char*\<close> that may be the null pointer at the end of \<open>argv\<close> is an optional string.
\<close>

section \<open>Definitions\<close>

definition kOneValueArguments :: "string list" where
  "kOneValueArguments = [
     ''-o'', ''-x'', ''-dyld-prefix'', ''-gcc-toolchain'', ''--param'', ''--sysroot'',
     ''--system-header-prefix'', ''-target'', ''--assert'', ''--allowable_client'', ''-arch'',
     ''-arch_only'', ''-arcmt-migrate-report-output'', ''--prefix'', ''-bundle_loader'',
     ''-dependency-dot'', ''-dependency-file'', ''-dylib_file'', ''-exported_symbols_list'',
     ''--bootclasspath'', ''--CLASSPATH'', ''--classpath'', ''--resource'', ''--encoding'',
     ''--extdirs'', ''-filelist'', ''-fmodule-implementation-of'', ''-fmodule-name'',
     ''-fmodules-user-build-path'', ''-fnew-alignment'', ''-force_load'',
     ''--output-class-directory'', ''-framework'', ''-frewrite-map-file'', ''-ftrapv-handler'',
     ''-image_base'', ''-init'', ''-install_name'', ''-lazy_framework'', ''-lazy_library'',
     ''-meabi'', ''-mhwdiv'', ''-mllvm'', ''-module-dependency-dir'', ''-mthread-model'',
     ''-multiply_defined'', ''-multiply_defined_unused'', ''-rpath'', ''--rtlib'',
     ''-seg_addr_table'', ''-seg_addr_table_filename'', ''-segs_read_only_addr'',
     ''-segs_read_write_addr'', ''-serialize-diagnostics'', ''--serialize-diagnostics'', ''-std'',
     ''--stdlib'', ''--force-link'', ''-umbrella'', ''-unexported_symbols_list'',
     ''-weak_library'', ''-weak_reference_mismatches'', ''-B'', ''-D'', ''-U'', ''-I'', ''-i'',
     ''--include-directory'', ''-L'', ''-l'', ''--library-directory'', ''-MF'', ''-MT'', ''-MQ'',
     ''-cxx-isystem'', ''-c-isystem'', ''-idirafter'', ''--include-directory-after'',
     ''-iframework'', ''-iframeworkwithsysroot'', ''-imacros'', ''-imultilib'', ''-iprefix'',
     ''--include-prefix'', ''-iquote'', ''-include'', ''-include-pch'', ''-isysroot'',
     ''-isystem'', ''-isystem-after'', ''-ivfsoverlay'', ''-iwithprefix'',
     ''--include-with-prefix'', ''--include-with-prefix-after'', ''-iwithprefixbefore'',
     ''--include-with-prefix-before'', ''-iwithsysroot'']"

record CompilerArgs =
  ca_compiler :: string
  ca_args :: "(string \<times> string option list) list"
  ca_filenames :: "string list"
  ca_rebuilt_arg :: string

text \<open>
  The loop over \<open>argv\<close>: options (one that takes a value has the next argument, or the null pointer
  after the last one) and file names.
\<close>

fun parse_args :: "string list \<Rightarrow> (string \<times> string option list) list \<times> string list" where
  "parse_args [] = ([], [])"
| "parse_args (a # rest) =
     (if a \<in> set kOneValueArguments then
        (case rest of
           [] \<Rightarrow> ([(a, [None])], [])
         | v # rest' \<Rightarrow> (let (opts, files) = parse_args rest' in ((a, [Some v]) # opts, files)))
      else
        (let (opts, files) = parse_args rest
         in if a \<noteq> [] \<and> hd a = CHR ''-'' then ((a, []) # opts, files) else (opts, a # files)))"

text \<open>\<open>pop_back\<close> of an empty string is undefined; without arguments the command line is empty.\<close>

definition CompilerArgs_new :: "string list \<Rightarrow> fault + CompilerArgs" where
  "CompilerArgs_new argv =
     (let (opts, files) = parse_args argv; rebuilt = concat (map (\<lambda>a. EscapeCommandArgument a @ '' '') argv)
      in if rebuilt = [] then Inl OutOfRange
         else Inr \<lparr>ca_compiler = [], ca_args = opts, ca_filenames = files, ca_rebuilt_arg = butlast rebuilt\<rparr>)"

definition SetCompiler :: "string \<Rightarrow> CompilerArgs \<Rightarrow> CompilerArgs" where
  "SetCompiler path a = a\<lparr>ca_compiler := path\<rparr>"

definition TryGet :: "string \<Rightarrow> CompilerArgs \<Rightarrow> string option list option" where
  "TryGet key a = map_option snd (find (\<lambda>(k, v). k = key) (ca_args a))"

text \<open>\<open>front\<close> of the values of an option, as a string: there must be one, and not a null pointer.\<close>

definition front_string :: "string option list \<Rightarrow> fault + string" where
  "front_string vs = (case vs of [] \<Rightarrow> Inl OutOfRange | None # _ \<Rightarrow> Inl NullPointer | Some v # _ \<Rightarrow> Inr v)"

text \<open>\<open>find_last_of\<close> a character.\<close>

fun find_last_of :: "char \<Rightarrow> string \<Rightarrow> nat option" where
  "find_last_of c [] = None"
| "find_last_of c (x # xs) =
     (case find_last_of c xs of Some n \<Rightarrow> Some (Suc n) | None \<Rightarrow> if x = c then Some 0 else None)"

text \<open>
  The directory is cut off by \<open>if (auto pos = path.find_last_of('/'))\<close>: this is not done for a slash
  at position 0, and is done with \<open>npos + 1 = 0\<close> when there is no slash.
\<close>

definition GetOutputFile :: "CompilerArgs \<Rightarrow> fault + string" where
  "GetOutputFile a =
     (case TryGet ''-o'' a of
        Some vs \<Rightarrow> front_string vs
      | None \<Rightarrow>
          (case ca_filenames a of
             [] \<Rightarrow> Inl OutOfRange
           | filename # _ \<Rightarrow>
               (let path = (case find_last_of CHR ''.'' filename of Some n \<Rightarrow> take n filename | None \<Rightarrow> filename);
                    path' = (case find_last_of CHR ''/'' path of Some n \<Rightarrow> (if n = 0 then path else drop (Suc n) path)
                             | None \<Rightarrow> path)
                in Inr (path' @ ''.o''))))"

subsection \<open>Rewriting\<close>

record RewrittenArgs =
  rw_program :: string
  rw_args :: "string list"

definition keeps :: "string list \<Rightarrow> string list \<Rightarrow> string \<Rightarrow> bool" where
  "keeps remove remove_prefix k \<longleftrightarrow> k \<notin> set remove \<and> \<not> list_ex (\<lambda>e. StartWith k e) remove_prefix"

text \<open>The loop over the options: a null pointer among the values makes an invalid string.\<close>

fun rewrite_options ::
  "string list \<Rightarrow> string list \<Rightarrow> (string \<times> string option list) list \<Rightarrow> fault + string list" where
  "rewrite_options remove remove_prefix [] = Inr []"
| "rewrite_options remove remove_prefix ((k, v) # opts) =
     (if \<not> keeps remove remove_prefix k then rewrite_options remove remove_prefix opts
      else if None \<in> set v then Inl NullPointer
      else bind_fault (rewrite_options remove remove_prefix opts) (\<lambda>result. Inr (k # map the v @ result)))"

definition Rewrite ::
  "string list \<Rightarrow> string list \<Rightarrow> string list \<Rightarrow> bool \<Rightarrow> CompilerArgs \<Rightarrow> fault + RewrittenArgs" where
  "Rewrite remove remove_prefix add keep_filenames a =
     bind_fault (rewrite_options remove remove_prefix (ca_args a)) (\<lambda>result.
       Inr \<lparr>rw_program = ca_compiler a, rw_args = result @ add @ (if keep_filenames then ca_filenames a else [])\<rparr>)"

definition ToString :: "RewrittenArgs \<Rightarrow> string" where
  "ToString r = rw_program r @ concat (map (\<lambda>e. '' '' @ e) (rw_args r))"

definition ToCommandLine :: "bool \<Rightarrow> RewrittenArgs \<Rightarrow> string" where
  "ToCommandLine with_program r =
     butlast ((if with_program then rw_program r @ '' '' else []) @
              concat (map (\<lambda>e. EscapeCommandArgument e @ '' '') (rw_args r)))"

subsection \<open>Decisions\<close>

definition IsDistributable :: "CompilerArgs \<Rightarrow> bool" where
  "IsDistributable a \<longleftrightarrow>
     TryGet ''-c'' a \<noteq> None \<and> TryGet ''-'' a = None \<and> length (ca_filenames a) = 1 \<and>
     \<not> EndWith (hd (ca_filenames a)) ''.s'' \<and> \<not> EndWith (hd (ca_filenames a)) ''.S''"

definition kLightweightArgs :: "string list" where
  "kLightweightArgs = [''-dumpversion'', ''-dumpmachine'', ''-E'']"

definition IsLightweight :: "CompilerArgs \<Rightarrow> bool" where
  "IsLightweight a \<longleftrightarrow> list_ex (\<lambda>e. TryGet e a \<noteq> None) kLightweightArgs"

definition DetermineLanguage :: "CompilerArgs \<Rightarrow> fault + string option" where
  "DetermineLanguage a =
     (case TryGet ''-x'' a of
        Some vs \<Rightarrow> bind_fault (front_string vs) (\<lambda>v. Inr (Some v))
      | None \<Rightarrow>
          (case ca_filenames a of
             [] \<Rightarrow> Inl OutOfRange
           | filename # _ \<Rightarrow>
               Inr (if EndWith filename ''.cc'' \<or> EndWith filename ''.cpp'' \<or> EndWith filename ''.cxx'' then Some ''c++''
                    else if EndWith filename ''.c'' then Some ''c''
                    else None)))"

section \<open>Reading a rewritten command line back\<close>

text \<open>What the parser produces: options with the values they take, and proper file names.\<close>

definition option_ok :: "string \<times> string option list \<Rightarrow> bool" where
  "option_ok kv \<longleftrightarrow>
     (if fst kv \<in> set kOneValueArguments then \<exists>v. snd kv = [Some v]
      else fst kv \<noteq> [] \<and> hd (fst kv) = CHR ''-'' \<and> snd kv = [])"

definition filename_ok :: "string \<Rightarrow> bool" where
  "filename_ok f \<longleftrightarrow> f \<notin> set kOneValueArguments \<and> \<not> (f \<noteq> [] \<and> hd f = CHR ''-'')"

definition flatten :: "(string \<times> string option list) list \<Rightarrow> string list" where
  "flatten opts = concat (map (\<lambda>(k, v). k # map the v) opts)"

lemma parse_args_simps:
  "a \<in> set kOneValueArguments \<Longrightarrow> parse_args [a] = ([(a, [None])], [])"
  "a \<in> set kOneValueArguments \<Longrightarrow>
     parse_args (a # v # rest) = ((a, [Some v]) # fst (parse_args rest), snd (parse_args rest))"
  "a \<notin> set kOneValueArguments \<Longrightarrow> a \<noteq> [] \<and> hd a = CHR ''-'' \<Longrightarrow>
     parse_args (a # rest) = ((a, []) # fst (parse_args rest), snd (parse_args rest))"
  "a \<notin> set kOneValueArguments \<Longrightarrow> \<not> (a \<noteq> [] \<and> hd a = CHR ''-'') \<Longrightarrow>
     parse_args (a # rest) = (fst (parse_args rest), a # snd (parse_args rest))"
  by (simp_all add: split_def Let_def)

declare parse_args.simps(2) [simp del]

lemma parse_args_induct [case_names Nil dangling valued flag filename]:
  assumes "P []" and "\<And>a. a \<in> set kOneValueArguments \<Longrightarrow> P [a]"
    and "\<And>a v rest. a \<in> set kOneValueArguments \<Longrightarrow> P rest \<Longrightarrow> P (a # v # rest)"
    and "\<And>a rest. a \<notin> set kOneValueArguments \<Longrightarrow> a \<noteq> [] \<and> hd a = CHR ''-'' \<Longrightarrow> P rest \<Longrightarrow> P (a # rest)"
    and "\<And>a rest. a \<notin> set kOneValueArguments \<Longrightarrow> \<not> (a \<noteq> [] \<and> hd a = CHR ''-'') \<Longrightarrow> P rest \<Longrightarrow> P (a # rest)"
  shows "P argv"
proof (induction argv rule: length_induct)
  case (1 argv)
  show ?case
  proof (cases argv)
    case (Cons a rest)
    have IH: "P rest" using 1 Cons by simp
    consider (one) "a \<in> set kOneValueArguments" | (opt) "a \<notin> set kOneValueArguments" "a \<noteq> [] \<and> hd a = CHR ''-''"
      | (name) "a \<notin> set kOneValueArguments" "\<not> (a \<noteq> [] \<and> hd a = CHR ''-'')" by blast
    then show ?thesis
    proof cases
      case one
      show ?thesis
      proof (cases rest)
        case Nil
        with Cons one assms(2) show ?thesis by simp
      next
        case (Cons v rest')
        moreover have "P rest'" using 1 \<open>argv = a # rest\<close> Cons by simp
        ultimately show ?thesis using \<open>argv = a # rest\<close> one assms(3) by simp
      qed
    next
      case opt
      with Cons IH assms(4) show ?thesis by blast
    next
      case name
      with Cons IH assms(5) show ?thesis by blast
    qed
  qed (simp add: assms(1))
qed

lemma parse_args_ok:
  "(\<forall>kv \<in> set (fst (parse_args argv)). option_ok kv \<or> snd kv = [None]) \<and>
   (\<forall>f \<in> set (snd (parse_args argv)). filename_ok f)"
  by (induction argv rule: parse_args_induct) (auto simp: parse_args_simps option_ok_def filename_ok_def)

lemma parse_args_append:
  "\<forall>kv \<in> set opts. option_ok kv \<Longrightarrow>
     parse_args (flatten opts @ rest) = (opts @ fst (parse_args rest), snd (parse_args rest))"
proof (induction opts)
  case (Cons kv opts)
  obtain k v where kv: "kv = (k, v)" by (cases kv)
  have IH: "parse_args (flatten opts @ rest) = (opts @ fst (parse_args rest), snd (parse_args rest))"
    using Cons by simp
  show ?case
  proof (cases "k \<in> set kOneValueArguments")
    case True
    then obtain w where "v = [Some w]" using Cons.prems kv by (auto simp: option_ok_def)
    with True IH show ?thesis by (simp add: kv flatten_def parse_args_simps)
  next
    case False
    then have "k \<noteq> []" "hd k = CHR ''-''" "v = []" using Cons.prems kv by (auto simp: option_ok_def)
    with False IH show ?thesis by (simp add: kv flatten_def parse_args_simps)
  qed
qed (simp add: flatten_def)

lemma parse_args_files: "\<forall>f \<in> set files. filename_ok f \<Longrightarrow> parse_args files = ([], files)"
  by (induction files) (auto simp: filename_ok_def parse_args_simps)

lemma rewrite_options_Inr:
  "rewrite_options remove remove_prefix opts = Inr result \<Longrightarrow>
     result = flatten (filter (\<lambda>(k, v). keeps remove remove_prefix k) opts) \<and>
     (\<forall>(k, v) \<in> set opts. keeps remove remove_prefix k \<longrightarrow> None \<notin> set v)"
  by (induction remove remove_prefix opts arbitrary: result rule: rewrite_options.induct)
     (auto simp: flatten_def split: if_splits)

lemma parse_args_mset:
  "\<forall>(k, v) \<in> set (fst (parse_args argv)). None \<notin> set v \<Longrightarrow>
     mset argv = mset (flatten (fst (parse_args argv))) + mset (snd (parse_args argv))"
  by (induction argv rule: parse_args_induct) (auto simp: parse_args_simps flatten_def)

section \<open>The words of a command line\<close>

text \<open>
  How a shell splits a command line without quotes and operators into words: \<open>word\<close> is the word
  read so far, a backslash takes the next character as it is, blanks end a word.
\<close>

fun sh_words :: "string \<Rightarrow> string \<Rightarrow> string list" where
  "sh_words word [] = (if word = [] then [] else [word])"
| "sh_words word [c] = (if c = CHR '' '' then (if word = [] then [] else [word]) else [word @ [c]])"
| "sh_words word (c # d # cs) =
     (if c = CHR 0x5C then sh_words (word @ [d]) cs
      else if c = CHR '' '' then (if word = [] then sh_words [] (d # cs) else word # sh_words [] (d # cs))
      else sh_words (word @ [c]) (d # cs))"

text \<open>
  Arguments a shell reads back: control characters are written as letters, and a quote, a bar and a
  tilde are not escaped.
\<close>

definition printable_arg :: "string \<Rightarrow> bool" where
  "printable_arg s \<longleftrightarrow> (\<forall>c \<in> set s. c \<notin> {CHR 0x07, CHR 0x08, CHR 0x0C, CHR 0x0A, CHR 0x0D, CHR 0x09, CHR 0x0B, CHR 0x27, CHR ''|'', CHR ''~''})"

lemma sh_words_plain:
  "c \<noteq> CHR 0x5C \<Longrightarrow> c \<noteq> CHR '' '' \<Longrightarrow> sh_words word (c # cs) = sh_words (word @ [c]) cs"
  by (cases cs) auto

lemma sh_words_space: "word \<noteq> [] \<Longrightarrow> sh_words word (CHR '' '' # cs) = word # sh_words [] cs"
  by (cases cs) auto

lemma sh_words_escaped:
  "printable_arg s \<Longrightarrow> sh_words word (EscapeCommandArgument s @ cs) = sh_words (word @ s) cs"
proof (induction s arbitrary: word)
  case (Cons c s)
  then have c: "c \<notin> {CHR 0x07, CHR 0x08, CHR 0x0C, CHR 0x0A, CHR 0x0D, CHR 0x09, CHR 0x0B, CHR 0x27, CHR ''|'', CHR ''~''}" "printable_arg s"
    by (auto simp: printable_arg_def)
  have IH: "sh_words (word @ [c]) (EscapeCommandArgument s @ cs) = sh_words (word @ c # s) cs"
    using Cons.IH[OF c(2), of "word @ [c]"] by simp
  show ?case
  proof (cases "c \<in> set escaped_chars")
    case True
    then have "escape_char c = [CHR 0x5C, c]" using c(1) by (simp add: escape_char_def)
    with IH show ?thesis by simp
  next
    case False
    then have "escape_char c = [c]" "c \<noteq> CHR 0x5C" "c \<noteq> CHR '' ''"
      using c(1) by (auto simp: escape_char_def escaped_chars_def)
    with IH show ?thesis by (simp add: sh_words_plain)
  qed
qed simp

lemma sh_words_blank: "sh_words [] (CHR '' '' # cs) = sh_words [] cs"
  by (cases cs) auto

text \<open>An empty argument leaves no trace.\<close>

lemma butlast_words:
  assumes "\<forall>e \<in> set es. printable_arg e"
  shows "sh_words [] (butlast (concat (map (\<lambda>e. EscapeCommandArgument e @ '' '') es))) = filter (\<lambda>e. e \<noteq> []) es"
proof (cases es rule: rev_cases)
  case (snoc es' e)
  let ?c = "concat (map (\<lambda>e. EscapeCommandArgument e @ '' '') es')"
  have split: "sh_words [] (concat (map (\<lambda>e. EscapeCommandArgument e @ '' '') xs) @ EscapeCommandArgument e) =
      filter (\<lambda>e. e \<noteq> []) xs @ (if e = [] then [] else [e])" if "\<forall>x \<in> set xs. printable_arg x" for xs
    using that
  proof (induction xs)
    case Nil
    then show ?case using sh_words_escaped[of e "[]" "[]"] assms snoc by simp
  next
    case (Cons x xs)
    then show ?case
      using sh_words_escaped[of x "[]" "CHR '' '' # concat (map (\<lambda>e. EscapeCommandArgument e @ '' '') xs) @
        EscapeCommandArgument e"]
      by (cases "x = []") (simp_all add: sh_words_space sh_words_blank)
  qed
  have "butlast (concat (map (\<lambda>e. EscapeCommandArgument e @ '' '') es)) = ?c @ EscapeCommandArgument e"
    using snoc by (simp add: butlast_append)
  with split[of es'] assms snoc show ?thesis by simp
qed simp

end
