(* ===== verification/HttpService.thy ===== *)
theory HttpService
  imports LocalDispatcher MultiChunk
begin

text \<open>
  \<open>daemon/local/http_service_impl.{h,cpp}\<close>: the HTTP service a client talks to.

  Poco's and protobuf's JSON functions, the clock and what other threads do during a wait are the
  members of \<open>HttpEnv\<close>. The handlers work on the daemon's singletons, the record \<open>LocalDaemon\<close>. Of
  a response the model keeps the status and the body; the fixed texts of error responses are
  \<open>ErrorText\<close>. Only the first \<open>send\<close> of a handler reaches the client (a second one fails inside
  Poco), but what a handler does after it is part of the model.
\<close>

section \<open>Definitions\<close>

datatype HTTPStatus =
    HTTP_OK
  | HTTP_BAD_REQUEST
  | HTTP_NOT_FOUND
  | HTTP_EXPECTATION_FAILED
  | HTTP_INTERNAL_SERVER_ERROR
  | HTTP_SERVICE_UNAVAILABLE

datatype http_body = ErrorText | Body string

type_synonym HTTPServerResponse = "HTTPStatus \<times> http_body"

record LocalDaemon =
  task_monitor :: TaskMonitor
  file_cache :: FileCache
  task_dispatcher :: LocalDispatcher

record SetFileDigestRequest =
  sf_path :: string
  sf_size :: u64
  sf_mtime :: u64
  sf_digest :: string

record WaitForCXXTaskRequest =
  wq_task_id :: u64
  wq_ms_to_wait :: u32

text \<open>How a body is read by \<open>Poco::JSON::Parser\<close>: not JSON, JSON but no object, or an object.\<close>

datatype 'json parsed = JSONException | NoObject | Object 'json

text \<open>
  \<open>has_integer\<close> and \<open>has_boolean\<close>: the field is there and has the type; \<open>to_uint32\<close> and \<open>to_bool\<close>:
  \<open>convert\<close>, \<open>None\<close> when it throws. \<open>JsonStringToMessage\<close> yields a message also when it fails.
\<close>

record 'json HttpEnv =
  poco_parse :: "string \<Rightarrow> 'json parsed"
  has_integer :: "'json \<Rightarrow> string \<Rightarrow> bool"
  has_boolean :: "'json \<Rightarrow> string \<Rightarrow> bool"
  to_uint32 :: "'json \<Rightarrow> string \<Rightarrow> u32 option"
  to_bool :: "'json \<Rightarrow> string \<Rightarrow> bool option"
  parse_digest :: "string \<Rightarrow> bool \<times> SetFileDigestRequest"
  parse_submit :: "string \<Rightarrow> SubmitCxxTaskRequest option"
  parse_wait :: "string \<Rightarrow> WaitForCXXTaskRequest option"
  version_json :: string
  submit_json :: "u64 \<Rightarrow> string"
  wait_json :: "WaitForCXXTaskResponse \<Rightarrow> string"
  env_now :: time_point
  env_queue_now :: time_point
  monitor_others :: "TaskMonitor \<Rightarrow> TaskMonitor"
  dispatcher_others :: "LocalDispatcher \<Rightarrow> LocalDispatcher"

subsection \<open>Quotas\<close>

text \<open>The response the client gets: \<open>earlier\<close>, if one was sent already.\<close>

definition respond :: "HTTPServerResponse option \<Rightarrow> HTTPServerResponse \<Rightarrow> HTTPServerResponse" where
  "respond earlier r = (case earlier of Some e \<Rightarrow> e | None \<Rightarrow> r)"

definition AcquireQuota ::
  "'json HttpEnv \<Rightarrow> string \<Rightarrow> LocalDaemon \<Rightarrow> HTTPServerResponse \<times> LocalDaemon" where
  "AcquireQuota env body s =
     (case poco_parse env body of
        JSONException \<Rightarrow> ((HTTP_BAD_REQUEST, ErrorText), s)
      | NoObject \<Rightarrow> ((HTTP_INTERNAL_SERVER_ERROR, ErrorText), s)
      | Object json \<Rightarrow>
          (let earlier =
             (if \<not> has_integer env json ''ms_to_wait'' \<or> \<not> has_boolean env json ''lightweight''
                 \<or> \<not> has_integer env json ''requestor_pid''
              then Some (HTTP_BAD_REQUEST, ErrorText) else None)
           in case (to_uint32 env json ''ms_to_wait'', to_bool env json ''lightweight'', to_uint32 env json ''requestor_pid'') of
                (Some ms_to_wait, Some lightweight, Some rpid) \<Rightarrow>
                  (case WaitForNewTask (sint rpid) lightweight (monitor_others env) (task_monitor s) of
                     (ok, m) \<Rightarrow> (respond earlier (if ok then HTTP_OK else HTTP_SERVICE_UNAVAILABLE, Body []),
                                s\<lparr>task_monitor := m\<rparr>))
              | _ \<Rightarrow> (respond earlier (HTTP_INTERNAL_SERVER_ERROR, ErrorText), s)))"

definition ReleaseQuota ::
  "'json HttpEnv \<Rightarrow> string \<Rightarrow> LocalDaemon \<Rightarrow> HTTPServerResponse \<times> LocalDaemon" where
  "ReleaseQuota env body s =
     (case poco_parse env body of
        JSONException \<Rightarrow> ((HTTP_BAD_REQUEST, ErrorText), s)
      | NoObject \<Rightarrow> ((HTTP_INTERNAL_SERVER_ERROR, ErrorText), s)
      | Object json \<Rightarrow>
          (let earlier = (if \<not> has_integer env json ''requestor_pid'' then Some (HTTP_BAD_REQUEST, ErrorText) else None)
           in case to_uint32 env json ''requestor_pid'' of
                Some rpid \<Rightarrow>
                  (respond earlier (HTTP_OK, Body []), s\<lparr>task_monitor := DropTask (sint rpid) (task_monitor s)\<rparr>)
              | None \<Rightarrow> (respond earlier (HTTP_INTERNAL_SERVER_ERROR, ErrorText), s)))"

subsection \<open>Digests of compilers\<close>

definition SetFileDigest ::
  "'json HttpEnv \<Rightarrow> string \<Rightarrow> LocalDaemon \<Rightarrow> HTTPServerResponse \<times> LocalDaemon" where
  "SetFileDigest env body s =
     (case parse_digest env body of
        (ok, req) \<Rightarrow>
          (respond (if ok then None else Some (HTTP_BAD_REQUEST, ErrorText)) (HTTP_OK, Body []),
           s\<lparr>file_cache := FileCacheSet (sf_path req) (sf_size req) (sf_mtime req) (sf_digest req) (file_cache s)\<rparr>))"

subsection \<open>Tasks\<close>

definition empty_dist_task :: CxxDistTask where
  "empty_dist_task = \<lparr>cache_control = False, dt_requester_pid = 0, dt_env_desc = \<lparr>compiler_digest = []\<rparr>,
     dt_source_path = [], dt_source_digest = [], dt_args = [], dt_source = []\<rparr>"

text \<open>The members of a new task that have no initial value do not matter: \<open>Prepare\<close> sets them all.\<close>

definition SubmitCxxTask ::
  "'json HttpEnv \<Rightarrow> string \<Rightarrow> LocalDaemon \<Rightarrow> fault + HTTPServerResponse \<times> LocalDaemon" where
  "SubmitCxxTask env body s =
     (case TryParseMultiChunk body of
        None \<Rightarrow> Inr ((HTTP_BAD_REQUEST, ErrorText), s)
      | Some [] \<Rightarrow> Inr ((HTTP_BAD_REQUEST, ErrorText), s)
      | Some (part # bytes) \<Rightarrow>
          (case parse_submit env part of
             None \<Rightarrow> Inr ((HTTP_BAD_REQUEST, ErrorText), s)
           | Some req \<Rightarrow>
               bind_fault (DistPrepare (file_cache s) req bytes empty_dist_task) (\<lambda>(code, task).
                 if code \<noteq> StatusOK then Inr ((HTTP_BAD_REQUEST, ErrorText), s)
                 else (case QueueTask task (env_queue_now env) (env_now env + sec 300) (task_dispatcher s) of
                         (i, disp) \<Rightarrow> Inr ((HTTP_OK, Body (submit_json env i)), s\<lparr>task_dispatcher := disp\<rparr>)))))"

definition HttpWaitForTask ::
  "'json HttpEnv \<Rightarrow> string \<Rightarrow> LocalDaemon \<Rightarrow> HTTPServerResponse \<times> LocalDaemon" where
  "HttpWaitForTask env body s =
     (case parse_wait env body of
        None \<Rightarrow> ((HTTP_BAD_REQUEST, ErrorText), s)
      | Some req \<Rightarrow>
          if ms (uint (wq_ms_to_wait req)) > sec 10 then ((HTTP_BAD_REQUEST, ErrorText), s)
          else
            (case LocalWaitForTask (wq_task_id req) (dispatcher_others env) (task_dispatcher s) of
               ((result, status), disp) \<Rightarrow>
                 (case result of
                    None \<Rightarrow> ((if status = LocalWait_Timeout then HTTP_SERVICE_UNAVAILABLE
                             else if status = LocalWait_NotFound then HTTP_NOT_FOUND else HTTP_OK, Body []),
                            s\<lparr>task_dispatcher := disp\<rparr>)
                  | Some (message, files) \<Rightarrow>
                      ((HTTP_OK, Body (MakeMultiChunk (wait_json env message # files))), s\<lparr>task_dispatcher := disp\<rparr>))))"

subsection \<open>Routing\<close>

datatype http_method = HTTP_GET | HTTP_POST | OtherMethod

datatype route = GetVersion | Acquire | Release | SetDigest | Submit | Wait | AskToLeave

definition get_router :: "(string, route) umap" where
  "get_router = [(''/local/get_version'', GetVersion)]"

definition post_router :: "(string, route) umap" where
  "post_router =
     [(''/local/acquire_quota'', Acquire), (''/local/release_quota'', Release), (''/local/set_file_digest'', SetDigest),
      (''/local/submit_cxx_task'', Submit), (''/local/wait_for_cxx_task'', Wait), (''/local/ask_to_leave'', AskToLeave)]"

definition find_route :: "http_method \<Rightarrow> string \<Rightarrow> route option" where
  "find_route method uri =
     (case method of
        HTTP_GET \<Rightarrow> umap_find get_router uri
      | HTTP_POST \<Rightarrow> umap_find post_router uri
      | OtherMethod \<Rightarrow> None)"

text \<open>\<open>AskToLeave\<close> sends the daemon a signal, which ends it elsewhere.\<close>

definition handleRequest ::
  "'json HttpEnv \<Rightarrow> http_method \<Rightarrow> string \<Rightarrow> string \<Rightarrow> LocalDaemon \<Rightarrow> fault + HTTPServerResponse \<times> LocalDaemon" where
  "handleRequest env method uri body s =
     (case find_route method uri of
        None \<Rightarrow> Inr ((HTTP_NOT_FOUND, ErrorText), s)
      | Some GetVersion \<Rightarrow> Inr ((HTTP_OK, Body (version_json env)), s)
      | Some Acquire \<Rightarrow> Inr (AcquireQuota env body s)
      | Some Release \<Rightarrow> Inr (ReleaseQuota env body s)
      | Some SetDigest \<Rightarrow> Inr (SetFileDigest env body s)
      | Some Submit \<Rightarrow> SubmitCxxTask env body s
      | Some Wait \<Rightarrow> Inr (HttpWaitForTask env body s)
      | Some AskToLeave \<Rightarrow> Inr ((HTTP_OK, Body []), s))"

end
