(* ===== verification/Client.thy ===== *)
theory Client
  imports ClientArgs HttpService
begin

text \<open>
  The client: \<open>client/client.cpp\<close>, \<open>client/cxx/compilition.cpp\<close>, \<open>client/cxx/rewrite_file.cpp\<close>,
  \<open>client/common/task_quota.cpp\<close>, \<open>client/common/utility.cpp\<close>.

  The daemon is reached through \<open>DaemonHttpCall\<close>, a function on a state \<open>'w\<close> (in the composed
  system, the daemon's). JSON, zstd, blake3, the file system and child processes are members of
  \<open>ClientEnv\<close>. A call may end in a fault, or never end: \<open>run\<close> below.
\<close>

section \<open>Definitions\<close>

subsection \<open>Calls that may not end\<close>

type_synonym ('w, 'a) run = "(fault + 'a \<times> 'w) option"

definition andThen :: "('w, 'a) run \<Rightarrow> ('a \<Rightarrow> 'w \<Rightarrow> ('w, 'b) run) \<Rightarrow> ('w, 'b) run" where
  "andThen m f = (case m of None \<Rightarrow> None | Some (Inl e) \<Rightarrow> Some (Inl e) | Some (Inr (a, w)) \<Rightarrow> f a w)"

definition ret :: "'a \<Rightarrow> 'w \<Rightarrow> ('w, 'a) run" where
  "ret a w = Some (Inr (a, w))"

definition lift_fault :: "fault + 'a \<Rightarrow> 'w \<Rightarrow> ('w, 'a) run" where
  "lift_fault m w = (case m of Inl e \<Rightarrow> Some (Inl e) | Inr a \<Rightarrow> Some (Inr (a, w)))"

subsection \<open>Surroundings\<close>

record RewriteResult =
  directives_only :: bool
  rr_cache_control :: int
  language :: string
  rr_source_path :: string
  zstd_rewritten :: string
  rr_source_digest :: string

record CompileResult =
  cr_exit_code :: int
  cr_stdout :: string
  cr_stderr :: string
  output_files :: "(string \<times> string) list"

text \<open>
  \<open>http_call\<close> is \<open>DaemonHttpCall\<close>: the status and the body, or no response. \<open>write_\<dots>\<close> print a JSON
  message. \<open>read_task_id\<close> and \<open>read_result\<close> parse one: \<open>None\<close> if the text is no JSON, and a member
  that is missing has its default.
  \<open>execute\<close> is \<open>ExecuteCommand\<close> with no input: exit code and standard output.
\<close>

record 'w ClientEnv =
  http_call :: "string \<Rightarrow> string \<Rightarrow> 'w \<Rightarrow> (nat \<times> string) option \<times> 'w"
  getpid :: int
  write_quota :: "int \<Rightarrow> bool \<Rightarrow> int \<Rightarrow> string"
  write_release :: "int \<Rightarrow> string"
  write_submit :: "SubmitCxxTaskRequest \<Rightarrow> string"
  write_digest :: "SetFileDigestRequest \<Rightarrow> string"
  write_wait :: "WaitForCXXTaskRequest \<Rightarrow> string"
  read_task_id :: "string \<Rightarrow> string option"
  read_result :: "string \<Rightarrow> WaitForCXXTaskResponse option"
  file_content :: "string \<Rightarrow> string option"
  mtime_and_size :: "string \<Rightarrow> u64 \<times> u64"
  execute :: "RewrittenArgs \<Rightarrow> int \<times> string"
  native :: "string \<Rightarrow> string list \<Rightarrow> int"
  zstd_stream :: "string \<Rightarrow> string"
  zstd_decompress :: "string \<Rightarrow> string option"
  blake3_of :: "string \<Rightarrow> string"
  cache_control_env :: int

subsection \<open>Quotas\<close>

definition ReleaseTaskQuota :: "'w ClientEnv \<Rightarrow> 'w \<Rightarrow> 'w" where
  "ReleaseTaskQuota env w = snd (http_call env ''/local/release_quota'' (write_release env (getpid env)) w)"

text \<open>\<open>timeout / 1s\<close> is the number of seconds, although the field is in milliseconds.\<close>

definition TryAcquireTaskQuota :: "'w ClientEnv \<Rightarrow> bool \<Rightarrow> int \<Rightarrow> 'w \<Rightarrow> bool \<times> 'w" where
  "TryAcquireTaskQuota env lightweight timeout_s w =
     (case http_call env ''/local/acquire_quota'' (write_quota env timeout_s lightweight (getpid env)) w of
        (Some (status, body), w') \<Rightarrow> (status = 200, w')
      | (None, w') \<Rightarrow> (False, w'))"

text \<open>\<open>AcquireTaskQuota\<close> tries until it succeeds.\<close>

partial_function (option) AcquireTaskQuota :: "'w ClientEnv \<Rightarrow> bool \<Rightarrow> 'w \<Rightarrow> ('w, unit) run" where
  "AcquireTaskQuota env lightweight w =
     (case TryAcquireTaskQuota env lightweight 10 w of
        (acquired, w') \<Rightarrow> if acquired then Some (Inr ((), w')) else AcquireTaskQuota env lightweight w')"

subsection \<open>Preprocessing\<close>

definition TryRewriteFileWithCommandLine ::
  "'w ClientEnv \<Rightarrow> RewrittenArgs \<Rightarrow> int \<Rightarrow> (string \<times> int \<times> string) option" where
  "TryRewriteFileWithCommandLine env command cache_cntl =
     (case execute env command of
        (code, out) \<Rightarrow>
          if code = 0
          then Some (zstd_stream env out, cache_cntl,
                     if cache_cntl \<noteq> 0 then EncodeHex (blake3_of env out) False else [])
          else None)"

definition rewrite_result :: "bool \<Rightarrow> string \<Rightarrow> CompilerArgs \<Rightarrow> string \<times> int \<times> string \<Rightarrow> RewriteResult" where
  "rewrite_result directives lang a r =
     \<lparr>directives_only = directives, rr_cache_control = fst (snd r), language = lang, rr_source_path = hd (ca_filenames a),
      zstd_rewritten = fst r, rr_source_digest = snd (snd r)\<rparr>"

text \<open>
  The quota is held until the function returns. It is called with one file name only
  (\<open>IsDistributable\<close>); without one the language cannot be determined.
\<close>

definition RewriteFile :: "'w ClientEnv \<Rightarrow> CompilerArgs \<Rightarrow> 'w \<Rightarrow> ('w, RewriteResult option) run" where
  "RewriteFile env a w =
     andThen (lift_fault (DetermineLanguage a) w) (\<lambda>lang w.
       case lang of
         None \<Rightarrow> ret None w
       | Some l \<Rightarrow>
           andThen (AcquireTaskQuota env True w) (\<lambda>_ w.
           andThen (lift_fault (Rewrite [''-c'', ''-o'', ''-fworking-directory''] []
                      [''-fno-working-directory'', ''-E'', ''-fdirectives-only''] True a) w) (\<lambda>cmd w.
             case TryRewriteFileWithCommandLine env cmd (cache_control_env env) of
               Some r \<Rightarrow> ret (Some (rewrite_result True l a r)) (ReleaseTaskQuota env w)
             | None \<Rightarrow>
                 andThen (lift_fault (Rewrite [''-c'', ''-o'', ''-fworking-directory''] []
                            [''-fno-working-directory'', ''-E''] True a) w) (\<lambda>cmd w.
                   case TryRewriteFileWithCommandLine env cmd (cache_control_env env) of
                     Some r \<Rightarrow> ret (Some (rewrite_result False l a r)) (ReleaseTaskQuota env w)
                   | None \<Rightarrow> ret None (ReleaseTaskQuota env w)))))"

subsection \<open>Submitting\<close>

definition kIgnoreCloudArgs :: "string list" where
  "kIgnoreCloudArgs = [''-MMD'', ''-MF'', ''-MD'', ''-MT'', ''-MP'', ''-o'', ''-Wmissing-include-dirs'']"

definition kIgnoreCloudPrefixes :: "string list" where
  "kIgnoreCloudPrefixes =
     [''-Wp,-MMD'', ''-Wp,-MF'', ''-Wp,-MD'', ''-Wp,-MD'', ''-Wp,-MP'', ''-I'', ''-include'', ''-isystem'']"

definition cloud_args :: "RewriteResult \<Rightarrow> CompilerArgs \<Rightarrow> fault + RewrittenArgs" where
  "cloud_args r a =
     Rewrite kIgnoreCloudArgs kIgnoreCloudPrefixes
       [''-fpreprocessed'', if directives_only r then ''-fdirectives-only'' else [], ''-x'', language r, ''-''] False a"

definition submit_request :: "'w ClientEnv \<Rightarrow> RewriteResult \<Rightarrow> string \<Rightarrow> CompilerArgs \<Rightarrow> SubmitCxxTaskRequest" where
  "submit_request env r command a =
     \<lparr>requestor_pid = getpid env, sub_source_path = rr_source_path r, sub_source_digest = rr_source_digest r,
      sub_cache_control = rr_cache_control r, compiler_args = command, sub_compiler_path = ca_compiler a,
      sub_compiler_size = snd (mtime_and_size env (ca_compiler a)),
      sub_compiler_mtime = fst (mtime_and_size env (ca_compiler a))\<rparr>"

definition submit_body :: "'w ClientEnv \<Rightarrow> RewriteResult \<Rightarrow> string \<Rightarrow> CompilerArgs \<Rightarrow> string" where
  "submit_body env r command a =
     (let parts = [write_submit env (submit_request env r command a), zstd_rewritten r]
      in MakeMultiChunkHeaderLine parts @ concat parts)"

definition GetFileDigest :: "'w ClientEnv \<Rightarrow> string \<Rightarrow> fault + string" where
  "GetFileDigest env path =
     (case file_content env path of None \<Rightarrow> Inl Aborted | Some c \<Rightarrow> Inr (EncodeHex (blake3_of env c) False))"

definition digest_request :: "'w ClientEnv \<Rightarrow> string \<Rightarrow> CompilerArgs \<Rightarrow> SetFileDigestRequest" where
  "digest_request env digest a =
     \<lparr>sf_path = ca_compiler a, sf_size = snd (mtime_and_size env (ca_compiler a)),
      sf_mtime = fst (mtime_and_size env (ca_compiler a)), sf_digest = digest\<rparr>"

text \<open>The last part of \<open>SubmitComileTask\<close>: the id in a response of status 200.\<close>

definition submit_id :: "'w ClientEnv \<Rightarrow> nat \<times> string \<Rightarrow> fault + u64 option" where
  "submit_id env response =
     (if fst response \<noteq> 200 then Inr None
      else case read_task_id env (snd response) of
             None \<Rightarrow> Inr None
           | Some txt \<Rightarrow> bind_fault (stoul txt) (\<lambda>i. Inr (Some i)))"

definition SubmitComileTask ::
  "'w ClientEnv \<Rightarrow> CompilerArgs \<Rightarrow> RewriteResult \<Rightarrow> 'w \<Rightarrow> ('w, u64 option) run" where
  "SubmitComileTask env a r w =
     andThen (lift_fault (cloud_args r a) w) (\<lambda>cmd w.
       let body = submit_body env r (ToCommandLine False cmd) a
       in case http_call env ''/local/submit_cxx_task'' body w of
            (None, w) \<Rightarrow> ret None w
          | (Some response, w) \<Rightarrow>
              if fst response \<noteq> 400 then lift_fault (submit_id env response) w
              else
                andThen (lift_fault (GetFileDigest env (ca_compiler a)) w) (\<lambda>digest w.
                  case http_call env ''/local/set_file_digest'' (write_digest env (digest_request env digest a)) w of
                    (None, w) \<Rightarrow> ret None w
                  | (Some answer, w) \<Rightarrow>
                      if fst answer \<noteq> 200 then ret None w
                      else (case http_call env ''/local/submit_cxx_task'' body w of
                              (None, w) \<Rightarrow> ret None w
                            | (Some response, w) \<Rightarrow> lift_fault (submit_id env response) w)))"

subsection \<open>Waiting for the result\<close>

definition failed_result :: CompileResult where
  "failed_result = \<lparr>cr_exit_code = -1, cr_stdout = [], cr_stderr = [], output_files = []\<rparr>"

text \<open>The loop over the files: \<open>parsed->at\<close> throws when there are fewer chunks than names.\<close>

fun result_files ::
  "(string \<Rightarrow> string option) \<Rightarrow> string list \<Rightarrow> string list \<Rightarrow> fault + (string \<times> string) list option" where
  "result_files decompress [] chunks = Inr (Some [])"
| "result_files decompress (ext # exts) [] = Inl OutOfRange"
| "result_files decompress (ext # exts) (chunk # chunks) =
     (case decompress chunk of
        None \<Rightarrow> Inr None
      | Some content \<Rightarrow>
          bind_fault (result_files decompress exts chunks) (\<lambda>rest.
            Inr (map_option (\<lambda>fs. (ext, content) # fs) rest)))"

definition read_response :: "'w ClientEnv \<Rightarrow> string \<Rightarrow> fault + CompileResult" where
  "read_response env body =
     (case TryParseMultiChunk body of
        None \<Rightarrow> Inr failed_result
      | Some [] \<Rightarrow> Inr failed_result
      | Some (part # chunks) \<Rightarrow>
          (case read_result env part of
             None \<Rightarrow> Inr failed_result
           | Some m \<Rightarrow>
               bind_fault (result_files (zstd_decompress env) (file_extensions m) chunks) (\<lambda>files.
                 case files of
                   None \<Rightarrow> Inr failed_result
                 | Some fs \<Rightarrow> Inr \<lparr>cr_exit_code = cx_exit_code m, cr_stdout = cx_stdout m, cr_stderr = cx_stderr m,
                                   output_files = fs\<rparr>)))"

text \<open>A status other than 200, 404 and 503 is logged, and the body is read all the same.\<close>

partial_function (option) WaitForCloudCompileResult ::
  "'w ClientEnv \<Rightarrow> u64 \<Rightarrow> 'w \<Rightarrow> ('w, CompileResult) run" where
  "WaitForCloudCompileResult env i w =
     (case http_call env ''/local/wait_for_cxx_task'' (write_wait env \<lparr>wq_task_id = i, wq_ms_to_wait = 10000\<rparr>) w of
        (response, w') \<Rightarrow>
          (case response of
             None \<Rightarrow> Some (Inr (failed_result, w'))
           | Some answer \<Rightarrow>
               if fst answer = 503 then WaitForCloudCompileResult env i w'
               else if fst answer = 404 then Some (Inr (failed_result, w'))
               else lift_fault (read_response env (snd answer)) w'))"

definition CompileOnCloud ::
  "'w ClientEnv \<Rightarrow> CompilerArgs \<Rightarrow> RewriteResult \<Rightarrow> 'w \<Rightarrow> ('w, CompileResult) run" where
  "CompileOnCloud env a r w =
     andThen (SubmitComileTask env a r w) (\<lambda>i w.
       case i of None \<Rightarrow> ret failed_result w | Some i \<Rightarrow> WaitForCloudCompileResult env i w)"

subsection \<open>The main program\<close>

text \<open>What the client leaves behind: its exit code, what it printed and the files it wrote.\<close>

record Outcome =
  oc_exit_code :: int
  oc_stdout :: string
  oc_stderr :: string
  oc_files :: "(string \<times> string) list"

text \<open>The prefix of files other than the object file is the last two characters of the destination.\<close>

definition WriteCompileResult :: "string \<Rightarrow> (string \<times> string) list \<Rightarrow> (string \<times> string) list" where
  "WriteCompileResult destination files =
     (let prefix = (if length destination \<ge> 2 \<and> drop (length destination - 2) destination = ''.o''
                    then drop (length destination - 2) destination else destination)
      in map (\<lambda>(suffix, content). (if suffix = ''.o'' then destination else prefix @ suffix, content)) files)"

definition native_outcome :: "int \<Rightarrow> Outcome" where
  "native_outcome code = \<lparr>oc_exit_code = code, oc_stdout = [], oc_stderr = [], oc_files = []\<rparr>"

text \<open>\<open>compile_on_native\<close> with a quota in hand, which is released at its end, and with a new one.\<close>

definition compile_on_native :: "'w ClientEnv \<Rightarrow> CompilerArgs \<Rightarrow> string list \<Rightarrow> 'w \<Rightarrow> ('w, Outcome) run" where
  "compile_on_native env a argv w =
     ret (native_outcome (native env (ca_compiler a) argv)) (ReleaseTaskQuota env w)"

definition compile_on_native_using_quota ::
  "'w ClientEnv \<Rightarrow> CompilerArgs \<Rightarrow> string list \<Rightarrow> 'w \<Rightarrow> ('w, Outcome) run" where
  "compile_on_native_using_quota env a argv w =
     andThen (AcquireTaskQuota env (IsLightweight a) w) (\<lambda>_ w. compile_on_native env a argv w)"

definition finish_cloud ::
  "'w ClientEnv \<Rightarrow> CompilerArgs \<Rightarrow> string list \<Rightarrow> CompileResult \<Rightarrow> 'w \<Rightarrow> ('w, Outcome) run" where
  "finish_cloud env a argv res w =
     (if cr_exit_code res \<noteq> 0 then compile_on_native_using_quota env a argv w
      else andThen (lift_fault (GetOutputFile a) w) (\<lambda>dest w.
             ret \<lparr>oc_exit_code = 0, oc_stdout = cr_stdout res, oc_stderr = cr_stderr res,
                   oc_files = WriteCompileResult dest (output_files res)\<rparr> w))"

fun cloud_loop ::
  "'w ClientEnv \<Rightarrow> CompilerArgs \<Rightarrow> string list \<Rightarrow> nat \<Rightarrow> RewriteResult \<Rightarrow> 'w \<Rightarrow> ('w, Outcome) run" where
  "cloud_loop env a argv retries r w =
     andThen (CompileOnCloud env a r w) (\<lambda>res w.
       if cr_exit_code res < 0 \<or> cr_exit_code res = 127 then
         (case TryAcquireTaskQuota env False 10 w of
            (True, w) \<Rightarrow> compile_on_native env a argv w
          | (False, w) \<Rightarrow>
              (case retries of
                 0 \<Rightarrow> finish_cloud env a argv res w
               | Suc n \<Rightarrow>
                   andThen (RewriteFile env a w) (\<lambda>rewritten w.
                     case rewritten of
                       Some r' \<Rightarrow> cloud_loop env a argv n r' w
                     | None \<Rightarrow> finish_cloud env a argv res w)))
       else finish_cloud env a argv res w)"

definition kClientRetries :: nat where
  "kClientRetries = 5"

subsection \<open>Finding the compiler\<close>

definition GetBaseName :: "string \<Rightarrow> string" where
  "GetBaseName name = (case find_last_of CHR ''/'' name of Some n \<Rightarrow> drop (Suc n) name | None \<Rightarrow> name)"

text \<open>
  The loop over \<open>PATH\<close>: \<open>exists\<close> is \<open>lstat\<close>, \<open>real_path\<close> resolves links. \<open>LOG_FATAL\<close> aborts when no
  directory has the program.
\<close>

fun FindExecutableInPath ::
  "(string \<Rightarrow> bool) \<Rightarrow> (string \<Rightarrow> string) \<Rightarrow> string \<Rightarrow> string \<Rightarrow> (string \<Rightarrow> bool) \<Rightarrow> string list \<Rightarrow> fault + string" where
  "FindExecutableInPath exists real_path self executable accept [] = Inl Aborted"
| "FindExecutableInPath exists real_path self executable accept (dir # dirs) =
     (let path = dir @ ''/'' @ executable
      in if exists path \<and> real_path path \<noteq> self \<and> accept (real_path path) then Inr path
         else FindExecutableInPath exists real_path self executable accept dirs)"

fun path_dirs :: "string \<Rightarrow> string \<Rightarrow> string list" where
  "path_dirs dir [] = [dir]"
| "path_dirs dir (c # cs) = (if c = CHR '':'' then dir # path_dirs [] cs else path_dirs (dir @ [c]) cs)"

definition not_wrapper :: "string \<Rightarrow> bool" where
  "not_wrapper path \<longleftrightarrow> \<not> EndWith path ''ccache'' \<and> \<not> EndWith path ''distcc''"

definition find_compiler ::
  "(string \<Rightarrow> bool) \<Rightarrow> (string \<Rightarrow> string) \<Rightarrow> string \<Rightarrow> string \<Rightarrow> string \<Rightarrow> fault + string" where
  "find_compiler exists real_path self path_env name =
     (if name \<noteq> [] \<and> hd name = CHR ''/'' then Inr name
      else FindExecutableInPath exists real_path self (GetBaseName name) not_wrapper (path_dirs [] path_env))"

text \<open>
  \<open>Compile\<close>: \<open>compiler\<close> is what \<open>find_compiler\<close> yields for \<open>argv[1]\<close>, \<open>argv\<close> the arguments after it.
\<close>

definition Compile :: "'w ClientEnv \<Rightarrow> fault + string \<Rightarrow> string list \<Rightarrow> 'w \<Rightarrow> ('w, Outcome) run" where
  "Compile env compiler argv w =
     andThen (lift_fault (CompilerArgs_new argv) w) (\<lambda>a0 w.
     andThen (lift_fault compiler w) (\<lambda>path w.
       let a = SetCompiler path a0
       in if \<not> IsDistributable a then compile_on_native_using_quota env a argv w
          else
            andThen (RewriteFile env a w) (\<lambda>rewritten w.
              case rewritten of
                None \<Rightarrow> compile_on_native_using_quota env a argv w
              | Some r \<Rightarrow>
                  if length (zstd_rewritten r) < 8192 then compile_on_native_using_quota env a argv w
                  else cloud_loop env a argv kClientRetries r w)))"

end
