(* ===== verification/Args_Props.thy ===== *)
theory Args_Props
  imports Client
begin

text \<open>
  What a rewritten command line means: the words a shell reads from the line that the client sends to
  the cloud are the options that were kept and those that were added.
\<close>

section \<open>Properties\<close>

lemma filter_option_ok:
  assumes "\<forall>(k, v) \<in> set (fst (parse_args argv)). P k \<longrightarrow> None \<notin> set v"
  shows "\<forall>kv \<in> set (filter (\<lambda>(k, v). P k) (fst (parse_args argv))). option_ok kv"
  using assms parse_args_ok[of argv] by fastforce

lemma flatten_words:
  "kv \<in> set (fst (parse_args argv)) \<Longrightarrow> None \<notin> set (snd kv) \<Longrightarrow> fst kv \<in> set argv \<and> set (map the (snd kv)) \<subseteq> set argv"
  by (induction argv rule: parse_args_induct) (auto simp: parse_args_simps)

lemma flatten_filter_words:
  assumes "\<forall>(k, v) \<in> set (fst (parse_args argv)). P k \<longrightarrow> None \<notin> set v"
  shows "set (flatten (filter (\<lambda>(k, v). P k) (fst (parse_args argv)))) \<subseteq> set argv"
  using assms flatten_words[of _ argv] by (fastforce simp: flatten_def)

lemma CompilerArgs_new_args:
  "CompilerArgs_new argv = Inr a \<Longrightarrow> ca_args a = fst (parse_args argv) \<and> ca_filenames a = snd (parse_args argv)"
  by (auto simp: CompilerArgs_new_def Let_def split_def split: if_splits)

lemma cloud_options_parse:
  "parse_args ([''-fpreprocessed''] @ (if d then [''-fdirectives-only''] else []) @ [''-x'', lang, ''-'']) =
     ([(''-fpreprocessed'', [])] @ (if d then [(''-fdirectives-only'', [])] else []) @
        [(''-x'', [Some lang]), (''-'', [])], [])"
  by (simp add: parse_args_simps kOneValueArguments_def)



lemma rewrite_options_ok:
  "\<forall>kv \<in> set opts. option_ok kv \<Longrightarrow>
     rewrite_options remove remove_prefix opts = Inr (flatten (filter (\<lambda>(k, v). keeps remove remove_prefix k) opts))"
  by (induction remove remove_prefix opts rule: rewrite_options.induct) (auto simp: flatten_def option_ok_def split: if_splits)

text \<open>
  Claim C30. Command lines are well typed and rewriting keeps them so: parsing gives file names that are no
  options; and if no option lacks its value, every rewriting that adds well-formed options succeeds, for
  the same compiler, and its arguments parse as exactly the options that are kept, then the added ones,
  then the file names if they are kept.
\<close>

theorem rewriting_well_typed:
  assumes "CompilerArgs_new argv = Inr a" and "\<forall>kv \<in> set (ca_args a). None \<notin> set (snd kv)" and "\<forall>kv \<in> set extra. option_ok kv"
  shows "(\<forall>kv \<in> set (ca_args a). option_ok kv) \<and> (\<forall>f \<in> set (ca_filenames a). filename_ok f) \<and>
    (\<exists>r. Rewrite remove remove_prefix (flatten extra) keep_filenames (SetCompiler path a) = Inr r \<and> rw_program r = path \<and>
       parse_args (rw_args r) =
         (filter (\<lambda>(k, v). keeps remove remove_prefix k) (ca_args a) @ extra, if keep_filenames then ca_filenames a else []))"
proof -
  note args = CompilerArgs_new_args[OF assms(1)]
  have opts: "\<forall>kv \<in> set (ca_args a). option_ok kv" and files: "\<forall>f \<in> set (ca_filenames a). filename_ok f"
    using parse_args_ok[of argv] args assms(2) by fastforce+
  then have kept: "\<forall>kv \<in> set (filter (\<lambda>(k, v). keeps remove remove_prefix k) (ca_args a) @ extra). option_ok kv"
    using assms(3) by auto
  have "flatten (xs @ ys) = flatten xs @ flatten ys" for xs ys by (simp add: flatten_def)
  then show ?thesis
    using opts files parse_args_append[OF kept] parse_args_files[OF files] parse_args_files[of "[]"]
    by (auto simp: Rewrite_def SetCompiler_def rewrite_options_ok[OF opts] simp flip: append_assoc)
qed

theorem rewriting_well_typed_witness:
  "\<exists>a r. CompilerArgs_new [''-c'', ''a.cc'', ''-o'', ''x.o''] = Inr a \<and>
     Rewrite [''-c'', ''-o''] [] (flatten [(''-E'', [])]) True (SetCompiler ''g++'' a) = Inr r \<and> parse_args (rw_args r) = ([(''-E'', [])], [''a.cc''])"
proof -
  have p: "parse_args [''-c'', ''a.cc'', ''-o'', ''x.o''] = ([(''-c'', []), (''-o'', [Some ''x.o''])], [''a.cc''])"
    by (simp add: parse_args_simps kOneValueArguments_def)
  obtain a where a: "CompilerArgs_new [''-c'', ''a.cc'', ''-o'', ''x.o''] = Inr a" by (simp add: CompilerArgs_new_def p)
  note args = CompilerArgs_new_args[OF a, unfolded p]
  have "\<forall>kv \<in> set [(''-E'', [])]. option_ok kv" by (simp add: option_ok_def kOneValueArguments_def)
  from rewriting_well_typed[OF a _ this, of "[''-c'', ''-o'']" "[]" True "''g++''"] a args show ?thesis
    by (auto simp: keeps_def)
qed

end
