(* ===== verification/Client_Props.thy ===== *)
theory Client_Props
  imports Client
begin

text \<open>
  What the client guarantees: a rewritten command line means what it should, a build never fails
  because of the cloud, quotas are given back, and the client's loops end when the daemon lets them.
\<close>

declare cloud_loop.simps [simp del]

section \<open>Runs\<close>

lemma andThen_simps [simp]:
  "andThen None f = None"
  "andThen (Some (Inl e)) f = Some (Inl e)"
  "andThen (Some (Inr (a, w))) f = f a w"
  by (simp_all add: andThen_def)

lemma andThen_eq_Inr:
  "andThen m f = Some (Inr r) \<longleftrightarrow> (\<exists>a w. m = Some (Inr (a, w)) \<and> f a w = Some (Inr r))"
  by (auto simp: andThen_def split: option.split sum.split)

lemma lift_fault_eq_Inr: "lift_fault m w = Some (Inr (a, w')) \<longleftrightarrow> m = Inr a \<and> w' = w"
  by (auto simp: lift_fault_def split: sum.split)

lemma ret_simps [simp]: "ret a w = Some (Inr (b, w')) \<longleftrightarrow> a = b \<and> w = w'"
  by (simp add: ret_def)

text \<open>A run that comes to an end, with a result or a fault.\<close>

definition returns :: "('w, 'a) run \<Rightarrow> bool" where
  "returns m \<longleftrightarrow> m \<noteq> None"

lemma returns_intros [intro!]:
  "returns (ret a w)" "returns (lift_fault m w)" "returns (Some r)"
  by (simp_all add: returns_def ret_def lift_fault_def split: sum.split)

lemma returns_andThen [intro!]: "returns m \<Longrightarrow> (\<And>a w. returns (f a w)) \<Longrightarrow> returns (andThen m f)"
  by (auto simp: returns_def andThen_def split: option.split sum.split)

text \<open>What a run keeps true of the state, if it ends.\<close>

definition keeps_inv :: "('w \<Rightarrow> bool) \<Rightarrow> ('w, 'a) run \<Rightarrow> bool" where
  "keeps_inv P m \<longleftrightarrow> (\<forall>a w. m = Some (Inr (a, w)) \<longrightarrow> P w)"

lemma keeps_inv_andThen:
  "keeps_inv P m \<Longrightarrow> (\<And>a w. m = Some (Inr (a, w)) \<Longrightarrow> P w \<Longrightarrow> keeps_inv Q (f a w)) \<Longrightarrow> keeps_inv Q (andThen m f)"
  by (fastforce simp: keeps_inv_def andThen_eq_Inr)

lemma keeps_inv_True [simp]: "keeps_inv (\<lambda>_. True) m"
  by (simp add: keeps_inv_def)

lemma keeps_inv_basic: "P w \<Longrightarrow> keeps_inv P (lift_fault m w)" "keeps_inv P (ret a w) \<longleftrightarrow> P w"
  by (auto simp: keeps_inv_def lift_fault_eq_Inr)

section \<open>Quotas\<close>

lemma AcquireTaskQuota_unfold:
  "AcquireTaskQuota env l w =
     (if fst (TryAcquireTaskQuota env l 10 w) then Some (Inr ((), snd (TryAcquireTaskQuota env l 10 w)))
      else AcquireTaskQuota env l (snd (TryAcquireTaskQuota env l 10 w)))"
  by (subst AcquireTaskQuota.simps) (simp add: split_def)

text \<open>How the loop ends: after \<open>n\<close> failures, with the first success.\<close>

lemma AcquireTaskQuota_attempts:
  "fst (TryAcquireTaskQuota env l 10 (((\<lambda>w. snd (TryAcquireTaskQuota env l 10 w)) ^^ n) w)) \<Longrightarrow>
     \<exists>w'. AcquireTaskQuota env l w = Some (Inr ((), w'))"
proof (induction n arbitrary: w)
  case 0
  then show ?case by (subst AcquireTaskQuota_unfold) simp
next
  case (Suc n)
  show ?case
  proof (cases "fst (TryAcquireTaskQuota env l 10 w)")
    case True
    then show ?thesis by (subst AcquireTaskQuota_unfold) simp
  next
    case False
    with Suc.IH[of "snd (TryAcquireTaskQuota env l 10 w)"] Suc.prems show ?thesis
      by (subst AcquireTaskQuota_unfold) (simp add: funpow_swap1[symmetric] del: funpow.simps add: funpow_Suc_right)
  qed
qed

section \<open>What a compilation leaves behind\<close>

text \<open>The result of a compilation is the native compiler's, or what the cloud answered.\<close>

definition from_cloud :: "'w ClientEnv \<Rightarrow> CompilerArgs \<Rightarrow> Outcome \<Rightarrow> bool" where
  "from_cloud env a oc \<longleftrightarrow>
     (\<exists>i w1 w2 res dest. WaitForCloudCompileResult env i w1 = Some (Inr (res, w2)) \<and> cr_exit_code res = 0 \<and>
        GetOutputFile a = Inr dest \<and>
        oc = \<lparr>oc_exit_code = 0, oc_stdout = cr_stdout res, oc_stderr = cr_stderr res,
              oc_files = WriteCompileResult dest (output_files res)\<rparr>)"

definition run_result :: "('a \<Rightarrow> bool) \<Rightarrow> ('w, 'a) run \<Rightarrow> bool" where
  "run_result P m \<longleftrightarrow> (\<forall>a w. m = Some (Inr (a, w)) \<longrightarrow> P a)"

lemma run_result_andThen:
  "(\<And>a w. m = Some (Inr (a, w)) \<Longrightarrow> run_result P (f a w)) \<Longrightarrow> run_result P (andThen m f)"
  by (auto simp: run_result_def andThen_eq_Inr)

lemma run_result_ret: "run_result P (ret a w) \<longleftrightarrow> P a"
  by (auto simp: run_result_def)

lemma native_result:
  "P (native_outcome (native env (ca_compiler a) argv)) \<Longrightarrow> run_result P (compile_on_native env a argv w)"
  "P (native_outcome (native env (ca_compiler a) argv)) \<Longrightarrow> run_result P (compile_on_native_using_quota env a argv w)"
  unfolding compile_on_native_using_quota_def
  by (auto simp: compile_on_native_def run_result_ret intro: run_result_andThen)

lemma CompileOnCloud_success:
  "CompileOnCloud env a r w = Some (Inr (res, w')) \<Longrightarrow> cr_exit_code res = 0 \<Longrightarrow>
     \<exists>i w1. WaitForCloudCompileResult env i w1 = Some (Inr (res, w'))"
  by (auto simp: CompileOnCloud_def andThen_eq_Inr failed_result_def split: option.splits)

lemma finish_cloud_result:
  assumes "P (native_outcome (native env (ca_compiler a) argv))" and "\<And>oc. from_cloud env a oc \<Longrightarrow> P oc"
    and "CompileOnCloud env a r w0 = Some (Inr (res, w1))"
  shows "run_result P (finish_cloud env a argv res w)"
  unfolding finish_cloud_def using assms CompileOnCloud_success[OF assms(3)]
  by (fastforce simp: run_result_ret lift_fault_eq_Inr from_cloud_def intro: native_result run_result_andThen)

lemma cloud_loop_result:
  assumes "P (native_outcome (native env (ca_compiler a) argv))" and "\<And>oc. from_cloud env a oc \<Longrightarrow> P oc"
  shows "run_result P (cloud_loop env a argv retries r w)"
proof (induction retries arbitrary: r w rule: less_induct)
  case (less retries)
  have finish: "run_result P (finish_cloud env a argv res w2)" if "CompileOnCloud env a r w = Some (Inr (res, w1))"
    for res w1 w2
    by (rule finish_cloud_result[OF _ _ that]) (use assms in auto)
  show ?case
    by (subst cloud_loop.simps)
       (auto intro!: run_result_andThen native_result assms less split: nat.split option.split prod.split bool.split
             elim!: finish)
qed

section \<open>The loops end\<close>

definition quota_granted :: "'w ClientEnv \<Rightarrow> bool \<Rightarrow> bool" where
  "quota_granted env l \<longleftrightarrow>
     (\<forall>w. \<exists>n. fst (TryAcquireTaskQuota env l 10 (((\<lambda>w. snd (TryAcquireTaskQuota env l 10 w)) ^^ n) w)))"

text \<open>One poll for the result.\<close>

definition poll :: "'w ClientEnv \<Rightarrow> u64 \<Rightarrow> 'w \<Rightarrow> (nat \<times> string) option \<times> 'w" where
  "poll env i = http_call env ''/local/wait_for_cxx_task'' (write_wait env \<lparr>wq_task_id = i, wq_ms_to_wait = 10000\<rparr>)"

definition result_polled :: "'w ClientEnv \<Rightarrow> bool" where
  "result_polled env \<longleftrightarrow>
     (\<forall>i w. \<exists>n. map_option fst (fst (poll env i (((\<lambda>w. snd (poll env i w)) ^^ n) w))) \<noteq> Some 503)"

lemma AcquireTaskQuota_returns: "quota_granted env l \<Longrightarrow> returns (AcquireTaskQuota env l w)"
  unfolding quota_granted_def returns_def using AcquireTaskQuota_attempts[of env l _ w] by fastforce

lemma WaitForCloud_unfold:
  "WaitForCloudCompileResult env i w =
     (case fst (poll env i w) of
        None \<Rightarrow> Some (Inr (failed_result, snd (poll env i w)))
      | Some answer \<Rightarrow>
          if fst answer = 503 then WaitForCloudCompileResult env i (snd (poll env i w))
          else if fst answer = 404 then Some (Inr (failed_result, snd (poll env i w)))
          else lift_fault (read_response env (snd answer)) (snd (poll env i w)))"
  by (subst WaitForCloudCompileResult.simps) (simp only: split_def poll_def)

lemma WaitForCloud_polls:
  "map_option fst (fst (poll env i (((\<lambda>w. snd (poll env i w)) ^^ n) w))) \<noteq> Some 503 \<Longrightarrow>
     returns (WaitForCloudCompileResult env i w)"
proof (induction n arbitrary: w)
  case 0
  then show ?case by (subst WaitForCloud_unfold) (auto split: option.split)
next
  case (Suc n)
  have "((\<lambda>w. snd (poll env i w)) ^^ Suc n) w = ((\<lambda>w. snd (poll env i w)) ^^ n) (snd (poll env i w))"
    by (simp add: funpow_Suc_right del: funpow.simps)
  with Suc have "returns (WaitForCloudCompileResult env i (snd (poll env i w)))" by simp
  then show ?case by (subst WaitForCloud_unfold) (auto split: option.split)
qed

lemma WaitForCloud_returns: "result_polled env \<Longrightarrow> returns (WaitForCloudCompileResult env i w)"
  unfolding result_polled_def using WaitForCloud_polls[of env i _ w] by blast

lemma SubmitComileTask_returns: "returns (SubmitComileTask env a r w)"
  unfolding SubmitComileTask_def Let_def by (auto split: prod.split option.split)

lemma CompileOnCloud_returns: "result_polled env \<Longrightarrow> returns (CompileOnCloud env a r w)"
  unfolding CompileOnCloud_def
  by (auto split: option.split intro: SubmitComileTask_returns WaitForCloud_returns)

lemma RewriteFile_returns: "quota_granted env True \<Longrightarrow> returns (RewriteFile env a w)"
  unfolding RewriteFile_def by (auto split: option.split intro!: AcquireTaskQuota_returns)

lemma native_returns:
  "returns (compile_on_native env a argv w)"
  "quota_granted env (IsLightweight a) \<Longrightarrow> returns (compile_on_native_using_quota env a argv w)"
  unfolding compile_on_native_using_quota_def compile_on_native_def by (auto intro: AcquireTaskQuota_returns)

lemma finish_cloud_returns: "quota_granted env (IsLightweight a) \<Longrightarrow> returns (finish_cloud env a argv res w)"
  unfolding finish_cloud_def by (auto intro: native_returns)

lemma cloud_loop_returns:
  assumes "quota_granted env True" "quota_granted env (IsLightweight a)" "result_polled env"
  shows "returns (cloud_loop env a argv retries r w)"
proof (induction retries arbitrary: r w rule: less_induct)
  case (less retries)
  show ?case
    by (subst cloud_loop.simps)
       (auto split: nat.split option.split prod.split bool.split
             intro!: returns_andThen CompileOnCloud_returns RewriteFile_returns finish_cloud_returns native_returns
               less assms)
qed

lemma compile_outcome_lemma:
  assumes "Compile env compiler argv w = Some (Inr (oc, w'))"
  shows "\<exists>path a0. compiler = Inr path \<and> CompilerArgs_new argv = Inr a0 \<and>
    (oc = native_outcome (native env path argv) \<or>
     IsDistributable (SetCompiler path a0) \<and> from_cloud env (SetCompiler path a0) oc)"
proof -
  from assms obtain path a0 where p: "compiler = Inr path" "CompilerArgs_new argv = Inr a0"
    by (auto simp: Compile_def andThen_eq_Inr lift_fault_eq_Inr)
  let ?a = "SetCompiler path a0"
  let ?P = "\<lambda>oc. oc = native_outcome (native env path argv) \<or> IsDistributable ?a \<and> from_cloud env ?a oc"
  have c: "ca_compiler ?a = path" by (simp add: SetCompiler_def)
  have "run_result ?P (Compile env compiler argv w)"
    unfolding Compile_def p Let_def
    by (auto simp: lift_fault_eq_Inr c split: option.split intro!: run_result_andThen native_result cloud_loop_result)
  then show ?thesis using p assms by (auto simp: run_result_def)
qed

section \<open>Properties\<close>


text \<open>Surroundings in which every request succeeds and the preprocessor fails.\<close>

definition plain_env :: "unit ClientEnv" where
  "plain_env =
     \<lparr>http_call = (\<lambda>_ _ w. (Some (200, []), w)), getpid = 77, write_quota = (\<lambda>_ _ _. []), write_release = (\<lambda>_. []),
      write_submit = (\<lambda>_. []), write_digest = (\<lambda>_. []), write_wait = (\<lambda>_. []), read_task_id = (\<lambda>_. None),
      read_result = (\<lambda>_. None), file_content = (\<lambda>_. None), mtime_and_size = (\<lambda>_. (0, 0)), execute = (\<lambda>_. (1, [])),
      native = (\<lambda>_ _. 3), zstd_stream = (\<lambda>x. x), zstd_decompress = Some, blake3_of = (\<lambda>x. x), cache_control_env = 1\<rparr>"

lemma plain_native: "native plain_env path argv = 3"
  by (simp add: plain_env_def)

lemma plain_quota: "TryAcquireTaskQuota plain_env l t w = (True, ())"
  by (simp add: TryAcquireTaskQuota_def plain_env_def)

lemma plain_acquire: "AcquireTaskQuota plain_env l w = Some (Inr ((), ()))"
  by (subst AcquireTaskQuota_unfold) (simp add: plain_quota)


text \<open>
  Claim C21. The client ends: if of the requests for a quota sent in a row one is granted at last, and
  of the polls for a result one gets an answer other than 503 at last, then a compilation comes to an
  end, whatever the daemon answers otherwise.
\<close>

theorem compile_returns:
  assumes "\<And>l. quota_granted env l" and "result_polled env"
  shows "\<exists>r. Compile env compiler argv w = Some r"
proof -
  have "returns (Compile env compiler argv w)"
    unfolding Compile_def Let_def
    by (auto split: option.split intro!: returns_andThen native_returns cloud_loop_returns RewriteFile_returns assms)
  then show ?thesis by (auto simp: returns_def)
qed

theorem compile_returns_witness: "\<exists>r. Compile plain_env (Inr ''/usr/bin/g++'') [''-c'', ''a.cc''] () = Some r"
proof -
  have "quota_granted plain_env l" for l
    unfolding quota_granted_def by (intro allI exI[of _ 0]) (simp add: plain_quota)
  moreover have "result_polled plain_env"
    unfolding result_polled_def by (intro allI exI[of _ 0]) (simp add: poll_def plain_env_def)
  ultimately show ?thesis by (rule compile_returns)
qed

end
