(* ===== verification/ClientDaemon.thy ===== *)
theory ClientDaemon
  imports Client_Props LocalKeepers_Props
begin

text \<open>
  \<open>client/common/daemon_call.cpp\<close>, and the client connected to the local daemon of its machine: the
  requests of \<open>Client\<close> are answered by \<open>handleRequest\<close> of \<open>HttpService\<close>.
\<close>

section \<open>Definitions\<close>

text \<open>
  \<open>DaemonHttpCall\<close>, with chunks and with a JSON text: \<open>session\<close> is Poco's client session, which sends a
  request with a method, a path and a body and receives the status and the body of the response, or
  throws. The content length that is set is the length of the body.
\<close>

datatype poco_exception = TimeoutException | OtherPocoException

type_synonym 'w http_session = "http_method \<Rightarrow> string \<Rightarrow> nat \<Rightarrow> string \<Rightarrow> 'w \<Rightarrow> (poco_exception + nat \<times> string) \<times> 'w"

definition caught :: "(poco_exception + nat \<times> string) \<times> 'w \<Rightarrow> (nat \<times> string) option \<times> 'w" where
  "caught r =
     (case r of
        (Inl TimeoutException, w) \<Rightarrow> (None, w)
      | (Inl OtherPocoException, w) \<Rightarrow> (None, w)
      | (Inr response, w) \<Rightarrow> (Some response, w))"

definition DaemonHttpCall_chunks ::
  "'w http_session \<Rightarrow> string \<Rightarrow> string list \<Rightarrow> 'w \<Rightarrow> (nat \<times> string) option \<times> 'w" where
  "DaemonHttpCall_chunks session api chunks w =
     caught (session HTTP_POST api (sum_list (map length chunks)) (concat chunks) w)"

definition DaemonHttpCall_json ::
  "'w http_session \<Rightarrow> string \<Rightarrow> string \<Rightarrow> 'w \<Rightarrow> (nat \<times> string) option \<times> 'w" where
  "DaemonHttpCall_json session api body_string w =
     caught (session HTTP_POST api (length body_string) body_string w)"

text \<open>
  A session with the daemon, which reads as much of the body as the content length says: the number
  of the status and the text of the body. A handler that ends in a fault sends no response.
\<close>

fun status_number :: "HTTPStatus \<Rightarrow> nat" where
  "status_number HTTP_OK = 200"
| "status_number HTTP_BAD_REQUEST = 400"
| "status_number HTTP_NOT_FOUND = 404"
| "status_number HTTP_EXPECTATION_FAILED = 417"
| "status_number HTTP_INTERNAL_SERVER_ERROR = 500"
| "status_number HTTP_SERVICE_UNAVAILABLE = 503"

definition daemon_session :: "'json HttpEnv \<Rightarrow> string \<Rightarrow> LocalDaemon http_session" where
  "daemon_session henv error_text method uri content_length body s =
     (case handleRequest henv method uri (take content_length body) s of
        Inl e \<Rightarrow> (Inl OtherPocoException, s)
      | Inr ((status, b), s') \<Rightarrow>
          (Inr (status_number status, case b of ErrorText \<Rightarrow> error_text | Body t \<Rightarrow> t), s'))"

section \<open>Quotas over a whole compilation\<close>

text \<open>
  What the client needs of a daemon that hands out quotas: \<open>holds\<close> says that the client has one. A
  daemon that \<open>serves\<close> a client gives one exactly when it says so, takes it back on a release, and
  changes nothing on other requests.
\<close>

locale quota_service =
  fixes serves :: "'w ClientEnv \<Rightarrow> bool"
    and holds :: "'w ClientEnv \<Rightarrow> 'w \<Rightarrow> bool"
  assumes acquired: "serves env \<Longrightarrow> fst (TryAcquireTaskQuota env l t w) \<Longrightarrow> holds env (snd (TryAcquireTaskQuota env l t w))"
    and refused: "serves env \<Longrightarrow> \<not> fst (TryAcquireTaskQuota env l t w) \<Longrightarrow>
      holds env (snd (TryAcquireTaskQuota env l t w)) = holds env w"
    and released: "serves env \<Longrightarrow> \<not> holds env (ReleaseTaskQuota env w)"
    and unaffected: "serves env \<Longrightarrow> api \<notin> {''/local/acquire_quota'', ''/local/release_quota''} \<Longrightarrow>
      holds env (snd (http_call env api body w)) = holds env w"
begin

abbreviation free :: "'w ClientEnv \<Rightarrow> 'w \<Rightarrow> bool" where
  "free env w \<equiv> \<not> holds env w"

lemma AcquireTaskQuota_holds:
  "AcquireTaskQuota env l w = Some r \<Longrightarrow> serves env \<longrightarrow> (\<exists>w'. r = Inr ((), w') \<and> holds env w')"
proof (erule AcquireTaskQuota.raw_induct[rotated])
  fix acquire :: "'w ClientEnv \<Rightarrow> bool \<Rightarrow> 'w \<Rightarrow> ('w, unit) run" and env l w r
  assume IH: "\<And>env l w r. acquire env l w = Some r \<Longrightarrow> serves env \<longrightarrow> (\<exists>w'. r = Inr ((), w') \<and> holds env w')"
    and r: "(case TryAcquireTaskQuota env l 10 w of
        (acquired, w') \<Rightarrow> if acquired then Some (Inr ((), w')) else acquire env l w') = Some r"
  show "serves env \<longrightarrow> (\<exists>w'. r = Inr ((), w') \<and> holds env w')"
    using r IH acquired[of env l 10 w] by (fastforce split: prod.splits if_splits)
qed

lemma call_free:
  assumes "serves env" "free env w" "api \<notin> {''/local/acquire_quota'', ''/local/release_quota''}"
    and "http_call env api body w = (response, w')"
  shows "free env w'"
  using unaffected[OF assms(1,3), of body w] assms(2,4) by simp

lemma WaitForCloud_free:
  "WaitForCloudCompileResult env i w = Some r \<Longrightarrow> serves env \<longrightarrow> free env w \<longrightarrow> (\<forall>res w'. r = Inr (res, w') \<longrightarrow> free env w')"
proof (erule WaitForCloudCompileResult.raw_induct[rotated])
  fix wait :: "'w ClientEnv \<Rightarrow> u64 \<Rightarrow> 'w \<Rightarrow> ('w, CompileResult) run" and env :: "'w ClientEnv" and i w r
  let ?call = "http_call env ''/local/wait_for_cxx_task'' (write_wait env \<lparr>wq_task_id = i, wq_ms_to_wait = 10000\<rparr>) w"
  assume IH: "\<And>env i w r. wait env i w = Some r \<Longrightarrow>
      serves env \<longrightarrow> free env w \<longrightarrow> (\<forall>res w'. r = Inr (res, w') \<longrightarrow> free env w')"
    and r: "(case ?call of (response, w') \<Rightarrow>
          (case response of
             None \<Rightarrow> Some (Inr (failed_result, w'))
           | Some answer \<Rightarrow>
               if fst answer = 503 then wait env i w'
               else if fst answer = 404 then Some (Inr (failed_result, w'))
               else lift_fault (read_response env (snd answer)) w')) = Some r"
  obtain response w1 where call: "?call = (response, w1)" by (cases ?call)
  show "serves env \<longrightarrow> free env w \<longrightarrow> (\<forall>res w'. r = Inr (res, w') \<longrightarrow> free env w')"
  proof (intro impI allI)
    fix res w' assume e: "serves env" "free env w" "r = Inr (res, w')"
    from call_free[OF e(1,2) _ call] have "free env w1" by simp
    then show "free env w'"
      using r IH[of env i w1 r] e by (auto simp: call lift_fault_def split: option.splits if_splits sum.splits)
  qed
qed

lemma keeps_free_wait: "serves env \<Longrightarrow> free env w \<Longrightarrow> keeps_inv (free env) (WaitForCloudCompileResult env i w)"
  unfolding keeps_inv_def using WaitForCloud_free[of env i w] by blast

lemma keeps_free_call:
  assumes "serves env" "free env w" "api \<notin> {''/local/acquire_quota'', ''/local/release_quota''}"
    and "\<And>w'. free env w' \<Longrightarrow> keeps_inv (free env) (f None w')"
    and "\<And>answer w'. free env w' \<Longrightarrow> keeps_inv (free env) (f (Some answer) w')"
  shows "keeps_inv (free env) (case http_call env api body w of (response, w') \<Rightarrow> f response w')"
proof -
  obtain response w' where "http_call env api body w = (response, w')" by (cases "http_call env api body w")
  moreover from call_free[OF assms(1-3) this] have "free env w'" .
  ultimately show ?thesis using assms(4,5) by (cases response) simp_all
qed

lemma keeps_free_submit: "serves env \<Longrightarrow> free env w \<Longrightarrow> keeps_inv (free env) (SubmitComileTask env a r w)"
  unfolding SubmitComileTask_def Let_def
  by (rule keeps_inv_andThen[of "free env"])
     (auto simp: keeps_inv_basic intro!: keeps_free_call keeps_inv_andThen[of "free env" "lift_fault _ _"])

lemma keeps_free_cloud: "serves env \<Longrightarrow> free env w \<Longrightarrow> keeps_inv (free env) (CompileOnCloud env a r w)"
  unfolding CompileOnCloud_def
  by (rule keeps_inv_andThen[of "free env"])
     (auto simp: keeps_inv_basic keeps_free_wait keeps_free_submit split: option.split)

lemma keeps_free_rewrite: "serves env \<Longrightarrow> free env w \<Longrightarrow> keeps_inv (free env) (RewriteFile env a w)"
  unfolding RewriteFile_def
  by (rule keeps_inv_andThen[of "free env"])
     (auto simp: keeps_inv_basic released split: option.split
           intro!: keeps_inv_andThen[of "\<lambda>_. True"] keeps_inv_basic)

lemma keeps_free_native:
  "serves env \<Longrightarrow> keeps_inv (free env) (compile_on_native env a argv w)"
  "serves env \<Longrightarrow> keeps_inv (free env) (compile_on_native_using_quota env a argv w)"
  unfolding compile_on_native_using_quota_def compile_on_native_def
  by (auto simp: keeps_inv_basic released intro!: keeps_inv_andThen[of "\<lambda>_. True"])

lemma keeps_free_finish: "serves env \<Longrightarrow> free env w \<Longrightarrow> keeps_inv (free env) (finish_cloud env a argv res w)"
  unfolding finish_cloud_def
  by (auto simp: keeps_inv_basic keeps_free_native intro!: keeps_inv_andThen[of "free env"])

lemma keeps_free_loop: "serves env \<Longrightarrow> free env w \<Longrightarrow> keeps_inv (free env) (cloud_loop env a argv retries r w)"
proof (induction retries arbitrary: r w rule: less_induct)
  case (less retries)
  have refused_free: "free env w2" if "free env w1" "TryAcquireTaskQuota env False 10 w1 = (False, w2)" for w1 w2
    using refused[OF less.prems(1), of False 10 w1] that by simp
  show ?case
    by (subst cloud_loop.simps, rule keeps_inv_andThen[OF keeps_free_cloud[OF less.prems]])
       (auto split: nat.split option.split prod.split bool.split dest: refused_free
             intro!: keeps_free_finish keeps_free_native less keeps_inv_andThen[OF keeps_free_rewrite])
qed

lemma Compile_free:
  assumes "serves env" "free env w"
  shows "keeps_inv (free env) (Compile env compiler argv w)"
  unfolding Compile_def Let_def
  by (rule keeps_inv_andThen[of "free env"], simp add: keeps_inv_basic assms, rule keeps_inv_andThen[of "free env"])
     (auto simp: keeps_inv_basic assms split: option.split
           intro!: keeps_free_native keeps_free_loop keeps_inv_andThen[OF keeps_free_rewrite])

end

section \<open>The daemon hands out quotas\<close>

text \<open>
  A client connected to the daemon: the JSON texts of its quota requests are read back with their
  process id, which is the id of a real process, and what other threads do during a wait concerns the
  quotas of other processes.
\<close>

definition talks_to :: "'json HttpEnv \<Rightarrow> string \<Rightarrow> LocalDaemon ClientEnv \<Rightarrow> bool" where
  "talks_to henv error_text env \<longleftrightarrow>
     http_call env = DaemonHttpCall_json (daemon_session henv error_text) \<and>
     1 < getpid env \<and> getpid env < 2 ^ 31 \<and>
     (\<forall>t l. \<exists>json ms. poco_parse henv (write_quota env t l (getpid env)) = Object json \<and>
        has_integer henv json ''ms_to_wait'' \<and> has_boolean henv json ''lightweight'' \<and>
        has_integer henv json ''requestor_pid'' \<and> to_uint32 henv json ''ms_to_wait'' = Some ms \<and>
        to_bool henv json ''lightweight'' = Some l \<and> to_uint32 henv json ''requestor_pid'' = Some (of_int (getpid env))) \<and>
     (\<exists>json. poco_parse henv (write_release env (getpid env)) = Object json \<and>
        has_integer henv json ''requestor_pid'' \<and> to_uint32 henv json ''requestor_pid'' = Some (of_int (getpid env))) \<and>
     (\<forall>m. getpid env \<in> set (permissions_granted (monitor_others henv m)) \<longleftrightarrow> getpid env \<in> set (permissions_granted m))"

definition has_permission :: "LocalDaemon ClientEnv \<Rightarrow> LocalDaemon \<Rightarrow> bool" where
  "has_permission env s \<longleftrightarrow> getpid env \<in> set (permissions_granted (task_monitor s))"

lemma sint_pid: "1 < p \<Longrightarrow> p < 2 ^ 31 \<Longrightarrow> sint (of_int p :: 32 word) = p"
  by (simp add: int_word_sint)

lemma route_simps:
  "find_route HTTP_POST ''/local/acquire_quota'' = Some Acquire"
  "find_route HTTP_POST ''/local/release_quota'' = Some Release"
  "find_route HTTP_POST ''/local/set_file_digest'' = Some SetDigest"
  "find_route HTTP_POST ''/local/submit_cxx_task'' = Some Submit"
  "find_route HTTP_POST ''/local/wait_for_cxx_task'' = Some Wait"
  by (simp_all add: find_route_def post_router_def umap_find_def)

lemma route_quota:
  "find_route HTTP_POST api = Some Acquire \<Longrightarrow> api = ''/local/acquire_quota''"
  "find_route HTTP_POST api = Some Release \<Longrightarrow> api = ''/local/release_quota''"
  by (auto simp: find_route_def post_router_def umap_find_def split: if_splits)

lemma WaitForNewTask_permission:
  assumes "\<forall>m. p \<in> set (permissions_granted (others m)) \<longleftrightarrow> p \<in> set (permissions_granted m)"
  shows "fst (WaitForNewTask p l others m) \<Longrightarrow> p \<in> set (permissions_granted (snd (WaitForNewTask p l others m)))"
    and "\<not> fst (WaitForNewTask p l others m) \<Longrightarrow>
      p \<in> set (permissions_granted (snd (WaitForNewTask p l others m))) \<longleftrightarrow> p \<in> set (permissions_granted m)"
  using assms by (auto simp: WaitForNewTask_def Let_def monitor_admit_def count_waiter_def split: if_splits)

lemma acquire_call:
  assumes "talks_to henv e env"
  shows "TryAcquireTaskQuota env l t s =
    (case WaitForNewTask (getpid env) l (monitor_others henv) (task_monitor s) of
       (ok, m) \<Rightarrow> (ok, s\<lparr>task_monitor := m\<rparr>))"
proof -
  from assms obtain json ms where "poco_parse henv (write_quota env t l (getpid env)) = Object json"
    "has_integer henv json ''ms_to_wait''" "has_boolean henv json ''lightweight''" "has_integer henv json ''requestor_pid''"
    "to_uint32 henv json ''ms_to_wait'' = Some ms" "to_bool henv json ''lightweight'' = Some l"
    "to_uint32 henv json ''requestor_pid'' = Some (of_int (getpid env))"
    unfolding talks_to_def by blast
  with assms show ?thesis
    by (simp add: talks_to_def TryAcquireTaskQuota_def DaemonHttpCall_json_def caught_def daemon_session_def handleRequest_def
        route_simps AcquireQuota_def respond_def sint_pid split: prod.split)
qed

lemma release_call:
  assumes "talks_to henv e env"
  shows "ReleaseTaskQuota env s = s\<lparr>task_monitor := DropTask (getpid env) (task_monitor s)\<rparr>"
proof -
  from assms obtain json where "poco_parse henv (write_release env (getpid env)) = Object json"
    "has_integer henv json ''requestor_pid''" "to_uint32 henv json ''requestor_pid'' = Some (of_int (getpid env))"
    unfolding talks_to_def by blast
  with assms show ?thesis
    by (simp add: talks_to_def ReleaseTaskQuota_def DaemonHttpCall_json_def caught_def daemon_session_def handleRequest_def
        route_simps ReleaseQuota_def respond_def sint_pid)
qed

lemma submit_monitor: "SubmitCxxTask henv body s = Inr (r, s') \<Longrightarrow> task_monitor s' = task_monitor s"
  by (auto simp: SubmitCxxTask_def split: option.splits list.splits if_splits prod.splits sum.splits)

lemma SetFileDigest_monitor: "task_monitor (snd (SetFileDigest henv body s)) = task_monitor s"
  by (simp add: SetFileDigest_def split: prod.split)

lemma HttpWaitForTask_monitor: "task_monitor (snd (HttpWaitForTask henv body s)) = task_monitor s"
  by (simp add: HttpWaitForTask_def split: prod.split option.split)

lemma other_calls_monitor:
  assumes "find_route HTTP_POST api \<notin> {Some Acquire, Some Release}"
  shows "task_monitor (snd (DaemonHttpCall_json (daemon_session henv e) api body s)) = task_monitor s"
proof -
  have same: "task_monitor s' = task_monitor s" if "handleRequest henv HTTP_POST api body s = Inr (r, s')" for r s'
  proof (cases "find_route HTTP_POST api")
    case None
    with that show ?thesis by (simp add: handleRequest_def)
  next
    case (Some rt)
    with that assms show ?thesis
      using SetFileDigest_monitor[of henv body s] HttpWaitForTask_monitor[of henv body s]
      by (cases rt) (auto simp: handleRequest_def dest: submit_monitor)
  qed
  show ?thesis
  proof (cases "handleRequest henv HTTP_POST api body s")
    case (Inr answer)
    obtain status b s' where "answer = ((status, b), s')" by (metis prod.exhaust)
    with Inr same[of "(status, b)" s'] show ?thesis by (simp add: DaemonHttpCall_json_def caught_def daemon_session_def)
  qed (simp add: DaemonHttpCall_json_def caught_def daemon_session_def)
qed

interpretation monitor_quotas: quota_service "talks_to henv e" has_permission for henv e
proof
  fix env l t s
  assume "talks_to henv e env"
  then have others: "\<forall>m. getpid env \<in> set (permissions_granted (monitor_others henv m)) \<longleftrightarrow>
      getpid env \<in> set (permissions_granted m)" by (simp add: talks_to_def)
  note call = acquire_call[OF \<open>talks_to henv e env\<close>, of l t s]
  show "fst (TryAcquireTaskQuota env l t s) \<Longrightarrow> has_permission env (snd (TryAcquireTaskQuota env l t s))"
    and "\<not> fst (TryAcquireTaskQuota env l t s) \<Longrightarrow>
      has_permission env (snd (TryAcquireTaskQuota env l t s)) = has_permission env s"
    using WaitForNewTask_permission[OF others, of l "task_monitor s"]
    by (auto simp: call has_permission_def split: prod.splits)
next
  fix env s
  assume "talks_to henv e env"
  then show "\<not> has_permission env (ReleaseTaskQuota env s)"
    by (simp add: release_call has_permission_def DropTask_def)
next
  fix env api body s
  assume t: "talks_to henv e env" and "api \<notin> {''/local/acquire_quota'', ''/local/release_quota''}"
  then have "find_route HTTP_POST api \<notin> {Some Acquire, Some Release}" using route_quota[of api] by auto
  from other_calls_monitor[OF this, of henv e body s] t
  show "has_permission env (snd (http_call env api body s)) = has_permission env s"
    by (simp add: talks_to_def has_permission_def)
qed

end
