(* ===== verification/ClientDaemon_Props.thy ===== *)
theory ClientDaemon_Props
  imports ClientDaemon
begin

text \<open>
  The client and the local daemon together: a submission puts the task into the daemon's table, the
  result of a completed task comes back to the client, and the daemon's quotas are given back.
\<close>

section \<open>Submission\<close>

lemma DaemonHttpCall_concat: "DaemonHttpCall_json session api (concat chunks) = DaemonHttpCall_chunks session api chunks"
  by (rule ext) (simp add: DaemonHttpCall_json_def DaemonHttpCall_chunks_def length_concat)

lemma FileCache_set_get: "FileCacheTryGet path sz mtime (FileCacheSet path sz mtime h fc) = Some h"
  by (simp add: FileCacheTryGet_def FileCacheSet_def umap.look_put)

text \<open>The task the daemon makes of a submission, for a compiler with the digest \<open>h\<close>.\<close>

definition submitted_task :: "'w ClientEnv \<Rightarrow> RewriteResult \<Rightarrow> string \<Rightarrow> string \<Rightarrow> CxxDistTask" where
  "submitted_task env r command h =
     \<lparr>cache_control = (rr_cache_control r \<noteq> 0), dt_requester_pid = getpid env, dt_env_desc = \<lparr>compiler_digest = h\<rparr>,
      dt_source_path = rr_source_digest r, dt_source_digest = rr_source_digest r, dt_args = command,
      dt_source = zstd_rewritten r\<rparr>"

abbreviation known_compiler :: "'w ClientEnv \<Rightarrow> CompilerArgs \<Rightarrow> LocalDaemon \<Rightarrow> string option" where
  "known_compiler env a s \<equiv>
     FileCacheTryGet (ca_compiler a) (snd (mtime_and_size env (ca_compiler a))) (fst (mtime_and_size env (ca_compiler a)))
       (file_cache s)"

lemma submit_call:
  assumes "talks_to henv e env"
    and "parse_submit henv (write_submit env (submit_request env r command a)) = Some (submit_request env r command a)"
    and "chunkable [write_submit env (submit_request env r command a), zstd_rewritten r]"
    and "rr_source_path r \<noteq> []" "rr_source_digest r \<noteq> []" "command \<noteq> []"
  shows "http_call env ''/local/submit_cxx_task'' (submit_body env r command a) s =
    (case known_compiler env a s of
       None \<Rightarrow> (Some (400, e), s)
     | Some h \<Rightarrow>
         (case QueueTask (submitted_task env r command h) (env_queue_now henv) (env_now henv + sec 300) (task_dispatcher s) of
            (i, disp) \<Rightarrow> (Some (200, submit_json henv i), s\<lparr>task_dispatcher := disp\<rparr>)))"
proof -
  have "TryParseMultiChunk (submit_body env r command a) =
      Some [write_submit env (submit_request env r command a), zstd_rewritten r]"
    using client_body.dec_enc[of "[write_submit env (submit_request env r command a), zstd_rewritten r]"] assms(3)
    by (simp add: submit_body_def Let_def)
  with assms show ?thesis
    by (simp add: talks_to_def DaemonHttpCall_json_def caught_def daemon_session_def handleRequest_def route_simps
        SubmitCxxTask_def DistPrepare_def submit_request_def submitted_task_def split: option.split prod.split)
qed

lemma digest_call:
  assumes "talks_to henv e env"
    and "parse_digest henv (write_digest env (digest_request env h a)) = (True, digest_request env h a)"
  shows "\<exists>s'. http_call env ''/local/set_file_digest'' (write_digest env (digest_request env h a)) s = (Some (200, []), s') \<and>
    known_compiler env a s' = Some h \<and> task_dispatcher s' = task_dispatcher s"
  using assms FileCache_set_get
  by (simp add: talks_to_def DaemonHttpCall_json_def caught_def daemon_session_def handleRequest_def route_simps
      SetFileDigest_def respond_def digest_request_def)

lemma ToCommandLine_nonempty:
  assumes "cloud_args r a = Inr cmd"
  shows "ToCommandLine False cmd \<noteq> []"
proof -
  from assms obtain opts d where "rw_args cmd = opts @ ''-fpreprocessed'' # d # [''-x'', language r, ''-'']"
    by (auto simp: cloud_args_def Rewrite_def)
  then show ?thesis
    by (simp add: ToCommandLine_def escape_char_def escaped_chars_def butlast_append)
qed

lemma submit_id_ok:
  "read_task_id env (submit_json henv i) = Some (to_string (unat i)) \<Longrightarrow>
     submit_id env (200, submit_json henv i) = Inr (Some i)"
  using unsigned_less[of i, where ?'a = nat] by (simp add: submit_id_def stoul_to_string)

lemma result_files_all:
  "length exts = length contents \<Longrightarrow> map decompress chunks = map Some contents \<Longrightarrow>
     result_files decompress exts chunks = Inr (Some (zip exts contents))"
proof (induction exts chunks arbitrary: contents rule: result_files.induct)
  case (3 decompress ext exts chunk chunks)
  then show ?case by (cases contents) auto
qed auto

section \<open>Properties\<close>

text \<open>
  Claim C6. A submission reaches the dispatcher: with JSON that is read back as it was written, and a
  compiler whose file can be read, \<open>SubmitComileTask\<close> returns the id of a new pending task in the
  daemon's table. The task has the command line rewritten for the cloud, the compressed source and
  its digest; its compiler digest is the one the daemon knows for the file, and if it knows none the
  client first tells it the digest of the file's content.
\<close>

theorem client_submission_queued:
  assumes "talks_to henv e env" and "cloud_args r a = Inr cmd"
    and "parse_submit henv (write_submit env (submit_request env r (ToCommandLine False cmd) a)) =
      Some (submit_request env r (ToCommandLine False cmd) a)"
    and "chunkable [write_submit env (submit_request env r (ToCommandLine False cmd) a), zstd_rewritten r]"
    and "file_content env (ca_compiler a) = Some content"
    and "h = EncodeHex (blake3_of env content) False"
    and "parse_digest henv (write_digest env (digest_request env h a)) = (True, digest_request env h a)"
    and "\<And>i. read_task_id env (submit_json henv i) = Some (to_string (unat i))"
    and "rr_source_path r \<noteq> []" "rr_source_digest r \<noteq> []"
  shows "\<exists>s' p. SubmitComileTask env a r s = Some (Inr (Some (loc_next_id (task_dispatcher s) + 1), s')) \<and>
    umap_find (loc_tasks (task_dispatcher s')) (loc_next_id (task_dispatcher s) + 1) = Some p \<and>
    p \<in> set (performing (task_dispatcher s')) \<and>
    ld_state (loc_descs (task_dispatcher s') p) = Pending \<and>
    ld_task (loc_descs (task_dispatcher s') p) = submitted_task env r (ToCommandLine False cmd)
      (case known_compiler env a s of None \<Rightarrow> h | Some g \<Rightarrow> g)"
proof -
  let ?i = "loc_next_id (task_dispatcher s) + 1"
  note call = submit_call[OF assms(1,3,4,9,10) ToCommandLine_nonempty[OF assms(2)]]
  have queued: "umap_find (loc_tasks disp) (loc_next_id d0 + 1) = Some (loc_next_desc d0) \<and> i = loc_next_id d0 + 1 \<and>
      loc_next_desc d0 \<in> set (performing disp) \<and>
      loc_descs disp (loc_next_desc d0) = new_desc i task now deadline"
    if "QueueTask task now deadline d0 = (i, disp)" for task now deadline i disp d0
    using that by (auto simp: QueueTask_def Let_def umap.look_put)
  show ?thesis
  proof (cases "known_compiler env a s")
    case (Some g)
    obtain i disp where q: "QueueTask (submitted_task env r (ToCommandLine False cmd) g) (env_queue_now henv)
        (env_now henv + sec 300) (task_dispatcher s) = (i, disp)" by fastforce
    with queued[OF q] call[of s] Some have "SubmitComileTask env a r s = Some (Inr (Some ?i, s\<lparr>task_dispatcher := disp\<rparr>))"
      by (simp add: SubmitComileTask_def assms(2) lift_fault_def submit_id_ok[OF assms(8)])
    then show ?thesis using queued[OF q] Some by (auto simp: new_desc_def)
  next
    case None
    from digest_call[OF assms(1,7), of s] obtain s1 where
      s1: "http_call env ''/local/set_file_digest'' (write_digest env (digest_request env h a)) s = (Some (200, []), s1)"
        "known_compiler env a s1 = Some h" "task_dispatcher s1 = task_dispatcher s" by blast
    obtain i disp where q: "QueueTask (submitted_task env r (ToCommandLine False cmd) h) (env_queue_now henv)
        (env_now henv + sec 300) (task_dispatcher s) = (i, disp)" by fastforce
    have "SubmitComileTask env a r s = Some (Inr (Some ?i, s1\<lparr>task_dispatcher := disp\<rparr>))"
      using queued[OF q] call[of s] call[of s1] None s1 q assms(5)
      by (simp add: SubmitComileTask_def assms(2) lift_fault_def GetFileDigest_def assms(6)[symmetric] submit_id_ok[OF assms(8)])
    then show ?thesis using queued[OF q] None by (auto simp: new_desc_def)
  qed
qed

text \<open>A daemon and a client that writes constant texts, enough for one compilation.\<close>

definition demo_http :: "string HttpEnv" where
  "demo_http =
     \<lparr>poco_parse = Object, has_integer = (\<lambda>_ _. True), has_boolean = (\<lambda>_ _. True),
      to_uint32 = (\<lambda>_ field. Some (if field = ''requestor_pid'' then 77 else 10)), to_bool = (\<lambda>body _. Some (body = ''l'')),
      parse_digest = (\<lambda>_. (True, \<lparr>sf_path = ''/usr/bin/g++'', sf_size = 6, sf_mtime = 5, sf_digest = ''61''\<rparr>)),
      parse_submit = (\<lambda>_. Some \<lparr>requestor_pid = 77, sub_source_path = ''a.cc'', sub_source_digest = ''dd'',
        sub_cache_control = 1, compiler_args = ''-c -fpreprocessed -fdirectives-only -x c++ -'',
        sub_compiler_path = ''/usr/bin/g++'', sub_compiler_size = 6, sub_compiler_mtime = 5\<rparr>),
      parse_wait = (\<lambda>_. Some \<lparr>wq_task_id = 1, wq_ms_to_wait = 10000\<rparr>), version_json = [],
      submit_json = (\<lambda>i. to_string (unat i)), wait_json = (\<lambda>_. ''m''), env_now = 0, env_queue_now = 0,
      monitor_others = (\<lambda>m. m), dispatcher_others = (\<lambda>d. d)\<rparr>"

definition demo_client :: "LocalDaemon ClientEnv" where
  "demo_client =
     \<lparr>http_call = DaemonHttpCall_json (daemon_session demo_http ''error''), getpid = 77,
      write_quota = (\<lambda>t l p. if l then ''l'' else ''h''), write_release = (\<lambda>_. ''r''), write_submit = (\<lambda>_. ''s''),
      write_digest = (\<lambda>_. ''d''), write_wait = (\<lambda>_. ''w''), read_task_id = Some,
      read_result = (\<lambda>_. Some \<lparr>cx_exit_code = 0, cx_stdout = ''ok'', cx_stderr = [], file_extensions = [''.o'']\<rparr>),
      file_content = (\<lambda>_. Some ''a''), mtime_and_size = (\<lambda>_. (5, 6)), execute = (\<lambda>_. (0, ''src'')),
      native = (\<lambda>_ _. 0), zstd_stream = (\<lambda>x. x), zstd_decompress = Some, blake3_of = (\<lambda>x. x), cache_control_env = 1\<rparr>"

definition demo_daemon :: LocalDaemon where
  "demo_daemon = \<lparr>task_monitor = TaskMonitor_new 2 8, file_cache = \<lparr>caches = []\<rparr>, task_dispatcher =
     \<lparr>loc_next_id = 0, loc_tasks = [], loc_descs = (\<lambda>_. new_desc 0 empty_dist_task 0 0), loc_next_desc = 0, performing = [],
      hit_cache = 0, existed_times = 0, run_times = 0\<rparr>\<rparr>"

definition demo_rewritten :: RewriteResult where
  "demo_rewritten = \<lparr>directives_only = True, rr_cache_control = 1, language = ''c++'', rr_source_path = ''a.cc'',
     zstd_rewritten = ''zz'', rr_source_digest = ''dd''\<rparr>"

definition demo_args :: CompilerArgs where
  "demo_args = \<lparr>ca_compiler = ''/usr/bin/g++'', ca_args = [(''-c'', [])], ca_filenames = [''a.cc''], ca_rebuilt_arg = ''-c a.cc''\<rparr>"

definition demo_cmd :: RewrittenArgs where
  "demo_cmd = \<lparr>rw_program = ''/usr/bin/g++'', rw_args = [''-c'', ''-fpreprocessed'', ''-fdirectives-only'', ''-x'', ''c++'', ''-'']\<rparr>"

lemma demo_talks: "talks_to demo_http ''error'' demo_client"
  by (simp add: talks_to_def demo_client_def demo_http_def)

lemma demo_pid: "getpid demo_client = 77"
  by (simp add: demo_client_def)

lemma demo_cloud_args:
  "cloud_args demo_rewritten demo_args = Inr demo_cmd"
  "ToCommandLine False demo_cmd = ''-c -fpreprocessed -fdirectives-only -x c++ -''"
  "EncodeHex ''a'' False = ''61''"
  by code_simp+

theorem client_submission_queued_witness:
  "\<exists>s' p. SubmitComileTask demo_client demo_args demo_rewritten demo_daemon = Some (Inr (Some 1, s')) \<and>
     umap_find (loc_tasks (task_dispatcher s')) 1 = Some p \<and>
     compiler_digest (dt_env_desc (ld_task (loc_descs (task_dispatcher s') p))) = ''61''"
proof -
  have "submit_request demo_client demo_rewritten (ToCommandLine False demo_cmd) demo_args = the (parse_submit demo_http [])"
    "digest_request demo_client ''61'' demo_args = snd (parse_digest demo_http [])"
    by (simp_all add: demo_cloud_args(2) submit_request_def digest_request_def demo_client_def demo_http_def
        demo_rewritten_def demo_args_def)
  then have json: "parse_submit demo_http (write_submit demo_client (submit_request demo_client demo_rewritten (ToCommandLine False demo_cmd) demo_args)) =
      Some (submit_request demo_client demo_rewritten (ToCommandLine False demo_cmd) demo_args)"
    "parse_digest demo_http (write_digest demo_client (digest_request demo_client ''61'' demo_args)) =
      (True, digest_request demo_client ''61'' demo_args)"
    by (simp_all add: demo_http_def)
  have rest: "chunkable [write_submit demo_client (submit_request demo_client demo_rewritten (ToCommandLine False demo_cmd) demo_args),
      zstd_rewritten demo_rewritten]"
    "file_content demo_client (ca_compiler demo_args) = Some ''a''" "''61'' = EncodeHex (blake3_of demo_client ''a'') False"
    "\<And>i. read_task_id demo_client (submit_json demo_http i) = Some (to_string (unat i))"
    "rr_source_path demo_rewritten \<noteq> []" "rr_source_digest demo_rewritten \<noteq> []"
    by (simp_all add: demo_cloud_args(3) chunkable_def demo_client_def demo_http_def demo_rewritten_def LONG_MAX_def)
  have new: "known_compiler demo_client demo_args demo_daemon = None" "loc_next_id (task_dispatcher demo_daemon) = 0"
    by (simp_all add: FileCacheTryGet_def demo_daemon_def umap_find_def)
  from client_submission_queued[OF demo_talks demo_cloud_args(1) json(1) rest(1-3) json(2) rest(4-6), of demo_daemon]
  show ?thesis by (auto simp: new submitted_task_def)
qed

text \<open>
  A source that may not be cached is never compiled in the cloud: with caching disallowed the
  preprocessed source has no digest, the daemon refuses the submission before and after the digest of
  the compiler was set, and nothing is queued.
\<close>

theorem uncached_never_submitted:
  assumes "talks_to henv e env"
    and "TryRewriteFileWithCommandLine env pre 0 = Some z" and "r = rewrite_result d lang a z"
    and "cloud_args r a = Inr cmd"
    and "parse_submit henv (write_submit env (submit_request env r (ToCommandLine False cmd) a)) =
      Some (submit_request env r (ToCommandLine False cmd) a)"
    and "chunkable [write_submit env (submit_request env r (ToCommandLine False cmd) a), zstd_rewritten r]"
    and "file_content env (ca_compiler a) = Some content"
  shows "\<exists>s'. SubmitComileTask env a r s = Some (Inr (None, s')) \<and> task_dispatcher s' = task_dispatcher s"
proof -
  have empty: "rr_source_digest r = []"
    using assms(2,3) by (auto simp: TryRewriteFileWithCommandLine_def rewrite_result_def split: prod.splits if_splits)
  let ?command = "ToCommandLine False cmd"
  have call: "http_call env ''/local/submit_cxx_task'' (submit_body env r ?command a) u = (Some (400, e), u)" for u
  proof -
    have "TryParseMultiChunk (submit_body env r ?command a) =
        Some [write_submit env (submit_request env r ?command a), zstd_rewritten r]"
      using client_body.dec_enc[of "[write_submit env (submit_request env r ?command a), zstd_rewritten r]"] assms(6)
      by (simp add: submit_body_def Let_def)
    with assms(1,5) empty show ?thesis
      by (simp add: talks_to_def DaemonHttpCall_json_def caught_def daemon_session_def handleRequest_def route_simps
          SubmitCxxTask_def DistPrepare_def submit_request_def)
  qed
  have digest: "task_dispatcher u' = task_dispatcher u"
    if "http_call env ''/local/set_file_digest'' body u = (answer, u')" for body u answer u'
    using that assms(1)
    by (auto simp: talks_to_def DaemonHttpCall_json_def caught_def daemon_session_def handleRequest_def route_simps
        SetFileDigest_def split: prod.splits)
  let ?h = "EncodeHex (blake3_of env content) False"
  obtain answer u where u: "http_call env ''/local/set_file_digest'' (write_digest env (digest_request env ?h a)) s = (answer, u)"
    by fastforce
  have "SubmitComileTask env a r s = Some (Inr (None, u))"
    by (cases answer) (auto simp: SubmitComileTask_def Let_def assms(4,7) GetFileDigest_def lift_fault_def u call submit_id_def ret_def)
  with digest[OF u] show ?thesis by simp
qed

definition demo_uncached :: RewriteResult where
  "demo_uncached = rewrite_result True ''c++'' demo_args (''src'', 0, [])"

definition demo_uncached_http :: "string HttpEnv" where
  "demo_uncached_http = demo_http\<lparr>parse_submit := (\<lambda>_. Some
     (submit_request demo_client demo_uncached (ToCommandLine False demo_cmd) demo_args))\<rparr>"

theorem uncached_never_submitted_witness:
  "\<exists>s'. SubmitComileTask (demo_client\<lparr>http_call := DaemonHttpCall_json (daemon_session demo_uncached_http ''error'')\<rparr>)
       demo_args demo_uncached demo_daemon = Some (Inr (None, s')) \<and>
     task_dispatcher s' = task_dispatcher demo_daemon"
proof -
  let ?env = "demo_client\<lparr>http_call := DaemonHttpCall_json (daemon_session demo_uncached_http ''error'')\<rparr>"
  have t: "talks_to demo_uncached_http ''error'' ?env"
    by (simp add: talks_to_def demo_client_def demo_http_def demo_uncached_http_def)
  have z: "TryRewriteFileWithCommandLine ?env demo_cmd 0 = Some (''src'', 0, [])"
    by (simp add: TryRewriteFileWithCommandLine_def demo_client_def)
  have c: "cloud_args demo_uncached demo_args = Inr demo_cmd"
    unfolding demo_uncached_def by code_simp
  have req: "submit_request ?env demo_uncached (ToCommandLine False demo_cmd) demo_args =
      submit_request demo_client demo_uncached (ToCommandLine False demo_cmd) demo_args"
    by (simp add: submit_request_def)
  then have j: "parse_submit demo_uncached_http (write_submit ?env (submit_request ?env demo_uncached (ToCommandLine False demo_cmd) demo_args)) =
      Some (submit_request ?env demo_uncached (ToCommandLine False demo_cmd) demo_args)"
    by (simp add: demo_uncached_http_def)
  have k: "chunkable [write_submit ?env (submit_request ?env demo_uncached (ToCommandLine False demo_cmd) demo_args), zstd_rewritten demo_uncached]"
    by (simp add: chunkable_def demo_client_def demo_uncached_def rewrite_result_def LONG_MAX_def)
  have "file_content ?env (ca_compiler demo_args) = Some ''a''" by (simp add: demo_client_def)
  from uncached_never_submitted[OF t z demo_uncached_def c j k this] show ?thesis .
qed

text \<open>
  Claim C9. A result reaches the client: once a task has completed with an exit code that is not
  negative, the next poll of the client receives its exit code, its outputs and its files, each
  decompressed under its suffix, and the daemon has forgotten the task.
\<close>

theorem client_reads_result:
  assumes "talks_to henv e env" and "output = RebuildOutput out" and "0 \<le> do_exit_code out"
    and "parse_wait henv (write_wait env \<lparr>wq_task_id = i, wq_ms_to_wait = 10000\<rparr>) = Some \<lparr>wq_task_id = i, wq_ms_to_wait = 10000\<rparr>"
    and "umap_find (loc_tasks (task_dispatcher s)) i = Some p"
    and "disp = dispatcher_others henv (task_dispatcher s)"
    and "ld_completion_event (loc_descs disp p)" and "ld_result (loc_descs disp p) = Some output"
    and "read_result env (wait_json henv (fst output)) = Some (fst output)"
    and "chunkable (wait_json henv (fst output) # map snd (do_output_files out))"
    and "map (\<lambda>(suffix, file). zstd_decompress env file) (do_output_files out) = map Some contents"
  shows "\<exists>s'. WaitForCloudCompileResult env i s = Some (Inr
      (\<lparr>cr_exit_code = do_exit_code out, cr_stdout = do_stdout out, cr_stderr = do_stderr out,
        output_files = zip (map fst (do_output_files out)) contents\<rparr>, s')) \<and>
    umap_find (loc_tasks (task_dispatcher s')) i = None"
proof -
  let ?body = "MakeMultiChunk (wait_json henv (fst output) # map snd (do_output_files out))"
  let ?disp = "disp\<lparr>loc_descs := (loc_descs disp)(p := (loc_descs disp p)\<lparr>ld_completion_event := False\<rparr>),
      loc_tasks := umap_erase i (loc_tasks disp)\<rparr>"
  have out: "fst output = \<lparr>cx_exit_code = do_exit_code out, cx_stdout = do_stdout out, cx_stderr = do_stderr out,
      file_extensions = map fst (do_output_files out)\<rparr>" "snd output = map snd (do_output_files out)"
    using assms(2,3) by (simp_all add: RebuildOutput_def)
  have poll: "poll env i s = (Some (200, ?body), s\<lparr>task_dispatcher := ?disp\<rparr>)"
    using assms(1,4,5,7,8) out(2)
    by (simp add: poll_def talks_to_def DaemonHttpCall_json_def caught_def daemon_session_def handleRequest_def route_simps
        HttpWaitForTask_def LocalWaitForTask_def Let_def assms(6)[symmetric] split_beta ms_def sec_def)
  have "TryParseMultiChunk ?body = Some (wait_json henv (fst output) # map snd (do_output_files out))"
    using daemon_body.dec_enc[of "wait_json henv (fst output) # map snd (do_output_files out)"] assms(10) by simp
  moreover have "length (do_output_files out) = length contents" using arg_cong[OF assms(11), of length] by simp
  ultimately have "read_response env ?body = Inr \<lparr>cr_exit_code = do_exit_code out, cr_stdout = do_stdout out,
      cr_stderr = do_stderr out, output_files = zip (map fst (do_output_files out)) contents\<rparr>"
    using assms(9,11) result_files_all[of "map fst (do_output_files out)" contents "zstd_decompress env" "map snd (do_output_files out)"]
    by (simp add: read_response_def out(1) comp_def split_def)
  then show ?thesis by (subst WaitForCloud_unfold) (simp add: poll lift_fault_def umap.look_del)
qed

definition demo_output :: DistOutput where
  "demo_output = \<lparr>do_exit_code = 0, do_stdout = ''ok'', do_stderr = [], do_extra_info = None, do_output_files = [(''.o'', ''elf'')]\<rparr>"

definition demo_daemon_done :: LocalDaemon where
  "demo_daemon_done = demo_daemon\<lparr>task_dispatcher := (task_dispatcher demo_daemon)\<lparr>loc_tasks := [(1, 0)],
     loc_descs := (\<lambda>_. (new_desc 1 empty_dist_task 0 0)\<lparr>ld_state := Done, ld_completion_event := True,
       ld_result := Some (RebuildOutput demo_output)\<rparr>)\<rparr>\<rparr>"

theorem client_reads_result_witness:
  "\<exists>s'. WaitForCloudCompileResult demo_client 1 demo_daemon_done = Some (Inr
      (\<lparr>cr_exit_code = 0, cr_stdout = ''ok'', cr_stderr = [], output_files = [(''.o'', ''elf'')]\<rparr>, s'))"
proof -
  have "0 \<le> do_exit_code demo_output" "umap_find (loc_tasks (task_dispatcher demo_daemon_done)) 1 = Some 0"
    "parse_wait demo_http (write_wait demo_client \<lparr>wq_task_id = 1, wq_ms_to_wait = 10000\<rparr>) = Some \<lparr>wq_task_id = 1, wq_ms_to_wait = 10000\<rparr>"
    "task_dispatcher demo_daemon_done = dispatcher_others demo_http (task_dispatcher demo_daemon_done)"
    "ld_completion_event (loc_descs (task_dispatcher demo_daemon_done) 0)"
    "ld_result (loc_descs (task_dispatcher demo_daemon_done) 0) = Some (RebuildOutput demo_output)"
    "read_result demo_client (wait_json demo_http (fst (RebuildOutput demo_output))) = Some (fst (RebuildOutput demo_output))"
    "chunkable (wait_json demo_http (fst (RebuildOutput demo_output)) # map snd (do_output_files demo_output))"
    "map (\<lambda>(suffix, file). zstd_decompress demo_client file) (do_output_files demo_output) = map Some [''elf'']"
    by (simp_all add: demo_output_def demo_daemon_done_def demo_http_def demo_client_def RebuildOutput_def umap_find_def
        chunkable_def LONG_MAX_def)
  from client_reads_result[OF demo_talks refl this(1,3,2,4-9)] show ?thesis by (auto simp: demo_output_def)
qed

text \<open>
  Claim C22. Quotas are given back: a client that talks to the daemon and holds no quota when it starts
  holds none when it ends, on every path: compiled natively, in the cloud, or after retries.
\<close>

theorem client_returns_quota:
  assumes "talks_to henv e env" and "getpid env \<notin> set (permissions_granted (task_monitor s))"
    and "Compile env compiler argv s = Some (Inr (oc, s'))"
  shows "getpid env \<notin> set (permissions_granted (task_monitor s'))"
  using monitor_quotas.Compile_free[OF assms(1), of s compiler argv] assms(2,3)
  by (simp add: has_permission_def keeps_inv_def)

theorem client_returns_quota_witness:
  "\<exists>oc s'. Compile demo_client (Inr ''/usr/bin/g++'') [''--version''] demo_daemon = Some (Inr (oc, s')) \<and>
     77 \<notin> set (permissions_granted (task_monitor s'))"
proof -
  have "parse_args [''--version''] = ([(''--version'', [])], [])"
    by (simp add: parse_args_simps kOneValueArguments_def)
  then obtain a0 where a0: "CompilerArgs_new [''--version''] = Inr a0" "ca_args a0 = [(''--version'', [])]"
    by (simp add: CompilerArgs_new_def)
  have "TryAcquireTaskQuota demo_client l t demo_daemon = (True, demo_daemon\<lparr>task_monitor :=
      (count_waiter l (TaskMonitor_new 2 8))\<lparr>permissions_granted := [77]\<rparr>\<rparr>)" for l t
    by (cases l; simp add: acquire_call[OF demo_talks] demo_pid WaitForNewTask_def monitor_admit_def may_enter_def
        count_waiter_def demo_daemon_def TaskMonitor_new_def Let_def word_less_nat_alt word_sless_alt)
  then have "AcquireTaskQuota demo_client l demo_daemon = Some (Inr ((), demo_daemon\<lparr>task_monitor :=
      (count_waiter l (TaskMonitor_new 2 8))\<lparr>permissions_granted := [77]\<rparr>\<rparr>))" for l
    by (subst AcquireTaskQuota_unfold) simp
  then obtain oc s' where run: "Compile demo_client (Inr ''/usr/bin/g++'') [''--version''] demo_daemon = Some (Inr (oc, s'))"
    by (simp add: Compile_def a0 lift_fault_def SetCompiler_def IsDistributable_def TryGet_def ret_def
        compile_on_native_using_quota_def compile_on_native_def)
  have "getpid demo_client \<notin> set (permissions_granted (task_monitor demo_daemon))"
    by (simp add: demo_daemon_def TaskMonitor_new_def Let_def)
  from client_returns_quota[OF demo_talks this run] run show ?thesis by (auto simp: demo_client_def)
qed

end
