(* ===== verification/Command.thy ===== *)
theory Command
  imports Client
begin

text \<open>
  \<open>client/common/command.cpp\<close>, \<open>common/io.h\<close> and \<open>daemon/cloud/excute.cpp\<close>: starting a child process
  with its standard streams on pipes, serving the pipes until they are closed, and waiting for the
  exit code.

  \<^item> A descriptor table maps descriptors to open files; the kernel hands out the lowest free one.
  \<^item> A system call on a pipe is interrupted, fails, or transfers some bytes; which of these happens is
    the \<open>sys_result\<close> list the definitions take. Reading takes from what the child has still to write.
    A write to a pipe nobody reads fails with \<open>EPIPE\<close>; the signal that goes with it is taken to be ignored.
  \<^item> A run of the event loop is driven by the list of what \<open>poll\<close> returns.
\<close>

section \<open>Definitions\<close>

subsection \<open>Descriptors\<close>

datatype open_file = PipeReader nat | PipeWriter nat | OtherFile nat

type_synonym fd_table = "(nat, open_file) umap"

definition lowest_fd :: "fd_table \<Rightarrow> nat" where
  "lowest_fd t = hd (filter (\<lambda>fd. umap_find t fd = None) [0..<Suc (length t)])"

definition open_fd :: "open_file \<Rightarrow> fd_table \<Rightarrow> nat \<times> fd_table" where
  "open_fd f t = (lowest_fd t, umap_set (lowest_fd t) f t)"

definition dup2 :: "nat \<Rightarrow> nat \<Rightarrow> fd_table \<Rightarrow> fd_table" where
  "dup2 old new t = (if old = new then t else case umap_find t old of None \<Rightarrow> t | Some f \<Rightarrow> umap_set new f t)"

definition close_fd :: "nat \<Rightarrow> fd_table \<Rightarrow> fd_table" where
  "close_fd fd t = umap_erase fd t"

text \<open>\<open>pipe2\<close> with no flags; the pipe gets the number \<open>k\<close>.\<close>

definition CreatePipe :: "nat \<Rightarrow> fd_table \<Rightarrow> (nat \<times> nat) \<times> fd_table" where
  "CreatePipe k t =
     (let (r, t1) = open_fd (PipeReader k) t; (w, t2) = open_fd (PipeWriter k) t1
      in ((r, w), t2))"

definition BuildArguments :: "RewrittenArgs \<Rightarrow> string list" where
  "BuildArguments command = rw_program command # rw_args command"

record ProgramStartupInfo =
  stdin_writer :: nat
  stdout_reader :: nat
  stderr_reader :: nat

text \<open>What the child is when it calls \<open>execve\<close>.\<close>

record ChildImage =
  ci_path :: string
  ci_argv :: "string list"
  ci_envs :: "string list"
  ci_fds :: fd_table

definition StartProgram ::
  "RewrittenArgs \<Rightarrow> string list \<Rightarrow> string list \<Rightarrow> fd_table \<Rightarrow> ProgramStartupInfo \<times> ChildImage \<times> fd_table" where
  "StartProgram command extra_envs environ t0 =
     (let ((stdin_r, stdin_w), t1) = CreatePipe 0 t0;
          ((stdout_r, stdout_w), t2) = CreatePipe 1 t1;
          ((stderr_r, stderr_w), t3) = CreatePipe 2 t2;
          envs = (if extra_envs \<noteq> [] then environ @ extra_envs else environ);
          child = fold close_fd [stdin_r, stdout_w, stderr_w, stdin_w, stdout_r, stderr_r]
                    (dup2 stderr_w 2 (dup2 stdout_w 1 (dup2 stdin_r 0 t3)));
          parent = fold close_fd [stdin_r, stdout_w, stderr_w] t3
      in (\<lparr>stdin_writer = stdin_w, stdout_reader = stdout_r, stderr_reader = stderr_r\<rparr>,
          \<lparr>ci_path = rw_program command, ci_argv = BuildArguments command, ci_envs = envs, ci_fds = child\<rparr>,
          parent))"

text \<open>\<open>cloud::StartProgram\<close>: the command runs in a shell, on three files the servant has opened.\<close>

definition cloud_StartProgram ::
  "string \<Rightarrow> nat \<Rightarrow> nat \<Rightarrow> nat \<Rightarrow> string list \<Rightarrow> fd_table \<Rightarrow> ChildImage" where
  "cloud_StartProgram cmd stdin_fd stdout_fd stderr_fd environ t =
     \<lparr>ci_path = ''/bin/sh'', ci_argv = [''sh'', ''-c'', cmd], ci_envs = environ,
      ci_fds = fold close_fd [3..<9999] (fold close_fd [stdin_fd, stdout_fd, stderr_fd]
                 (dup2 stderr_fd 2 (dup2 stdout_fd 1 (dup2 stdin_fd 0 t))))\<rparr>"

subsection \<open>Exit codes\<close>

datatype sys_errno = EINTR | EAGAIN | EPIPE | ECHILD

datatype wait_result = WaitFailed sys_errno | Waited nat

definition WEXITSTATUS :: "nat \<Rightarrow> nat" where
  "WEXITSTATUS status = drop_bit 8 (Bit_Operations.and status 65280)"

text \<open>
  The list has what the calls of \<open>waitpid\<close> return; at its end the caller still waits. The check of
  \<open>WIFEXITED\<close> only logs, and after a failed \<open>waitpid\<close> the status is what the variable happened to hold.
\<close>

fun GetChildExitCode :: "nat \<Rightarrow> wait_result list \<Rightarrow> nat option" where
  "GetChildExitCode garbage [] = None"
| "GetChildExitCode garbage (WaitFailed e # ws) =
     (if e = EINTR then GetChildExitCode garbage ws else Some (WEXITSTATUS garbage))"
| "GetChildExitCode garbage (Waited status # ws) = Some (WEXITSTATUS status)"

definition CompileOnNative :: "(string \<Rightarrow> string list \<Rightarrow> wait_result list) \<Rightarrow> nat \<Rightarrow> string \<Rightarrow> string list \<Rightarrow> nat option" where
  "CompileOnNative execvp garbage program argv = GetChildExitCode garbage (execvp program (program # argv))"

text \<open>The quota is released when the function returns.\<close>

definition CompileOnNativeUsingQuota ::
  "(string \<Rightarrow> string list \<Rightarrow> wait_result list) \<Rightarrow> nat \<Rightarrow> ('w \<Rightarrow> 'w) \<Rightarrow> string \<Rightarrow> string list \<Rightarrow> 'w \<Rightarrow> (nat \<times> 'w) option" where
  "CompileOnNativeUsingQuota execvp garbage release program argv w =
     map_option (\<lambda>code. (code, release w)) (CompileOnNative execvp garbage program argv)"

subsection \<open>Reading and writing\<close>

text \<open>\<open>Transferred n\<close>: at most \<open>n + 1\<close> bytes. At the end of the list, everything is transferred.\<close>

datatype sys_result = Transferred nat | Failed sys_errno

text \<open>A write of no bytes returns 0 and leaves \<open>errno\<close> as it is.\<close>

definition sys_write :: "sys_result list \<Rightarrow> sys_errno \<Rightarrow> string \<Rightarrow> int \<times> sys_errno \<times> sys_result list" where
  "sys_write results e buf =
     (if buf = [] then (0, e, tl results)
      else case results of
             [] \<Rightarrow> (int (length buf), e, [])
           | Transferred n # rs \<Rightarrow> (int (min (Suc n) (length buf)), e, rs)
           | Failed x # rs \<Rightarrow> (-1, x, rs))"

partial_function (option) WriteTo :: "sys_result list \<Rightarrow> sys_errno \<Rightarrow> string \<Rightarrow> nat \<Rightarrow> (int \<times> sys_errno) option" where
  "WriteTo results e buf start =
     (case sys_write results e (drop start buf) of
        (bytes, e', rs) \<Rightarrow>
          if bytes > 0 then Some (bytes, e')
          else if e' = EINTR then WriteTo rs e' buf start
          else if e' = EAGAIN then Some (0, e')
          else Some (-1, e'))"

text \<open>What \<open>read\<close> delivers: an error, or bytes (none at the end of the child's output).\<close>

fun ReadTo :: "sys_result list \<Rightarrow> sys_errno \<Rightarrow> string \<Rightarrow> nat \<Rightarrow> string option \<times> sys_errno" where
  "ReadTo [] e left bytes = (Some (take bytes left), e)"
| "ReadTo (Transferred n # rs) e left bytes = (Some (take (min (Suc n) bytes) left), e)"
| "ReadTo (Failed x # rs) e left bytes = (if x = EINTR then ReadTo rs x left bytes else (None, x))"

subsection \<open>The event loop\<close>

record 'o ProgramIO =
  io_errno :: sys_errno
  stdin_bytes :: u64
  stdout_bytes :: u64
  in_done :: bool
  out_done :: bool
  err_done :: bool
  standard_output :: 'o
  standard_error :: string
  child_in :: string
  child_out :: string
  child_err :: string

definition kIoBufferSize :: nat where
  "kIoBufferSize = 128 * 1024"

definition handle_stdin :: "string \<Rightarrow> sys_result list \<Rightarrow> 'o ProgramIO \<Rightarrow> 'o ProgramIO option" where
  "handle_stdin input rs s =
     (case WriteTo rs (io_errno s) input (unat (stdin_bytes s)) of
        None \<Rightarrow> None
      | Some (bytes, e) \<Rightarrow>
          Some (if bytes \<ge> 0
                then (let n = stdin_bytes s + word_of_int bytes
                      in s\<lparr>io_errno := e, stdin_bytes := n, in_done := (n = of_nat (length input)),
                           child_in := child_in s @ take (nat bytes) (drop (unat (stdin_bytes s)) input)\<rparr>)
                else s\<lparr>io_errno := e, in_done := True\<rparr>))"

definition handle_stdout :: "(string \<Rightarrow> 'o \<Rightarrow> 'o) \<Rightarrow> sys_result list \<Rightarrow> 'o ProgramIO \<Rightarrow> 'o ProgramIO" where
  "handle_stdout write rs s =
     (case ReadTo rs (io_errno s) (child_out s) kIoBufferSize of
        (Some buf, e) \<Rightarrow>
          if buf \<noteq> []
          then s\<lparr>io_errno := e, standard_output := write buf (standard_output s),
                 stdout_bytes := stdout_bytes s + of_nat (length buf), child_out := drop (length buf) (child_out s)\<rparr>
          else s\<lparr>io_errno := e, out_done := True\<rparr>
      | (None, e) \<Rightarrow> s\<lparr>io_errno := e, out_done := True\<rparr>)"

definition handle_stderr :: "sys_result list \<Rightarrow> 'o ProgramIO \<Rightarrow> 'o ProgramIO" where
  "handle_stderr rs s =
     (case ReadTo rs (io_errno s) (child_err s) kIoBufferSize of
        (Some buf, e) \<Rightarrow>
          if buf \<noteq> []
          then s\<lparr>io_errno := e, standard_error := standard_error s @ buf, child_err := drop (length buf) (child_err s)\<rparr>
          else s\<lparr>io_errno := e, err_done := True\<rparr>
      | (None, e) \<Rightarrow> s\<lparr>io_errno := e, err_done := True\<rparr>)"

text \<open>
  What \<open>poll\<close> returns: interrupted, failed, or for each descriptor whether it is ready and then the
  results of the calls on it. A descriptor that is done is not registered.
\<close>

datatype poll_result =
    PollInterrupted
  | PollFailed
  | PollReady "sys_result list option" "sys_result list option" "sys_result list option"

datatype io_end = IoReturned | IoWaiting | IoHung | IoAborted

definition handle_events ::
  "(string \<Rightarrow> 'o \<Rightarrow> 'o) \<Rightarrow> string \<Rightarrow> sys_result list option \<Rightarrow> sys_result list option \<Rightarrow> sys_result list option \<Rightarrow>
   'o ProgramIO \<Rightarrow> 'o ProgramIO option" where
  "handle_events write input i out err s =
     map_option (\<lambda>s1.
         let s2 = (case out of Some rs \<Rightarrow> if out_done s then s1 else handle_stdout write rs s1 | None \<Rightarrow> s1)
         in (case err of Some rs \<Rightarrow> if err_done s then s2 else handle_stderr rs s2 | None \<Rightarrow> s2))
       (case i of Some rs \<Rightarrow> if in_done s then Some s else handle_stdin input rs s | None \<Rightarrow> Some s)"

fun io_loop :: "(string \<Rightarrow> 'o \<Rightarrow> 'o) \<Rightarrow> string \<Rightarrow> poll_result list \<Rightarrow> 'o ProgramIO \<Rightarrow> io_end \<times> 'o ProgramIO" where
  "io_loop write input polls s =
     (if in_done s \<and> out_done s \<and> err_done s then (IoReturned, s)
      else case polls of
             [] \<Rightarrow> (IoWaiting, s)
           | PollInterrupted # ps \<Rightarrow> io_loop write input ps (s\<lparr>io_errno := EINTR\<rparr>)
           | PollFailed # ps \<Rightarrow> (IoAborted, s)
           | PollReady i out err # ps \<Rightarrow>
               (case handle_events write input i out err s of
                  None \<Rightarrow> (IoHung, s)
                | Some s' \<Rightarrow> io_loop write input ps s'))"

text \<open>
  The child as the parent sees it: what it writes, when \<open>poll\<close> returns, and what \<open>waitpid\<close> returns.
\<close>

record ChildRun =
  run_out :: string
  run_err :: string
  run_polls :: "poll_result list"
  run_waits :: "wait_result list"

definition io_start :: "sys_errno \<Rightarrow> ChildRun \<Rightarrow> 'o \<Rightarrow> 'o ProgramIO" where
  "io_start e child out =
     \<lparr>io_errno = e, stdin_bytes = 0, stdout_bytes = 0, in_done = False, out_done = False, err_done = False,
      standard_output = out, standard_error = [], child_in = [], child_out = run_out child, child_err = run_err child\<rparr>"

definition HandleProgramIO ::
  "(string \<Rightarrow> 'o \<Rightarrow> 'o) \<Rightarrow> sys_errno \<Rightarrow> ChildRun \<Rightarrow> string \<Rightarrow> 'o \<Rightarrow> io_end \<times> 'o ProgramIO" where
  "HandleProgramIO write e child input out = io_loop write input (run_polls child) (io_start e child out)"

text \<open>Exit code, standard output and standard error; \<open>None\<close> if the call does not return.\<close>

definition ExecuteCommand ::
  "(string \<Rightarrow> 'o \<Rightarrow> 'o) \<Rightarrow> (ChildImage \<Rightarrow> ChildRun) \<Rightarrow> string list \<Rightarrow> fd_table \<Rightarrow> sys_errno \<Rightarrow> nat \<Rightarrow>
   RewrittenArgs \<Rightarrow> string list \<Rightarrow> string \<Rightarrow> 'o \<Rightarrow> (fault + nat \<times> 'o \<times> string) option" where
  "ExecuteCommand write exec environ fds e garbage command extra_envs input out =
     (case StartProgram command extra_envs environ fds of
        (pinfo, img, fds') \<Rightarrow>
          (case HandleProgramIO write e (exec img) input out of
             (IoReturned, s) \<Rightarrow>
               map_option (\<lambda>code. Inr (code, standard_output s, standard_error s))
                 (GetChildExitCode garbage (run_waits (exec img)))
           | (IoAborted, s) \<Rightarrow> Some (Inl Aborted)
           | _ \<Rightarrow> None))"

declare io_loop.simps [simp del]

end
