(* ===== verification/Command_Props.thy ===== *)
theory Command_Props
  imports Command Client_Props
begin

text \<open>
  What the client can rely on when it runs a child process: the streams are wired to the child, every
  byte is passed on in order, the event loop comes to an end, and which exit codes are reported.
\<close>

section \<open>System calls\<close>

lemma WriteTo_step:
  assumes "start < length buf"
  shows "WriteTo [] e buf start = Some (int (length buf - start), e)"
    "WriteTo (Transferred n # rs) e buf start = Some (int (min (Suc n) (length buf - start)), e)"
    "WriteTo (Failed x # rs) e buf start =
       (if x = EINTR then WriteTo rs x buf start else Some (if x = EAGAIN then 0 else -1, x))"
  using assms by (subst WriteTo.simps; simp add: sys_write_def)+

lemma WriteTo_rest:
  assumes "start < length buf"
  shows "\<exists>e'. (\<exists>n \<le> length buf - start. WriteTo rs e buf start = Some (int n, e')) \<or> WriteTo rs e buf start = Some (-1, e')"
proof (induction rs arbitrary: e)
  case (Cons r rs)
  then show ?case using assms by (cases r) (auto simp: WriteTo_step intro: exI[of _ "0::nat"] exI[of _ "min (Suc n) m" for n m])
qed (use assms in \<open>auto simp: WriteTo_step\<close>)

text \<open>The results of calls that are at most interrupted.\<close>

definition reliable :: "sys_result list \<Rightarrow> bool" where
  "reliable rs \<longleftrightarrow> list_all (\<lambda>r. case r of Failed x \<Rightarrow> x = EINTR | Transferred n \<Rightarrow> True) rs"

lemma reliable_simps [simp]:
  "reliable []" "reliable (Transferred n # rs) \<longleftrightarrow> reliable rs" "reliable (Failed x # rs) \<longleftrightarrow> x = EINTR \<and> reliable rs"
  by (auto simp: reliable_def)

lemma WriteTo_reliable:
  assumes "start < length buf"
  shows "reliable rs \<Longrightarrow> \<exists>n e'. WriteTo rs e buf start = Some (int n, e') \<and> 0 < n \<and> n \<le> length buf - start"
proof (induction rs arbitrary: e)
  case (Cons r rs)
  then show ?case using assms by (cases r) (auto simp: WriteTo_step intro: exI[of _ "min (Suc n) m" for n m])
qed (use assms in \<open>auto simp: WriteTo_step intro: exI[of _ "length buf - start"]\<close>)

lemma WriteTo_empty:
  "e \<noteq> EINTR \<Longrightarrow> WriteTo rs e [] start = Some (if e = EAGAIN then 0 else -1, e)"
  by (subst WriteTo.simps) (simp add: sys_write_def)

lemma WriteTo_hangs: "WriteTo rs EINTR [] start = None"
proof -
  have "WriteTo rs e buf start = Some y \<Longrightarrow> e = EINTR \<longrightarrow> buf \<noteq> []" for rs e buf start y
    by (erule WriteTo.raw_induct[rotated, where P = "\<lambda>_ e buf _ _. e = EINTR \<longrightarrow> buf \<noteq> []"])
       (fastforce simp: sys_write_def split: if_splits)
  then show ?thesis by (metis not_None_eq)
qed

lemma ReadTo_result:
  "(\<exists>n e'. ReadTo rs e left bytes = (Some (take n left), e') \<and> n \<le> bytes \<and> (0 < bytes \<longrightarrow> 0 < n)) \<or>
   (\<exists>e'. ReadTo rs e left bytes = (None, e') \<and> \<not> reliable rs)"
  by (induction rs e left bytes rule: ReadTo.induct) (auto intro: exI[of _ "min (Suc n) m" for n m])

lemma ReadTo_cases:
  obtains n e' where "ReadTo rs e left bytes = (Some (take n left), e')" "n \<le> bytes" "0 < bytes \<Longrightarrow> 0 < n"
  | e' where "ReadTo rs e left bytes = (None, e')" "\<not> reliable rs"
  using ReadTo_result[of rs e left bytes] by blast

section \<open>The event loop\<close>

text \<open>Every byte is either passed on, in order, or still to come.\<close>

definition passes_on :: "(string \<Rightarrow> 'o \<Rightarrow> 'o) \<Rightarrow> string \<Rightarrow> string \<Rightarrow> string \<Rightarrow> 'o \<Rightarrow> 'o ProgramIO \<Rightarrow> bool" where
  "passes_on write input all_out all_err out0 s \<longleftrightarrow>
     (\<exists>chunks. standard_output s = fold write chunks out0 \<and> concat chunks @ child_out s = all_out \<and>
               list_all (\<lambda>c. c \<noteq> [] \<and> length c \<le> kIoBufferSize) chunks) \<and>
     standard_error s @ child_err s = all_err \<and>
     child_in s = take (unat (stdin_bytes s)) input \<and> unat (stdin_bytes s) \<le> length input \<and>
     (in_done s \<or> input = [] \<or> unat (stdin_bytes s) < length input)"

text \<open>Without a failed call, a stream is done only when all of it has been passed on.\<close>

definition delivered :: "string \<Rightarrow> 'o ProgramIO \<Rightarrow> bool" where
  "delivered input s \<longleftrightarrow>
     (in_done s \<longrightarrow> child_in s = input) \<and> (out_done s \<longrightarrow> child_out s = []) \<and> (err_done s \<longrightarrow> child_err s = [])"

definition io_work :: "string \<Rightarrow> 'o ProgramIO \<Rightarrow> nat" where
  "io_work input s = (length input - unat (stdin_bytes s)) + length (child_out s) + length (child_err s) +
     of_bool (\<not> in_done s) + of_bool (\<not> out_done s) + of_bool (\<not> err_done s)"

lemma done_flags [simp]:
  "in_done (handle_stdout write rs s) = in_done s" "err_done (handle_stdout write rs s) = err_done s"
  "in_done (handle_stderr rs s) = in_done s"
  by (auto simp: handle_stdout_def handle_stderr_def split: prod.split option.split)

lemma handle_events_in_done:
  assumes "handle_events write input i out err s = Some s'"
  shows "in_done s \<Longrightarrow> in_done s'"
    "i = Some rs \<Longrightarrow> \<not> in_done s \<Longrightarrow> handle_stdin input rs s = Some s1 \<Longrightarrow> in_done s' = in_done s1"
  using assms by (auto simp: handle_events_def Let_def split: option.splits if_splits)

lemma kIoBufferSize_pos [simp]: "0 < kIoBufferSize"
  by (simp add: kIoBufferSize_def)

lemma handle_stdout_step:
  assumes "passes_on write input oo ee o0 s" and "\<not> out_done s"
  shows "passes_on write input oo ee o0 (handle_stdout write rs s)"
    and "io_work input (handle_stdout write rs s) < io_work input s"
    and "reliable rs \<Longrightarrow> delivered input s \<Longrightarrow> delivered input (handle_stdout write rs s)"
proof -
  obtain chunks where c: "standard_output s = fold write chunks o0" "concat chunks @ child_out s = oo"
      "list_all (\<lambda>c. c \<noteq> [] \<and> length c \<le> kIoBufferSize) chunks"
    using assms(1) by (auto simp: passes_on_def)
  show "passes_on write input oo ee o0 (handle_stdout write rs s)"
  proof (cases rule: ReadTo_cases[of rs "io_errno s" "child_out s" kIoBufferSize])
    case (1 n e)
    have "\<exists>chunks. standard_output (handle_stdout write rs s) = fold write chunks o0 \<and>
        concat chunks @ child_out (handle_stdout write rs s) = oo \<and>
        list_all (\<lambda>c. c \<noteq> [] \<and> length c \<le> kIoBufferSize) chunks"
    proof (cases "take n (child_out s) = []")
      case True
      with 1 c show ?thesis by (auto simp: handle_stdout_def)
    next
      case False
      with 1 c show ?thesis
        by (intro exI[of _ "chunks @ [take n (child_out s)]"])
           (auto simp: handle_stdout_def min_def)
    qed
    with assms(1) 1 show ?thesis by (auto simp: passes_on_def handle_stdout_def)
  next
    case (2 e)
    with assms(1) show ?thesis by (auto simp: passes_on_def handle_stdout_def)
  qed
  show "io_work input (handle_stdout write rs s) < io_work input s"
    using assms(2)
    by (cases rule: ReadTo_cases[of rs "io_errno s" "child_out s" kIoBufferSize])
       (auto simp: handle_stdout_def io_work_def min_def)
  show "reliable rs \<Longrightarrow> delivered input s \<Longrightarrow> delivered input (handle_stdout write rs s)"
    using assms(2)
    by (cases rule: ReadTo_cases[of rs "io_errno s" "child_out s" kIoBufferSize])
       (auto simp: handle_stdout_def delivered_def)
qed

lemma handle_stderr_step:
  assumes "passes_on write input oo ee o0 s" and "\<not> err_done s"
  shows "passes_on write input oo ee o0 (handle_stderr rs s)"
    and "io_work input (handle_stderr rs s) < io_work input s"
    and "reliable rs \<Longrightarrow> delivered input s \<Longrightarrow> delivered input (handle_stderr rs s)"
proof -
  show "passes_on write input oo ee o0 (handle_stderr rs s)"
    using assms
    by (cases rule: ReadTo_cases[of rs "io_errno s" "child_err s" kIoBufferSize])
       (auto simp: handle_stderr_def passes_on_def min_def)
  show "io_work input (handle_stderr rs s) < io_work input s"
    using assms(2)
    by (cases rule: ReadTo_cases[of rs "io_errno s" "child_err s" kIoBufferSize])
       (auto simp: handle_stderr_def io_work_def min_def)
  show "reliable rs \<Longrightarrow> delivered input s \<Longrightarrow> delivered input (handle_stderr rs s)"
    using assms(2)
    by (cases rule: ReadTo_cases[of rs "io_errno s" "child_err s" kIoBufferSize])
       (auto simp: handle_stderr_def delivered_def)
qed

text \<open>Serving the input hangs only on an empty input with \<open>EINTR\<close> left in \<open>errno\<close>.\<close>

lemma handle_stdin_step:
  assumes inv: "passes_on write input oo ee o0 s" and "\<not> in_done s" and len: "length input < 2 ^ 64"
    and "input \<noteq> [] \<or> io_errno s \<noteq> EINTR"
  shows "\<exists>s'. handle_stdin input rs s = Some s' \<and> passes_on write input oo ee o0 s' \<and>
    out_done s' = out_done s \<and> err_done s' = err_done s \<and>
    (reliable rs \<longrightarrow> io_work input s' < io_work input s \<and> (delivered input s \<longrightarrow> delivered input s')) \<and>
    io_work input s' \<le> io_work input s"
proof (cases "input = []")
  case True
  with assms show ?thesis
    by (auto simp: handle_stdin_def WriteTo_empty passes_on_def io_work_def delivered_def Let_def unat_eq_zero)
next
  case False
  let ?n0 = "unat (stdin_bytes s)"
  have less: "?n0 < length input" using inv assms(2) False by (auto simp: passes_on_def)
  have add: "unat (stdin_bytes s + of_nat n) = ?n0 + n" if "n \<le> length input - ?n0" for n
    using that less len by (simp add: unat_word_ariths unat_of_nat)
  have eq: "stdin_bytes s + of_nat n = of_nat (length input) \<longleftrightarrow> ?n0 + n = length input" if "n \<le> length input - ?n0" for n
    using len add[OF that] by (simp add: word_unat_eq_iff unat_of_nat)
  have wrote: ?thesis if "WriteTo rs (io_errno s) input ?n0 = Some (int n, e)" "n \<le> length input - ?n0" "reliable rs \<Longrightarrow> 0 < n" for n e
    using that inv less assms(2)
    by (auto simp: handle_stdin_def Let_def passes_on_def io_work_def delivered_def add eq take_add)
  have failed: ?thesis if "WriteTo rs (io_errno s) input ?n0 = Some (-1, e)" "\<not> reliable rs" for e
    using that inv by (auto simp: handle_stdin_def passes_on_def io_work_def)
  show ?thesis
    using wrote failed WriteTo_rest[OF less, of rs "io_errno s"] WriteTo_reliable[OF less, of rs "io_errno s"] by (metis int_one_le_iff_zero_less)
qed

section \<open>Runs of the loop\<close>

text \<open>\<open>poll\<close> returns when a registered stream is ready.\<close>

fun serves_one :: "'o ProgramIO \<Rightarrow> poll_result \<Rightarrow> bool" where
  "serves_one s (PollReady i out err) \<longleftrightarrow>
     (i \<noteq> None \<and> \<not> in_done s) \<or> (out \<noteq> None \<and> \<not> out_done s) \<or> (err \<noteq> None \<and> \<not> err_done s)"
| "serves_one s r \<longleftrightarrow> False"

fun reliable_poll :: "poll_result \<Rightarrow> bool" where
  "reliable_poll (PollReady i out err) \<longleftrightarrow> pred_option reliable i \<and> pred_option reliable out \<and> pred_option reliable err"
| "reliable_poll PollInterrupted \<longleftrightarrow> True"
| "reliable_poll PollFailed \<longleftrightarrow> False"

lemma handle_events_step:
  assumes inv: "passes_on write input oo ee o0 s" and len: "length input < 2 ^ 64"
    and no_hang: "in_done s \<or> i = None \<or> input \<noteq> [] \<or> io_errno s \<noteq> EINTR"
  shows "\<exists>s'. handle_events write input i out err s = Some s' \<and> passes_on write input oo ee o0 s' \<and>
    (reliable_poll (PollReady i out err) \<longrightarrow>
       (serves_one s (PollReady i out err) \<longrightarrow> io_work input s' < io_work input s) \<and>
       (delivered input s \<longrightarrow> delivered input s'))"
proof -
  obtain s1 where s1: "(case i of Some rs \<Rightarrow> if in_done s then Some s else handle_stdin input rs s | None \<Rightarrow> Some s) = Some s1"
      "passes_on write input oo ee o0 s1" "out_done s1 = out_done s" "err_done s1 = err_done s" "io_work input s1 \<le> io_work input s"
      "pred_option reliable i \<longrightarrow> (i \<noteq> None \<and> \<not> in_done s \<longrightarrow> io_work input s1 < io_work input s) \<and> (delivered input s \<longrightarrow> delivered input s1)"
  proof (cases "i = None \<or> in_done s")
    case True
    then show ?thesis using that[of s] inv by (cases i) auto
  next
    case False
    then obtain rs where i: "i = Some rs" by (cases i) auto
    from handle_stdin_step[OF inv _ len, of rs] False no_hang obtain s' where
      "handle_stdin input rs s = Some s'" "passes_on write input oo ee o0 s'" "out_done s' = out_done s" "err_done s' = err_done s"
      "reliable rs \<longrightarrow> io_work input s' < io_work input s \<and> (delivered input s \<longrightarrow> delivered input s')"
      "io_work input s' \<le> io_work input s" by blast
    with that[of s'] False i show ?thesis by simp
  qed
  define s2 where "s2 = (case out of Some rs \<Rightarrow> if out_done s then s1 else handle_stdout write rs s1 | None \<Rightarrow> s1)"
  have s2: "passes_on write input oo ee o0 s2" "err_done s2 = err_done s" "io_work input s2 \<le> io_work input s1"
      "out \<noteq> None \<and> \<not> out_done s \<longrightarrow> io_work input s2 < io_work input s1"
      "pred_option reliable out \<longrightarrow> delivered input s1 \<longrightarrow> delivered input s2"
    using s1 handle_stdout_step[OF s1(2)] by (auto simp: s2_def order_less_imp_le split: option.split)
  define s3 where "s3 = (case err of Some rs \<Rightarrow> if err_done s then s2 else handle_stderr rs s2 | None \<Rightarrow> s2)"
  have s3: "passes_on write input oo ee o0 s3" "io_work input s3 \<le> io_work input s2"
      "err \<noteq> None \<and> \<not> err_done s \<longrightarrow> io_work input s3 < io_work input s2"
      "pred_option reliable err \<longrightarrow> delivered input s2 \<longrightarrow> delivered input s3"
    using s2 handle_stderr_step[OF s2(1)] by (auto simp: s3_def order_less_imp_le split: option.split)
  have "handle_events write input i out err s = Some s3"
    unfolding handle_events_def s1(1) s3_def s2_def by (simp add: Let_def)
  with s1 s2 s3 show ?thesis by auto
qed

lemma io_loop_done [simp]: "in_done s \<and> out_done s \<and> err_done s \<Longrightarrow> io_loop write input polls s = (IoReturned, s)"
  by (simp add: io_loop.simps)

lemma io_loop_step [simp]:
  assumes "\<not> (in_done s \<and> out_done s \<and> err_done s)"
  shows "io_loop write input [] s = (IoWaiting, s)"
    "io_loop write input (PollInterrupted # polls) s = io_loop write input polls (s\<lparr>io_errno := EINTR\<rparr>)"
    "io_loop write input (PollFailed # polls) s = (IoAborted, s)"
    "io_loop write input (PollReady i out err # polls) s =
       (case handle_events write input i out err s of None \<Rightarrow> (IoHung, s) | Some s' \<Rightarrow> io_loop write input polls s')"
  by (subst io_loop.simps, simp only: if_not_P[OF assms] list.case poll_result.case)+

lemma io_loop_passes_on:
  "passes_on write input oo ee o0 s \<Longrightarrow> length input < 2 ^ 64 \<Longrightarrow> io_loop write input polls s = (fin, s') \<Longrightarrow>
     passes_on write input oo ee o0 s' \<and>
     (fin = IoReturned \<longrightarrow> in_done s' \<and> out_done s' \<and> err_done s') \<and>
     (list_all reliable_poll polls \<longrightarrow> delivered input s \<longrightarrow> delivered input s')"
proof (induction polls arbitrary: s)
  case Nil
  then show ?case by (cases "in_done s \<and> out_done s \<and> err_done s") auto
next
  case (Cons p polls)
  have loop: "io_loop write input (p # polls) s = (fin, s')" by (rule Cons.prems(3))
  show ?case
  proof (cases "in_done s \<and> out_done s \<and> err_done s")
    case True
    with loop Cons.prems(1) show ?thesis by auto
  next
    case False
    show ?thesis
    proof (cases p)
      case PollInterrupted
      have "passes_on write input oo ee o0 (s\<lparr>io_errno := EINTR\<rparr>)" "delivered input (s\<lparr>io_errno := EINTR\<rparr>) = delivered input s"
        using Cons.prems(1) by (auto simp: passes_on_def delivered_def)
      with Cons.IH[of "s\<lparr>io_errno := EINTR\<rparr>"] Cons.prems(2) loop False PollInterrupted show ?thesis by simp
    next
      case PollFailed
      with loop False Cons.prems(1) show ?thesis by auto
    next
      case (PollReady i out err)
      show ?thesis
      proof (cases "handle_events write input i out err s")
        case None
        with PollReady loop False Cons.prems(1) show ?thesis by auto
      next
        case (Some s1)
        have "in_done s \<or> i = None \<or> input \<noteq> [] \<or> io_errno s \<noteq> EINTR"
          using Some by (auto simp: handle_events_def handle_stdin_def WriteTo_hangs split: if_splits option.splits)
        from handle_events_step[OF Cons.prems(1,2) this, of out err] Some
        have "passes_on write input oo ee o0 s1" "reliable_poll p \<longrightarrow> delivered input s \<longrightarrow> delivered input s1"
          by (auto simp: PollReady)
        with Cons.IH[of s1] Cons.prems(2) loop False PollReady Some show ?thesis by simp
      qed
    qed
  qed
qed

text \<open>Along the run, \<open>poll\<close> returns only when it is interrupted or a registered stream is ready.\<close>

fun polls_serve :: "(string \<Rightarrow> 'o \<Rightarrow> 'o) \<Rightarrow> string \<Rightarrow> poll_result list \<Rightarrow> 'o ProgramIO \<Rightarrow> bool" where
  "polls_serve write input [] s \<longleftrightarrow> True"
| "polls_serve write input (PollInterrupted # ps) s \<longleftrightarrow> polls_serve write input ps (s\<lparr>io_errno := EINTR\<rparr>)"
| "polls_serve write input (PollFailed # ps) s \<longleftrightarrow> False"
| "polls_serve write input (PollReady i out err # ps) s \<longleftrightarrow>
     in_done s \<and> out_done s \<and> err_done s \<or>
     serves_one s (PollReady i out err) \<and>
     (case handle_events write input i out err s of None \<Rightarrow> True | Some s' \<Rightarrow> polls_serve write input ps s')"

lemma io_loop_returns:
  "passes_on write input oo ee o0 s \<Longrightarrow> length input < 2 ^ 64 \<Longrightarrow> input \<noteq> [] \<or> in_done s \<Longrightarrow>
   list_all reliable_poll polls \<Longrightarrow> polls_serve write input polls s \<Longrightarrow>
   io_work input s \<le> length (filter (\<lambda>p. p \<noteq> PollInterrupted) polls) \<Longrightarrow>
   \<exists>s'. io_loop write input polls s = (IoReturned, s')"
proof (induction polls arbitrary: s)
  case Nil
  then show ?case by (auto simp: io_work_def)
next
  case (Cons p polls)
  show ?case
  proof (cases "in_done s \<and> out_done s \<and> err_done s")
    case False
    show ?thesis
    proof (cases p)
      case PollInterrupted
      have "passes_on write input oo ee o0 (s\<lparr>io_errno := EINTR\<rparr>)" "io_work input (s\<lparr>io_errno := EINTR\<rparr>) = io_work input s"
        using Cons.prems(1) by (auto simp: passes_on_def io_work_def)
      with Cons.IH[of "s\<lparr>io_errno := EINTR\<rparr>"] Cons.prems False PollInterrupted show ?thesis by simp
    next
      case PollFailed
      with Cons.prems show ?thesis by simp
    next
      case (PollReady i out err)
      from handle_events_step[OF Cons.prems(1,2), of i out err] Cons.prems(3,4) PollReady obtain s1 where
        s1: "handle_events write input i out err s = Some s1" "passes_on write input oo ee o0 s1"
          "serves_one s p \<longrightarrow> io_work input s1 < io_work input s" by auto
      note handle_events_in_done(1)[OF s1(1)]
      with s1 Cons.IH[of s1] Cons.prems False PollReady show ?thesis by auto
    qed
  qed auto
qed

lemma io_start_ok: "passes_on write input (run_out child) (run_err child) out (io_start e child out)" "delivered input (io_start e child out)"
  by (auto simp: passes_on_def delivered_def io_start_def intro: exI[of _ "[]"])

lemma io_work_start: "io_work input (io_start e child out) = length input + length (run_out child) + length (run_err child) + 3"
  by (simp add: io_work_def io_start_def)

text \<open>
  An empty input has to be done before \<open>errno\<close> is \<open>EINTR\<close>: its pipe is ready when the loop begins.
\<close>

definition input_ready :: "string \<Rightarrow> sys_errno \<Rightarrow> poll_result list \<Rightarrow> bool" where
  "input_ready input e polls \<longleftrightarrow>
     input \<noteq> [] \<or> e \<noteq> EINTR \<and> (case polls of PollReady (Some rs) out err # ps \<Rightarrow> True | _ \<Rightarrow> False)"

lemma input_readyE:
  assumes "input_ready [] e polls"
  obtains rs out err ps where "polls = PollReady (Some rs) out err # ps" "e \<noteq> EINTR"
  using assms by (auto simp: input_ready_def split: list.splits poll_result.splits option.splits)

lemma HandleProgramIO_returns:
  assumes "length input < 2 ^ 64" and "input_ready input e (run_polls child)"
    and "list_all reliable_poll (run_polls child)" and serve: "polls_serve write input (run_polls child) (io_start e child out)"
    and enough: "length input + length (run_out child) + length (run_err child) + 3 \<le>
      length (filter (\<lambda>p. p \<noteq> PollInterrupted) (run_polls child))"
  obtains s where "HandleProgramIO write e child input out = (IoReturned, s)"
proof (cases "input = []")
  case False
  have "\<exists>s'. io_loop write input (run_polls child) (io_start e child out) = (IoReturned, s')"
    by (rule io_loop_returns[OF io_start_ok(1) assms(1) _ assms(3) serve]) (use False enough in \<open>simp_all add: io_work_start\<close>)
  then show ?thesis using that by (auto simp: HandleProgramIO_def)
next
  case True
  let ?s = "io_start e child out"
  obtain rs o1 e1 ps where p: "run_polls child = PollReady (Some rs) o1 e1 # ps" "e \<noteq> EINTR"
    using assms(2) True by (auto elim: input_readyE)
  have "io_errno ?s \<noteq> EINTR" "\<not> in_done ?s" using p(2) by (simp_all add: io_start_def)
  with handle_events_step[OF io_start_ok(1) assms(1), of e child out "Some rs" "write" o1 e1] p(1) assms(3) True obtain s1 where
    s1: "handle_events write input (Some rs) o1 e1 ?s = Some s1" "passes_on write input (run_out child) (run_err child) out s1"
      "io_work input s1 < io_work input ?s" "delivered input s1" using io_start_ok(2) by fastforce
  have "\<exists>s'. handle_stdin input rs ?s = Some s' \<and> in_done s'"
    using p(2) True by (auto simp: handle_stdin_def WriteTo_empty io_start_def Let_def)
  with handle_events_in_done(2)[OF s1(1) refl] have "in_done s1" by (auto simp: io_start_def)
  with io_loop_returns[OF s1(2) assms(1)] s1 p(1) assms(3) serve enough io_work_start[of input e child out]
  have "\<exists>s'. io_loop write input ps s1 = (IoReturned, s')" by (auto simp: io_start_def)
  then show ?thesis using that p(1) s1(1) by (auto simp: HandleProgramIO_def io_start_def)
qed

section \<open>Exit codes and descriptors\<close>

lemma WEXITSTATUS_div: "WEXITSTATUS st = (st div 256) mod 256"
proof -
  have "WEXITSTATUS st = take_bit 8 (drop_bit 8 st)"
  proof (rule bit_eqI)
    fix n
    have "(65280::nat) = push_bit 8 (mask 8)" by (simp add: mask_eq_exp_minus_1 push_bit_eq_mult)
    then have "bit (65280::nat) (8 + n) \<longleftrightarrow> n < 8" by (simp only: bit_push_bit_iff bit_mask_iff) simp
    then show "bit (WEXITSTATUS st) n = bit (take_bit 8 (drop_bit 8 st)) n"
      by (simp only: WEXITSTATUS_def bit_drop_bit_eq bit_and_iff bit_take_bit_iff o_def) auto
  qed
  then show ?thesis by (simp add: take_bit_eq_mod drop_bit_eq_div)
qed

lemma GetChildExitCode_intr: "GetChildExitCode g (replicate k (WaitFailed EINTR) @ ws) = GetChildExitCode g ws"
  by (induction k) auto

lemma close_fd_eq: "close_fd = umap_erase"
  by (intro ext) (simp add: close_fd_def)

lemma lowest_fd_free: "umap_find t (lowest_fd t) = None"
proof -
  have "\<not> {0..<Suc (length t)} \<subseteq> fst ` set t"
    using card_mono[of "fst ` set t" "{0..<Suc (length t)}"] card_image_le[of "set t" fst] card_length[of t]
    by (auto simp del: atLeast0_lessThan_Suc)
  then obtain i where "i < Suc (length t)" "umap_find t i = None"
    by (auto simp: umap_find_def map_of_eq_None_iff subset_iff simp del: atLeast0_lessThan_Suc)
  then have "filter (\<lambda>fd. umap_find t fd = None) [0..<Suc (length t)] \<noteq> []"
    by (auto simp: filter_empty_conv simp del: upt_Suc)
  from hd_in_set[OF this] show ?thesis by (auto simp: lowest_fd_def simp del: upt_Suc)
qed

lemma umap_find_dup2:
  "umap_find (dup2 old new t) fd = (if fd = new \<and> umap_find t old \<noteq> None then umap_find t old else umap_find t fd)"
  by (auto simp: dup2_def umap.look_put split: option.splits)

lemma umap_find_closed: "umap_find (fold close_fd fds t) fd = (if fd \<in> set fds then None else umap_find t fd)"
  by (simp add: close_fd_eq umap.look_fold_del)

lemma CreatePipe_new:
  assumes "CreatePipe k t = ((r, w), t')"
  shows "r \<noteq> w" "umap_find t r = None" "umap_find t w = None"
    "umap_find t' fd = (if fd = w then Some (PipeWriter k) else if fd = r then Some (PipeReader k) else umap_find t fd)"
proof -
  from assms have rw: "r = lowest_fd t" "w = lowest_fd (umap_set r (PipeReader k) t)"
    "t' = umap_set w (PipeWriter k) (umap_set r (PipeReader k) t)" by (auto simp: CreatePipe_def open_fd_def Let_def)
  show "umap_find t r = None" using lowest_fd_free rw(1) by simp
  have "umap_find (umap_set r (PipeReader k) t) w = None" using lowest_fd_free rw(2) by simp
  then show "r \<noteq> w" "umap_find t w = None" by (auto simp: umap.look_put split: if_splits)
  show "umap_find t' fd = (if fd = w then Some (PipeWriter k) else if fd = r then Some (PipeReader k) else umap_find t fd)"
    by (simp add: rw(3) umap.look_put)
qed

lemma ExecuteCommand_child:
  assumes "child = exec (fst (snd (StartProgram command extra_envs environ fds)))"
  shows "ExecuteCommand write exec environ fds e garbage command extra_envs input out =
    (case HandleProgramIO write e child input out of
       (IoReturned, s) \<Rightarrow>
         map_option (\<lambda>code. Inr (code, standard_output s, standard_error s)) (GetChildExitCode garbage (run_waits child))
     | (IoAborted, s) \<Rightarrow> Some (Inl Aborted)
     | _ \<Rightarrow> None)"
  unfolding assms ExecuteCommand_def by (simp add: split_beta)

lemma StartProgram_parts:
  assumes "StartProgram command extra_envs environ t = (pinfo, img, t')"
    and "CreatePipe 0 t = ((ir, iw), t1)" "CreatePipe 1 t1 = ((r, w), t2)" "CreatePipe 2 t2 = ((er, ew), t3)"
  shows "pinfo = \<lparr>stdin_writer = iw, stdout_reader = r, stderr_reader = er\<rparr>"
      "ci_fds img = fold close_fd [ir, w, ew, iw, r, er] (dup2 ew 2 (dup2 w 1 (dup2 ir 0 t3)))"
      "t' = fold close_fd [ir, w, ew] t3" "ci_path img = rw_program command" "ci_argv img = BuildArguments command"
      "ci_envs img = environ @ extra_envs"
  using assms by (auto simp: StartProgram_def Let_def)

section \<open>Properties\<close>

text \<open>
  \<open>ExecuteCommand\<close> comes to an end and loses nothing: when \<open>poll\<close> returns only for a registered
  stream that is ready, calls are at most interrupted, and the process has been served often enough (a
  byte at a time at worst), then the output stream has received exactly what the child wrote, in order,
  in pieces that fit the buffer, the error string is what the child wrote to it, and the exit code is
  the one \<open>waitpid\<close> reports, however often that is interrupted.
\<close>

lemma execute_command_completes:
  assumes child: "child = exec (fst (snd (StartProgram command extra_envs environ fds)))"
    and "length input < 2 ^ 64" and "input_ready input e (run_polls child)"
    and rel: "list_all reliable_poll (run_polls child)" and "polls_serve write input (run_polls child) (io_start e child out)"
    and "length input + length (run_out child) + length (run_err child) + 3 \<le>
      length (filter (\<lambda>p. p \<noteq> PollInterrupted) (run_polls child))"
    and waits: "run_waits child = replicate k (WaitFailed EINTR) @ [Waited status]"
  shows "\<exists>chunks. concat chunks = run_out child \<and> list_all (\<lambda>c. c \<noteq> [] \<and> length c \<le> kIoBufferSize) chunks \<and>
    ExecuteCommand write exec environ fds e garbage command extra_envs input out =
      Some (Inr (WEXITSTATUS status, fold write chunks out, run_err child))"
proof -
  obtain s where s: "HandleProgramIO write e child input out = (IoReturned, s)"
    by (rule HandleProgramIO_returns[OF assms(2-6)])
  have "passes_on write input (run_out child) (run_err child) out s" "delivered input s" "out_done s \<and> err_done s"
    using io_loop_passes_on[OF io_start_ok(1) assms(2) s[unfolded HandleProgramIO_def]] rel by (auto simp: io_start_ok(2))
  then obtain chunks where "standard_output s = fold write chunks out" "concat chunks = run_out child"
    "list_all (\<lambda>c. c \<noteq> [] \<and> length c \<le> kIoBufferSize) chunks" "standard_error s = run_err child"
    by (auto simp: passes_on_def delivered_def)
  then show ?thesis
    using s waits by (intro exI[of _ chunks]) (simp add: ExecuteCommand_child[of child exec, OF child] GetChildExitCode_intr)
qed

text \<open>
  A preprocessor that writes \<open>int\<close> and \<open> x\<close>, is read in two pieces with an interruption between them, and
  is then killed.
\<close>

definition killed_run :: ChildRun where
  "killed_run =
     \<lparr>run_out = ''int x'', run_err = [],
      run_polls = [PollReady (Some []) None None, PollReady None (Some [Failed EINTR, Transferred 2]) None, PollInterrupted,
                   PollReady None (Some []) None, PollReady None (Some []) (Some []), PollReady None None None, PollReady None None None,
                   PollReady None None None, PollReady None None None],
      run_waits = [WaitFailed EINTR, Waited 9]\<rparr>"

definition preprocess :: RewrittenArgs where
  "preprocess = \<lparr>rw_program = ''/usr/bin/g++'', rw_args = [''-E'', ''a.cc'']\<rparr>"

lemma killed_run_serves:
  "polls_serve (\<lambda>c out. out @ c) [] (run_polls killed_run) (io_start EAGAIN killed_run [])"
  by (simp add: killed_run_def io_start_def handle_events_def handle_stdin_def handle_stdout_def handle_stderr_def
      WriteTo_empty kIoBufferSize_def Let_def)

lemma killed_run_result:
  "ExecuteCommand (\<lambda>c out. out @ c) (\<lambda>_. killed_run) [] [] EAGAIN 0 preprocess [] [] [] = Some (Inr (0, ''int x'', []))"
proof -
  have "\<exists>chunks. concat chunks = run_out killed_run \<and> list_all (\<lambda>c. c \<noteq> [] \<and> length c \<le> kIoBufferSize) chunks \<and>
      ExecuteCommand (\<lambda>c out. out @ c) (\<lambda>_. killed_run) [] [] EAGAIN 0 preprocess [] [] [] =
        Some (Inr (WEXITSTATUS 9, fold (\<lambda>c out. out @ c) chunks [], run_err killed_run))"
    by (rule execute_command_completes[OF refl _ _ _ killed_run_serves, where k = 1])
       (simp_all add: input_ready_def killed_run_def)
  moreover have "fold (\<lambda>c out. out @ c) chunks acc = acc @ concat chunks" for chunks :: "string list" and acc :: string
    by (induction chunks arbitrary: acc) auto
  ultimately show ?thesis by (auto simp: killed_run_def WEXITSTATUS_div)
qed

text \<open>
  An empty input (the preprocessor always gets one) makes \<open>ExecuteCommand\<close> hang when \<open>errno\<close>
  happens to be \<open>EINTR\<close>: the write of no bytes returns 0 without touching \<open>errno\<close>, and \<open>WriteTo\<close> retries it
  forever, whatever the child does.
\<close>

theorem empty_input_hangs:
  assumes "run_polls (exec (fst (snd (StartProgram command extra_envs environ fds)))) =
    replicate k PollInterrupted @ PollReady (Some rs) o1 e1 # ps"
    and "e = EINTR \<or> 0 < k"
  shows "ExecuteCommand write exec environ fds e garbage command extra_envs [] out = None"
proof -
  let ?child = "exec (fst (snd (StartProgram command extra_envs environ fds)))"
  have loop: "fst (io_loop write [] (replicate k PollInterrupted @ PollReady (Some rs) o1 e1 # ps) s) = IoHung"
    if "io_errno s = EINTR \<or> 0 < k" "\<not> in_done s" for k s
    using that
  proof (induction k arbitrary: s)
    case 0
    then show ?case by (simp add: handle_events_def handle_stdin_def WriteTo_hangs)
  next
    case (Suc k)
    from Suc.IH[of "s\<lparr>io_errno := EINTR\<rparr>"] Suc.prems show ?case by simp
  qed
  have "fst (HandleProgramIO write e ?child [] out) = IoHung"
    unfolding HandleProgramIO_def assms(1) using assms(2) by (intro loop) (auto simp: io_start_def)
  then show ?thesis by (cases "HandleProgramIO write e ?child [] out") (simp add: ExecuteCommand_child[OF refl])
qed

theorem empty_input_hangs_witness:
  "ExecuteCommand (\<lambda>c out. out @ c) (\<lambda>_. killed_run) [] [] EINTR 0 preprocess [] [] [] = None"
  by (rule empty_input_hangs[of _ _ _ _ _ 0]) (simp_all add: killed_run_def)

text \<open>
  Claim C40. A compiler that is killed looks like one that succeeded: if the arguments are not for the
  cloud and the native compiler is killed by a signal (with or without a core dump), the client exits
  with 0, once it has got its quota.
\<close>

theorem killed_compiler_succeeds:
  assumes args: "CompilerArgs_new argv = Inr a0" "\<not> IsDistributable (SetCompiler path a0)"
    and quota: "quota_granted env (IsLightweight (SetCompiler path a0))"
    and native: "CompileOnNative execvp garbage path argv = Some code" "native env path argv = int code"
    and killed: "execvp path (path # argv) = replicate k (WaitFailed EINTR) @ [Waited sig]" "sig < 256"
  shows "\<exists>oc w'. Compile env (Inr path) argv w = Some (Inr (oc, w')) \<and> oc_exit_code oc = 0"
proof -
  have "code = 0" using native(1) killed by (simp add: CompileOnNative_def GetChildExitCode_intr WEXITSTATUS_div)
  moreover have "ca_compiler (SetCompiler path a0) = path" by (simp add: SetCompiler_def)
  moreover obtain w' where "AcquireTaskQuota env (IsLightweight (SetCompiler path a0)) w = Some (Inr ((), w'))"
  proof -
    from quota obtain n where "fst (TryAcquireTaskQuota env (IsLightweight (SetCompiler path a0)) 10
        (((\<lambda>w. snd (TryAcquireTaskQuota env (IsLightweight (SetCompiler path a0)) 10 w)) ^^ n) w))"
      unfolding quota_granted_def by blast
    from AcquireTaskQuota_attempts[OF this] show ?thesis using that by blast
  qed
  moreover have "Compile env (Inr path) argv w = compile_on_native_using_quota env (SetCompiler path a0) argv w"
    using args by (simp add: Compile_def lift_fault_def ret_def)
  ultimately show ?thesis
    using native(2) by (simp add: compile_on_native_using_quota_def compile_on_native_def ret_def native_outcome_def)
qed

theorem killed_compiler_succeeds_witness:
  "\<exists>oc w'. Compile (plain_env\<lparr>native := \<lambda>_ _. 0\<rparr>) (Inr ''/usr/bin/g++'') [''a.cc''] () = Some (Inr (oc, w')) \<and> oc_exit_code oc = 0"
proof -
  have "parse_args [''a.cc''] = ([], [''a.cc''])" by (simp add: parse_args_simps kOneValueArguments_def)
  then obtain a0 where a0: "CompilerArgs_new [''a.cc''] = Inr a0" "ca_args a0 = []" "ca_filenames a0 = [''a.cc'']"
    by (simp add: CompilerArgs_new_def)
  have "\<not> IsDistributable (SetCompiler ''/usr/bin/g++'' a0)"
    by (simp add: IsDistributable_def SetCompiler_def TryGet_def a0)
  moreover have "quota_granted (plain_env\<lparr>native := \<lambda>_ _. 0\<rparr>) l" for l
    unfolding quota_granted_def by (intro allI exI[of _ 0]) (simp add: TryAcquireTaskQuota_def plain_env_def)
  ultimately show ?thesis
    by (intro killed_compiler_succeeds[OF a0(1), where execvp = "\<lambda>_ _. [Waited 11]" and sig = 11 and k = 0 and code = 0])
       (simp_all add: CompileOnNative_def WEXITSTATUS_div)
qed

text \<open>
  Claim C29. \<open>StartProgram\<close> wires the child: if the client has its own standard streams open, the child's
  descriptors 0, 1 and 2 are the ends of the three pipes and all others are those the client had; the
  client keeps the opposite ends and is otherwise unchanged; the child runs the program on the rewritten
  arguments, with the extra variables after the inherited ones.
\<close>

theorem start_program_wiring:
  assumes "StartProgram command extra_envs environ t = (pinfo, img, t')"
    and "\<And>fd. fd < 3 \<Longrightarrow> umap_find t fd \<noteq> None"
  shows "umap_find (ci_fds img) 0 = Some (PipeReader 0) \<and> umap_find (ci_fds img) 1 = Some (PipeWriter 1) \<and>
    umap_find (ci_fds img) 2 = Some (PipeWriter 2) \<and>
    (\<forall>fd \<ge> 3. umap_find (ci_fds img) fd = umap_find t fd) \<and>
    umap_find t' (stdin_writer pinfo) = Some (PipeWriter 0) \<and> umap_find t' (stdout_reader pinfo) = Some (PipeReader 1) \<and>
    umap_find t' (stderr_reader pinfo) = Some (PipeReader 2) \<and>
    (\<forall>fd. fd \<notin> {stdin_writer pinfo, stdout_reader pinfo, stderr_reader pinfo} \<longrightarrow> umap_find t' fd = umap_find t fd) \<and>
    ci_path img = rw_program command \<and> ci_argv img = rw_program command # rw_args command \<and> ci_envs img = environ @ extra_envs"
proof -
  obtain ir iw t1 where p0: "CreatePipe 0 t = ((ir, iw), t1)" by (metis surj_pair)
  obtain r w t2 where p1: "CreatePipe 1 t1 = ((r, w), t2)" by (metis surj_pair)
  obtain er ew t3 where p2: "CreatePipe 2 t2 = ((er, ew), t3)" by (metis surj_pair)
  note new = CreatePipe_new[OF p0] CreatePipe_new[OF p1] CreatePipe_new[OF p2]
  have high: "3 \<le> ir \<and> 3 \<le> iw \<and> 3 \<le> r \<and> 3 \<le> w \<and> 3 \<le> er \<and> 3 \<le> ew"
    using assms(2) new by (metis not_le option.distinct(1))
  have diff: "distinct [ir, iw, r, w, er, ew]" using new by (auto split: if_splits)
  note parts = StartProgram_parts[OF assms(1) p0 p1 p2]
  have t3: "umap_find t3 fd = (if fd \<in> {ir, iw, r, w, er, ew} then umap_find t3 fd else umap_find t fd)" for fd
    using new by simp
  have ends: "umap_find t3 ir = Some (PipeReader 0)" "umap_find t3 iw = Some (PipeWriter 0)" "umap_find t3 r = Some (PipeReader 1)"
      "umap_find t3 w = Some (PipeWriter 1)" "umap_find t3 er = Some (PipeReader 2)" "umap_find t3 ew = Some (PipeWriter 2)"
    using new diff by auto
  have old: "umap_find t ir = None" "umap_find t iw = None" "umap_find t r = None" "umap_find t w = None"
      "umap_find t er = None" "umap_find t ew = None" using new diff by (auto split: if_splits)
  have child: "umap_find (ci_fds img) fd = (if fd = 0 then Some (PipeReader 0) else if fd = 1 then Some (PipeWriter 1)
      else if fd = 2 then Some (PipeWriter 2) else umap_find t fd)" for fd
    using high ends old t3[of fd] unfolding parts(2) umap_find_closed umap_find_dup2 by auto
  have parent: "umap_find t' fd = (if fd \<in> {ir, w, ew} then None else umap_find t3 fd)" for fd
    unfolding parts(3) umap_find_closed by simp
  have "umap_find t' fd = umap_find t fd" if "fd \<notin> {iw, r, er}" for fd
    using that old t3[of fd] unfolding parent by auto
  moreover have "umap_find t' iw = Some (PipeWriter 0)" "umap_find t' r = Some (PipeReader 1)" "umap_find t' er = Some (PipeReader 2)"
    using ends diff unfolding parent by auto
  ultimately show ?thesis using child by (simp add: parts(1,4-6) BuildArguments_def)
qed

definition std_fds :: fd_table where
  "std_fds = [(0, OtherFile 0), (1, OtherFile 0), (2, OtherFile 0)]"

theorem start_program_wiring_witness:
  "\<exists>pinfo img t'. StartProgram preprocess [''A=1''] [''B=2''] std_fds = (pinfo, img, t') \<and>
     umap_find (ci_fds img) 0 = Some (PipeReader 0) \<and> umap_find t' (stdin_writer pinfo) = Some (PipeWriter 0) \<and>
     ci_envs img = [''B=2'', ''A=1'']"
proof -
  obtain pinfo img t' where run: "StartProgram preprocess [''A=1''] [''B=2''] std_fds = (pinfo, img, t')" by (metis surj_pair)
  have "umap_find std_fds fd \<noteq> None" if "fd < 3" for fd
    using that by (auto simp: std_fds_def umap_find_def)
  from start_program_wiring[OF run this] run show ?thesis by simp
qed

text \<open>A client whose standard input is closed starts children without standard input.\<close>

lemma closed_stdin_lost:
  assumes "StartProgram command extra_envs environ t = (pinfo, img, t')" and "umap_find t 0 = None"
  shows "umap_find (ci_fds img) 0 = None"
proof -
  obtain ir iw t1 where p0: "CreatePipe 0 t = ((ir, iw), t1)" by (metis surj_pair)
  have "lowest_fd t = 0" using assms(2) by (simp add: lowest_fd_def upt_rec[of 0] del: upt_Suc)
  then have "ir = 0" using p0 by (auto simp: CreatePipe_def open_fd_def Let_def)
  moreover obtain r w t2 er ew t3 where "CreatePipe 1 t1 = ((r, w), t2)" "CreatePipe 2 t2 = ((er, ew), t3)" by (metis surj_pair)
  note StartProgram_parts(2)[OF assms(1) p0 this]
  ultimately show ?thesis by (simp only: umap_find_closed) simp
qed

text \<open>
  The compiler the servant starts has the three given files as its standard streams, runs the
  command line in a shell, and inherits no other descriptor below 9999.
\<close>

theorem servant_child_wiring:
  assumes "umap_find t i = Some f0" "umap_find t j = Some f1" "umap_find t k = Some f2" and "3 \<le> i" "3 \<le> j" "3 \<le> k"
  shows "let img = cloud_StartProgram cmd i j k environ t in
    umap_find (ci_fds img) 0 = Some f0 \<and> umap_find (ci_fds img) 1 = Some f1 \<and> umap_find (ci_fds img) 2 = Some f2 \<and>
    (\<forall>fd. 3 \<le> fd \<and> fd < 9999 \<longrightarrow> umap_find (ci_fds img) fd = None) \<and> ci_argv img = [''sh'', ''-c'', cmd]"
proof -
  let ?t = "dup2 k 2 (dup2 j 1 (dup2 i 0 t))"
  have eq: "ci_fds (cloud_StartProgram cmd i j k environ t) = fold close_fd ([i, j, k] @ [3..<9999]) ?t"
    by (simp only: cloud_StartProgram_def ChildImage.simps fold_append o_apply)
  have fds: "umap_find (ci_fds (cloud_StartProgram cmd i j k environ t)) fd =
      (if fd \<in> {i, j, k} \<or> fd \<in> {3..<9999} then None else umap_find ?t fd)" for fd
    unfolding eq umap_find_closed set_append set_upt by simp
  have "umap_find ?t 0 = Some f0" "umap_find ?t 1 = Some f1" "umap_find ?t 2 = Some f2"
    using assms by (simp_all add: umap_find_dup2)
  moreover have "ci_argv (cloud_StartProgram cmd i j k environ t) = [''sh'', ''-c'', cmd]"
    by (simp only: cloud_StartProgram_def ChildImage.simps)
  ultimately show ?thesis using assms(4-6) unfolding Let_def fds by auto
qed

theorem servant_child_wiring_witness:
  "umap_find (ci_fds (cloud_StartProgram ''g++'' 3 4 5 [] [(3, OtherFile 7), (4, OtherFile 8), (5, OtherFile 9)])) 1 = Some (OtherFile 8)"
  using servant_child_wiring[of "[(3, OtherFile 7), (4, OtherFile 8), (5, OtherFile 9)]" 3 "OtherFile 7" 4 "OtherFile 8" 5 "OtherFile 9" "''g++''" "[]"]
  unfolding Let_def by (simp only: umap_find_def) simp

end
