(* ===== verification/OutStream.thy ===== *)
theory OutStream
  imports Tokens
begin

text \<open>
  \<open>client/common/out_stream.cpp\<close>: the streams that take the preprocessor's output, one that compresses
  it into a list of chunks and one that hashes it, and the stream that forwards to several.

  \<open>ZSTD_compressStream2\<close> is a parameter: from the context, the input left, the space in the output buffer
  and whether the frame is to end, it gives the number of bytes consumed, the bytes produced, its return
  value and the new context. BLAKE3 hashes the concatenation of what it was given. A \<open>Write\<close> that loops
  forever is \<open>None\<close>; using a stream whose chunks are gone is a fault.
\<close>

section \<open>Definitions\<close>

type_synonym 'z compressor = "'z \<Rightarrow> string \<Rightarrow> nat \<Rightarrow> bool \<Rightarrow> nat \<times> string \<times> nat \<times> 'z"

definition TransparentOutStream_Write :: "string \<Rightarrow> string \<Rightarrow> string" where
  "TransparentOutStream_Write buf m_buffer = m_buffer @ buf"

subsection \<open>Compressing\<close>

definition kChunkSize :: nat where
  "kChunkSize = 128 * 1024"

text \<open>Of a chunk, the bytes in use.\<close>

record 'z ZstdOutStream =
  zs_ctx :: 'z
  chunks :: "string list"

definition ZstdOutStream_new :: "'z \<Rightarrow> 'z ZstdOutStream" where
  "ZstdOutStream_new ctx = \<lparr>zs_ctx = ctx, chunks = [[]]\<rparr>"

definition with_room :: "string list \<Rightarrow> string list" where
  "with_room cs = (if length (last cs) = kChunkSize then cs @ [[]] else cs)"

text \<open>One turn of either loop: allocate a chunk if the last is full, and compress into the rest of it.\<close>

definition compress_into ::
  "'z compressor \<Rightarrow> string \<Rightarrow> bool \<Rightarrow> 'z ZstdOutStream \<Rightarrow> nat \<times> nat \<times> 'z ZstdOutStream" where
  "compress_into zstd buf fin s =
     (let cs = with_room (chunks s);
          (n, out, result, ctx) = zstd (zs_ctx s) buf (kChunkSize - length (last cs)) fin
      in (n, result, \<lparr>zs_ctx = ctx, chunks = butlast cs @ [last cs @ out]\<rparr>))"

partial_function (option) ZstdOutStream_Write ::
  "'z compressor \<Rightarrow> string \<Rightarrow> 'z ZstdOutStream \<Rightarrow> (fault + 'z ZstdOutStream) option" where
  "ZstdOutStream_Write zstd buf s =
     (if buf = [] then Some (Inr s)
      else if chunks s = [] then Some (Inl NullPointer)
      else case compress_into zstd buf False s of
             (n, result, s') \<Rightarrow> ZstdOutStream_Write zstd (drop n buf) s')"

partial_function (option) ZstdOutStream_Flush ::
  "'z compressor \<Rightarrow> 'z ZstdOutStream \<Rightarrow> (fault + 'z ZstdOutStream) option" where
  "ZstdOutStream_Flush zstd s =
     (if chunks s = [] then Some (Inl NullPointer)
      else case compress_into zstd [] True s of
             (n, result, s') \<Rightarrow> if result = 0 then Some (Inr s') else ZstdOutStream_Flush zstd s')"

definition ZstdOutStream_GetResult ::
  "'z compressor \<Rightarrow> 'z ZstdOutStream \<Rightarrow> (fault + string \<times> 'z ZstdOutStream) option" where
  "ZstdOutStream_GetResult zstd s =
     (case ZstdOutStream_Flush zstd s of
        None \<Rightarrow> None
      | Some (Inl e) \<Rightarrow> Some (Inl e)
      | Some (Inr s') \<Rightarrow> Some (Inr (concat (chunks s'), s'\<lparr>chunks := []\<rparr>)))"

subsection \<open>Hashing\<close>

record Blake3OutStream =
  bs_state :: string
  bs_digest :: string

definition Blake3OutStream_new :: "string \<Rightarrow> Blake3OutStream" where
  "Blake3OutStream_new garbage = \<lparr>bs_state = [], bs_digest = garbage\<rparr>"

definition Blake3OutStream_Write :: "string \<Rightarrow> Blake3OutStream \<Rightarrow> Blake3OutStream" where
  "Blake3OutStream_Write buf s = s\<lparr>bs_state := bs_state s @ buf\<rparr>"

definition Blake3OutStream_Finalize :: "(string \<Rightarrow> string) \<Rightarrow> Blake3OutStream \<Rightarrow> Blake3OutStream" where
  "Blake3OutStream_Finalize blake3 s = s\<lparr>bs_digest := blake3 (bs_state s)\<rparr>"

text \<open>\<open>snprintf("%02x")\<close> of one byte.\<close>

definition hex02 :: "nat \<Rightarrow> string" where
  "hex02 b = [''0123456789abcdef'' ! (b div 16), ''0123456789abcdef'' ! (b mod 16)]"

definition Blake3OutStream_GetResult :: "Blake3OutStream \<Rightarrow> string" where
  "Blake3OutStream_GetResult s = concat (map (\<lambda>c. hex02 (of_char c)) (bs_digest s))"

subsection \<open>Forwarding\<close>

datatype 'z out_stream =
    Transparent string
  | Zstd "'z ZstdOutStream"
  | Hash Blake3OutStream

fun OutStream_Write :: "'z compressor \<Rightarrow> string \<Rightarrow> 'z out_stream \<Rightarrow> (fault + 'z out_stream) option" where
  "OutStream_Write zstd buf (Transparent b) = Some (Inr (Transparent (TransparentOutStream_Write buf b)))"
| "OutStream_Write zstd buf (Zstd s) = map_option (map_sum (\<lambda>e. e) Zstd) (ZstdOutStream_Write zstd buf s)"
| "OutStream_Write zstd buf (Hash s) = Some (Inr (Hash (Blake3OutStream_Write buf s)))"

fun ForwardOutStream_Write ::
  "'z compressor \<Rightarrow> string \<Rightarrow> 'z out_stream list \<Rightarrow> (fault + 'z out_stream list) option" where
  "ForwardOutStream_Write zstd buf [] = Some (Inr [])"
| "ForwardOutStream_Write zstd buf (s # ss) =
     (case OutStream_Write zstd buf s of
        None \<Rightarrow> None
      | Some (Inl e) \<Rightarrow> Some (Inl e)
      | Some (Inr s') \<Rightarrow> map_option (map_sum (\<lambda>e. e) (\<lambda>ss'. s' # ss')) (ForwardOutStream_Write zstd buf ss))"

end
