(* ===== verification/OutStream_Props.thy ===== *)
theory OutStream_Props
  imports OutStream
begin

text \<open>
  The compressed output decompresses to what was written, whatever the pieces it was written in, and
  the chunks stay within their size; the digest is that of the same bytes, in hexadecimal.
\<close>

section \<open>The compressor\<close>

text \<open>
  What the documentation of \<open>ZSTD_compressStream2\<close> promises, when no call fails. \<open>R ctx c p\<close>: the context
  has consumed \<open>c\<close> and produced \<open>p\<close>. A call consumes a prefix of its input and stays within the output
  buffer; if there is input or the frame is to end, it makes progress, which \<open>work\<close> measures; and when
  ending a frame returns 0, what was produced is a whole frame.
\<close>

definition zstd_contract ::
  "'z compressor \<Rightarrow> ('z \<Rightarrow> string \<Rightarrow> string \<Rightarrow> bool) \<Rightarrow> ('z \<Rightarrow> nat) \<Rightarrow> (string \<Rightarrow> string option) \<Rightarrow> bool" where
  "zstd_contract zstd R work decompress \<longleftrightarrow>
     (\<forall>ctx c p buf room fin n out result ctx'.
        R ctx c p \<and> 0 < room \<and> zstd ctx buf room fin = (n, out, result, ctx') \<longrightarrow>
          n \<le> length buf \<and> length out \<le> room \<and> R ctx' (c @ take n buf) (p @ out) \<and>
          (\<not> fin \<and> buf \<noteq> [] \<longrightarrow> 0 < n \<or> work ctx' < work ctx) \<and>
          (fin \<and> buf = [] \<and> result \<noteq> 0 \<longrightarrow> work ctx' < work ctx) \<and>
          (fin \<and> buf = [] \<and> result = 0 \<longrightarrow> decompress (p @ out) = Some c))"

definition stream_ok :: "('z \<Rightarrow> string \<Rightarrow> string \<Rightarrow> bool) \<Rightarrow> string \<Rightarrow> 'z ZstdOutStream \<Rightarrow> bool" where
  "stream_ok R c s \<longleftrightarrow> chunks s \<noteq> [] \<and> list_all (\<lambda>x. length x \<le> kChunkSize) (chunks s) \<and> R (zs_ctx s) c (concat (chunks s))"

lemma with_room_ok:
  assumes "cs \<noteq> []" and "list_all (\<lambda>x. length x \<le> kChunkSize) cs"
  shows "with_room cs \<noteq> []" "list_all (\<lambda>x. length x \<le> kChunkSize) (with_room cs)" "length (last (with_room cs)) < kChunkSize"
    "concat (with_room cs) = concat cs"
  using assms by (auto simp: with_room_def kChunkSize_def list_all_iff le_neq_implies_less)

lemma concat_last: "cs \<noteq> [] \<Longrightarrow> concat (butlast cs @ [last cs @ x]) = concat cs @ x"
  by (induction cs) auto

lemma compress_into_ok:
  assumes zstd: "zstd_contract zstd R work decompress" and ok: "stream_ok R c s" and run: "compress_into zstd buf fin s = (n, result, s')"
  shows "n \<le> length buf" "stream_ok R (c @ take n buf) s'"
    "\<not> fin \<Longrightarrow> buf \<noteq> [] \<Longrightarrow> 0 < n \<or> work (zs_ctx s') < work (zs_ctx s)"
    "fin \<Longrightarrow> buf = [] \<Longrightarrow> result \<noteq> 0 \<Longrightarrow> work (zs_ctx s') < work (zs_ctx s)"
    "fin \<Longrightarrow> buf = [] \<Longrightarrow> result = 0 \<Longrightarrow> decompress (concat (chunks s')) = Some c"
proof -
  let ?cs = "with_room (chunks s)"
  have cs: "?cs \<noteq> []" "list_all (\<lambda>x. length x \<le> kChunkSize) ?cs" "length (last ?cs) < kChunkSize"
      "R (zs_ctx s) c (concat ?cs)" using ok with_room_ok by (auto simp: stream_ok_def)
  obtain out ctx' where step: "zstd (zs_ctx s) buf (kChunkSize - length (last ?cs)) fin = (n, out, result, ctx')"
    and s': "s' = \<lparr>zs_ctx = ctx', chunks = butlast ?cs @ [last ?cs @ out]\<rparr>"
    using run by (auto simp: compress_into_def Let_def split: prod.splits)
  have room: "0 < kChunkSize - length (last ?cs)" using cs(3) by simp
  have law: "n \<le> length buf \<and> length out \<le> kChunkSize - length (last ?cs) \<and> R ctx' (c @ take n buf) (concat ?cs @ out) \<and>
      (\<not> fin \<and> buf \<noteq> [] \<longrightarrow> 0 < n \<or> work ctx' < work (zs_ctx s)) \<and>
      (fin \<and> buf = [] \<and> result \<noteq> 0 \<longrightarrow> work ctx' < work (zs_ctx s)) \<and>
      (fin \<and> buf = [] \<and> result = 0 \<longrightarrow> decompress (concat ?cs @ out) = Some c)"
    using zstd cs(4) room step unfolding zstd_contract_def by blast
  then show "n \<le> length buf" by blast
  have "list_all (\<lambda>x. length x \<le> kChunkSize) (butlast ?cs)" using cs(2) by (auto simp: list_all_iff dest: in_set_butlastD)
  moreover have "length (last ?cs) + length out \<le> kChunkSize" using law cs(3) by linarith
  ultimately show "stream_ok R (c @ take n buf) s'" using law cs(1) by (simp add: stream_ok_def s' concat_last del: concat_append)
  show "\<not> fin \<Longrightarrow> buf \<noteq> [] \<Longrightarrow> 0 < n \<or> work (zs_ctx s') < work (zs_ctx s)"
    "fin \<Longrightarrow> buf = [] \<Longrightarrow> result \<noteq> 0 \<Longrightarrow> work (zs_ctx s') < work (zs_ctx s)"
    "fin \<Longrightarrow> buf = [] \<Longrightarrow> result = 0 \<Longrightarrow> decompress (concat (chunks s')) = Some c"
    using law cs(1) by (simp_all add: s' concat_last del: concat_append)
qed

lemma Write_ok:
  assumes zstd: "zstd_contract zstd R work decompress"
  shows "stream_ok R c s \<Longrightarrow> \<exists>s'. ZstdOutStream_Write zstd buf s = Some (Inr s') \<and> stream_ok R (c @ buf) s'"
proof (induction "(length buf, work (zs_ctx s))" arbitrary: buf s c rule: wf_induct_rule[OF wf_lex_prod[OF wf_less_than wf_less_than]])
  case 1
  show ?case
  proof (cases "buf = []")
    case True
    with 1 show ?thesis by (subst ZstdOutStream_Write.simps) simp
  next
    case False
    obtain n result s' where step: "compress_into zstd buf False s = (n, result, s')" by (metis surj_pair)
    note ok = compress_into_ok[OF zstd 1(2) step]
    have "((length (drop n buf), work (zs_ctx s')), (length buf, work (zs_ctx s))) \<in> less_than <*lex*> less_than"
      using ok(1,3) False by auto
    from 1(1)[OF this ok(2)] 1(2) False step show ?thesis
      by (subst ZstdOutStream_Write.simps) (simp add: stream_ok_def)
  qed
qed

lemma Flush_ok:
  assumes zstd: "zstd_contract zstd R work decompress"
  shows "stream_ok R c s \<Longrightarrow> \<exists>s'. ZstdOutStream_Flush zstd s = Some (Inr s') \<and> stream_ok R c s' \<and> decompress (concat (chunks s')) = Some c"
proof (induction "work (zs_ctx s)" arbitrary: s rule: less_induct)
  case less
  obtain n result s' where step: "compress_into zstd [] True s = (n, result, s')" by (metis surj_pair)
  note ok = compress_into_ok[OF zstd less.prems step]
  have "chunks s \<noteq> []" using less.prems by (simp add: stream_ok_def)
  with ok less.hyps[of s'] step show ?case by (subst ZstdOutStream_Flush.simps) auto
qed

section \<open>Forwarding\<close>

text \<open>The pieces the event loop hands on, one after the other.\<close>

fun forward_all :: "'z compressor \<Rightarrow> string list \<Rightarrow> 'z out_stream list \<Rightarrow> (fault + 'z out_stream list) option" where
  "forward_all zstd [] ss = Some (Inr ss)"
| "forward_all zstd (p # ps) ss =
     (case ForwardOutStream_Write zstd p ss of Some (Inr ss') \<Rightarrow> forward_all zstd ps ss' | r \<Rightarrow> r)"

lemma forward_all_ok:
  assumes zstd: "zstd_contract zstd R work decompress"
  shows "stream_ok R c s \<Longrightarrow> bs_state b = c \<Longrightarrow>
     \<exists>s' b'. forward_all zstd ps [Zstd s, Hash b] = Some (Inr [Zstd s', Hash b']) \<and> stream_ok R (c @ concat ps) s' \<and> bs_state b' = c @ concat ps"
proof (induction ps arbitrary: c s b)
  case (Cons p ps)
  from Write_ok[OF zstd Cons.prems(1)] obtain s1 where s1: "ZstdOutStream_Write zstd p s = Some (Inr s1)" "stream_ok R (c @ p) s1" by blast
  from Cons.IH[OF s1(2), of "Blake3OutStream_Write p b"] Cons.prems(2) s1(1) show ?case
    by (auto simp: Blake3OutStream_Write_def)
qed auto

lemma hex02_EncodeHex: "concat (map (\<lambda>c. hex02 (of_char c)) s) = EncodeHex s False"
proof (induction s)
  case (Cons c s)
  have "of_char c < (256 :: nat)" by simp
  from hex_table_nth(1)[OF this] Cons show ?case by (simp add: EncodeHex_def hex02_def)
qed (simp add: EncodeHex_def)

section \<open>Properties\<close>

text \<open>
  However the output is cut into pieces, writing them ends, the compressed stream decompresses to their concatenation, its chunks
  never exceed their size, and the hash stream yields the digest of the same bytes in the hexadecimal
  form the daemon computes.
\<close>

theorem rewritten_stream_roundtrip:
  assumes "zstd_contract zstd R work decompress" and "R ctx [] []"
  shows "\<exists>s b result s'.
    forward_all zstd pieces [Zstd (ZstdOutStream_new ctx), Hash (Blake3OutStream_new garbage)] = Some (Inr [Zstd s, Hash b]) \<and>
    list_all (\<lambda>x. length x \<le> kChunkSize) (chunks s) \<and>
    ZstdOutStream_GetResult zstd s = Some (Inr (result, s')) \<and> decompress result = Some (concat pieces) \<and>
    Blake3OutStream_GetResult (Blake3OutStream_Finalize blake3 b) = EncodeHex (blake3 (concat pieces)) False"
proof -
  have "stream_ok R [] (ZstdOutStream_new ctx)" using assms(2) by (simp add: stream_ok_def ZstdOutStream_new_def)
  from forward_all_ok[OF assms(1) this, of "Blake3OutStream_new garbage" pieces] obtain s b where
    s: "forward_all zstd pieces [Zstd (ZstdOutStream_new ctx), Hash (Blake3OutStream_new garbage)] = Some (Inr [Zstd s, Hash b])"
      "stream_ok R (concat pieces) s" "bs_state b = concat pieces"
    by (auto simp: Blake3OutStream_new_def)
  from Flush_ok[OF assms(1) s(2)] obtain s' where
    "ZstdOutStream_Flush zstd s = Some (Inr s')" "decompress (concat (chunks s')) = Some (concat pieces)" by blast
  with s show ?thesis
    by (auto simp: ZstdOutStream_GetResult_def Blake3OutStream_GetResult_def Blake3OutStream_Finalize_def hex02_EncodeHex stream_ok_def)
qed

text \<open>A compressor that only stores: it keeps its input until the frame is to end.\<close>

definition store_only :: "string compressor" where
  "store_only ctx buf room fin =
     (if fin then (length buf, take room (ctx @ buf), length (drop room (ctx @ buf)), drop room (ctx @ buf))
      else (length buf, [], 0, ctx @ buf))"

lemma store_only_contract: "zstd_contract store_only (\<lambda>ctx c p. p @ ctx = c) length Some"
  by (auto simp: zstd_contract_def store_only_def simp del: take_append drop_append split: if_splits)

theorem rewritten_stream_roundtrip_witness:
  "\<exists>s b result s'.
     forward_all store_only [''int '', ''x''] [Zstd (ZstdOutStream_new []), Hash (Blake3OutStream_new ''?'')] = Some (Inr [Zstd s, Hash b]) \<and>
     ZstdOutStream_GetResult store_only s = Some (Inr (result, s')) \<and> Some result = Some ''int x''"
  using rewritten_stream_roundtrip[OF store_only_contract, of "[]" "[''int '', ''x'']" "''?''" "\<lambda>x. x"] by auto

text \<open>
  When the compressor fails without progress (its error is only logged), writing to the stream
  and reading its result never end.
\<close>

theorem failing_compressor_hangs:
  assumes "\<And>buf room fin. zstd ctx buf room fin = (0, [], err, ctx)" and "err \<noteq> 0"
    and "zs_ctx s = ctx" and "chunks s \<noteq> []"
  shows "(buf \<noteq> [] \<longrightarrow> ZstdOutStream_Write zstd buf s = None) \<and> ZstdOutStream_GetResult zstd s = None"
proof -
  have into: "fst (compress_into zstd buf fin s) = 0 \<and> fst (snd (compress_into zstd buf fin s)) = err \<and>
      zs_ctx (snd (snd (compress_into zstd buf fin s))) = ctx \<and> chunks (snd (snd (compress_into zstd buf fin s))) \<noteq> []"
    if "zs_ctx s = ctx" for buf fin s using that assms(1) by (simp add: compress_into_def Let_def)
  have "ZstdOutStream_Write zz buf s = Some y \<Longrightarrow> zz = zstd \<and> zs_ctx s = ctx \<and> chunks s \<noteq> [] \<longrightarrow> buf = []" for zz buf s y
    apply (erule ZstdOutStream_Write.raw_induct[rotated, where P = "\<lambda>zz buf s _. zz = zstd \<and> zs_ctx s = ctx \<and> chunks s \<noteq> [] \<longrightarrow> buf = []"])
    subgoal for W zz buf s y using into[of s buf False] by (cases "compress_into zstd buf False s") (fastforce split: if_splits)
    done
  then have "buf \<noteq> [] \<longrightarrow> ZstdOutStream_Write zstd buf s = None" using assms(3,4) by (metis not_None_eq)
  moreover have "ZstdOutStream_Flush zz s = Some y \<Longrightarrow> \<not> (zz = zstd \<and> zs_ctx s = ctx \<and> chunks s \<noteq> [])" for zz s y
    apply (erule ZstdOutStream_Flush.raw_induct[rotated, where P = "\<lambda>zz s _. \<not> (zz = zstd \<and> zs_ctx s = ctx \<and> chunks s \<noteq> [])"])
    subgoal for W zz s y using into[of s "[]" True] assms(2) by (cases "compress_into zstd [] True s") (fastforce split: if_splits)
    done
  then have "ZstdOutStream_Flush zstd s = None" using assms(3,4) by (metis not_None_eq)
  ultimately show ?thesis by (simp add: ZstdOutStream_GetResult_def)
qed

theorem failing_compressor_hangs_witness:
  "ZstdOutStream_Write (\<lambda>ctx _ _ _. (0, [], 1, ctx)) ''x'' (ZstdOutStream_new ()) = None"
  using failing_compressor_hangs[of "\<lambda>ctx _ _ _. (0, [], 1, ctx)" "()" 1 "ZstdOutStream_new ()" "''x''"]
  by (simp add: ZstdOutStream_new_def)

end
