(* ===== verification/Preprocess_Props.thy ===== *)
theory Preprocess_Props
  imports Command_Props OutStream_Props
begin

text \<open>
  Preprocessing as a whole: the child process, the event loop that serves its pipes, and the streams that
  compress and hash what it writes, as \<open>TryRewriteFileWithCommandLine\<close> puts them together.
\<close>

lemma fold_snoc: "fold (\<lambda>c ps. ps @ [c]) xs ys = ys @ xs"
  by (induction xs arbitrary: ys) auto


lemma killed_run_pieces: "polls_serve (\<lambda>c ps. ps @ [c]) [] (run_polls killed_run) (io_start EAGAIN killed_run [])"
  by (simp add: killed_run_def io_start_def handle_events_def handle_stdin_def handle_stdout_def handle_stderr_def
      WriteTo_empty kIoBufferSize_def Let_def)


text \<open>
  A preprocessor that is killed in the middle of its work counts as successful, and the client goes on to
  compress and submit the part of the source it had written.
\<close>

theorem killed_preprocessor_accepted:
  assumes "child = exec (fst (snd (StartProgram command [] environ fds)))" and "sig < 256"
    and "input_ready [] e (run_polls child)" "list_all reliable_poll (run_polls child)"
      "polls_serve (\<lambda>c out. out @ c) [] (run_polls child) (io_start e child [])"
      "length (run_out child) + length (run_err child) + 3 \<le> length (filter (\<lambda>p. p \<noteq> PollInterrupted) (run_polls child))"
    and "run_waits child = replicate k (WaitFailed EINTR) @ [Waited sig]"
    and env: "\<And>code out err. ExecuteCommand (\<lambda>c out. out @ c) exec environ fds e garbage command [] [] [] = Some (Inr (code, out, err)) \<Longrightarrow>
      execute env command = (int code, out)"
  shows "TryRewriteFileWithCommandLine env command cc =
    Some (zstd_stream env (run_out child), cc, if cc \<noteq> 0 then EncodeHex (blake3_of env (run_out child)) False else [])"
proof -
  have fold: "fold (\<lambda>c out. out @ c) xs acc = acc @ concat xs" for xs :: "string list" and acc
    by (induction xs arbitrary: acc) auto
  have "\<exists>err. ExecuteCommand (\<lambda>c out. out @ c) exec environ fds e garbage command [] [] [] = Some (Inr (0, run_out child, err))"
    using execute_command_completes[where exec = exec and garbage = garbage, OF assms(1) _ assms(3-5) _ assms(7)] assms(2,6) by (auto simp: fold WEXITSTATUS_div)
  then have "execute env command = (0, run_out child)" using env by fastforce
  then show ?thesis by (simp add: TryRewriteFileWithCommandLine_def)
qed

end
