(* ===== verification/DirTree.thy ===== *)
theory DirTree
  imports Prelude "HOL-Library.Multiset"
begin

text \<open>
  \<open>common/dir.h\<close> and \<open>daemon/cloud/temp_dir.cpp\<close>: creating, scanning and removing directories.

  The file system is a tree. A leaf has an inode, the \<open>d_type\<close> of its directory entry and what
  reading it gives (for a symbolic link, the content of its target). \<open>opendir\<close>, \<open>unlink\<close>, \<open>mkdir\<close>
  and \<open>rmdir\<close> resolve a path by its components; empty components do not count.
\<close>

section \<open>Definitions\<close>

subsection \<open>The file system\<close>

datatype fs_node =
    Leaf u64 nat string
  | Directory u64 "(string \<times> fs_node) list"

definition DT_CHR :: nat where "DT_CHR = 2"
definition DT_DIR :: nat where "DT_DIR = 4"
definition DT_BLK :: nat where "DT_BLK = 6"
definition DT_REG :: nat where "DT_REG = 8"
definition DT_LNK :: nat where "DT_LNK = 10"
definition DT_SOCK :: nat where "DT_SOCK = 12"

lemmas d_types = DT_CHR_def DT_DIR_def DT_BLK_def DT_REG_def DT_LNK_def DT_SOCK_def

fun d_type :: "fs_node \<Rightarrow> nat" where
  "d_type (Leaf i t c) = t"
| "d_type (Directory i es) = DT_DIR"

fun d_ino :: "fs_node \<Rightarrow> u64" where
  "d_ino (Leaf i t c) = i"
| "d_ino (Directory i es) = i"

fun split_slash :: "string \<Rightarrow> string \<Rightarrow> string list" where
  "split_slash acc [] = [acc]"
| "split_slash acc (c # cs) = (if c = CHR ''/'' then acc # split_slash [] cs else split_slash (acc @ [c]) cs)"

definition comps :: "string \<Rightarrow> string list" where
  "comps path = filter (\<lambda>c. c \<noteq> []) (split_slash [] path)"

fun fs_look :: "fs_node \<Rightarrow> string list \<Rightarrow> fs_node option" where
  "fs_look d [] = Some d"
| "fs_look (Leaf i t c) (n # ns) = None"
| "fs_look (Directory i es) (n # ns) = (case map_of es n of None \<Rightarrow> None | Some d \<Rightarrow> fs_look d ns)"

definition opendir :: "fs_node \<Rightarrow> string \<Rightarrow> (string \<times> fs_node) list option" where
  "opendir fs path = (case fs_look fs (comps path) of Some (Directory i es) \<Rightarrow> Some es | _ \<Rightarrow> None)"

subsection \<open>Scanning\<close>

record DirNode =
  dn_name :: string
  dn_inode :: u64
  is_block_dev :: bool
  is_char_dev :: bool
  is_dir :: bool
  is_symlink :: bool
  is_regular :: bool
  is_unix_socket :: bool

text \<open>The kinds of an entry are tested with \<open>type & DT_\<dots>\<close>, although they are not single bits.\<close>

definition has_bits :: "nat \<Rightarrow> nat \<Rightarrow> bool" where
  "has_bits t k \<longleftrightarrow> Bit_Operations.and t k \<noteq> 0"

definition dir_node :: "string \<Rightarrow> fs_node \<Rightarrow> DirNode" where
  "dir_node n d =
     \<lparr>dn_name = n, dn_inode = d_ino d, is_block_dev = has_bits (d_type d) DT_BLK, is_char_dev = has_bits (d_type d) DT_CHR,
      is_dir = has_bits (d_type d) DT_DIR, is_symlink = has_bits (d_type d) DT_LNK, is_regular = has_bits (d_type d) DT_REG,
      is_unix_socket = has_bits (d_type d) DT_SOCK\<rparr>"

text \<open>
  The loop over \<open>readdir\<close>, which also yields the directory itself and its parent. A failed check of
  \<open>opendir\<close> only logs, and reading the null pointer is undefined.
\<close>

definition readdir_all :: "(string \<times> fs_node) list \<Rightarrow> (string \<times> fs_node) list" where
  "readdir_all es = (''.'', Directory 0 es) # (''..'', Directory 0 []) # es"

definition GetDirNodes :: "fs_node \<Rightarrow> string \<Rightarrow> fault + DirNode list" where
  "GetDirNodes fs path =
     (case opendir fs path of
        None \<Rightarrow> Inl NullPointer
      | Some es \<Rightarrow>
          Inr (map (\<lambda>(n, d). dir_node n d) (filter (\<lambda>(n, d). \<not> (n = ''.'' \<or> n = ''..'')) (readdir_all es))))"

definition prefix_name :: "string \<Rightarrow> string \<Rightarrow> string" where
  "prefix_name front n = (if front \<noteq> [] then front @ ''/'' @ n else n)"

partial_function (option) recurse_loop ::
  "fs_node \<Rightarrow> string \<Rightarrow> string list \<Rightarrow> DirNode list \<Rightarrow> (fault + DirNode list) option" where
  "recurse_loop fs path queue result =
     (case queue of
        [] \<Rightarrow> Some (Inr result)
      | front # rest \<Rightarrow>
          (case GetDirNodes fs (path @ ''/'' @ front) of
             Inl e \<Rightarrow> Some (Inl e)
           | Inr nodes \<Rightarrow>
               (let temp = map (\<lambda>e. e\<lparr>dn_name := prefix_name front (dn_name e)\<rparr>) nodes
                in recurse_loop fs path (rest @ map dn_name (filter is_dir temp)) (result @ temp))))"

definition GetDirNodesRecursively :: "fs_node \<Rightarrow> string \<Rightarrow> (fault + DirNode list) option" where
  "GetDirNodesRecursively fs path = recurse_loop fs path [[]] []"

text \<open>\<open>TempDir::ReadAll\<close>. A file that cannot be opened reads as empty.\<close>

definition read_file :: "fs_node \<Rightarrow> string \<Rightarrow> string" where
  "read_file fs path = (case fs_look fs (comps path) of Some (Leaf i t c) \<Rightarrow> c | _ \<Rightarrow> [])"

definition TempDir_ReadAll :: "fs_node \<Rightarrow> string \<Rightarrow> string \<Rightarrow> (fault + (string \<times> string) list) option" where
  "TempDir_ReadAll fs path subdir =
     (let root_dir = path @ ''/'' @ subdir
      in case GetDirNodesRecursively fs root_dir of
           None \<Rightarrow> None
         | Some (Inl e) \<Rightarrow> Some (Inl e)
         | Some (Inr nodes) \<Rightarrow>
             Some (Inr (map (\<lambda>node. (dn_name node, read_file fs (root_dir @ ''/'' @ dn_name node))) (filter is_regular nodes))))"

subsection \<open>Creating and removing\<close>

text \<open>The system calls that change the tree, with the error they report.\<close>

datatype errno = EEXIST | ENOENT | ENOTDIR | EISDIR | ENOTEMPTY

datatype fs_call = Mkdir string | Unlink string | Rmdir string

fun fs_at :: "string list \<Rightarrow> (fs_node \<Rightarrow> fs_node) \<Rightarrow> fs_node \<Rightarrow> fs_node" where
  "fs_at [] f d = f d"
| "fs_at (n # ns) f (Leaf i t c) = Leaf i t c"
| "fs_at (n # ns) f (Directory i es) =
     (case map_of es n of None \<Rightarrow> Directory i es | Some d \<Rightarrow> Directory i (AList.update n (fs_at ns f d) es))"

fun with_child :: "string \<Rightarrow> fs_node \<Rightarrow> fs_node \<Rightarrow> fs_node" where
  "with_child n x (Leaf i t c) = Leaf i t c"
| "with_child n x (Directory i es) = Directory i (AList.update n x es)"

fun without_child :: "string \<Rightarrow> fs_node \<Rightarrow> fs_node" where
  "without_child n (Leaf i t c) = Leaf i t c"
| "without_child n (Directory i es) = Directory i (filter (\<lambda>(k, _). k \<noteq> n) es)"

definition put_entry :: "string list \<Rightarrow> fs_node \<Rightarrow> fs_node \<Rightarrow> fs_node" where
  "put_entry ns x = fs_at (butlast ns) (with_child (last ns) x)"

definition del_entry :: "string list \<Rightarrow> fs_node \<Rightarrow> fs_node" where
  "del_entry ns = fs_at (butlast ns) (without_child (last ns))"

definition mkdir_at :: "string list \<Rightarrow> fs_node \<Rightarrow> errno option \<times> fs_node" where
  "mkdir_at ns fs =
     (if fs_look fs ns \<noteq> None then (Some EEXIST, fs)
      else case fs_look fs (butlast ns) of
             None \<Rightarrow> (Some ENOENT, fs)
           | Some (Leaf i t c) \<Rightarrow> (Some ENOTDIR, fs)
           | Some (Directory i es) \<Rightarrow> (None, put_entry ns (Directory 0 []) fs))"

fun fs_exec :: "fs_call \<Rightarrow> fs_node \<Rightarrow> errno option \<times> fs_node" where
  "fs_exec (Mkdir path) fs = mkdir_at (comps path) fs"
| "fs_exec (Unlink path) fs =
     (case fs_look fs (comps path) of
        None \<Rightarrow> (Some ENOENT, fs)
      | Some (Directory i es) \<Rightarrow> (Some EISDIR, fs)
      | Some (Leaf i t c) \<Rightarrow> (None, del_entry (comps path) fs))"
| "fs_exec (Rmdir path) fs =
     (case fs_look fs (comps path) of
        None \<Rightarrow> (Some ENOENT, fs)
      | Some (Leaf i t c) \<Rightarrow> (Some ENOTDIR, fs)
      | Some (Directory i es) \<Rightarrow> if es = [] then (None, del_entry (comps path) fs) else (Some ENOTEMPTY, fs))"

text \<open>
  \<open>Mkdirs\<close>: \<open>mkdir\<close> of every part before a slash, from position 1 on, and of the whole path; \<open>acc\<close> is
  the part before the position.
\<close>

fun mkdirs_paths :: "string \<Rightarrow> string \<Rightarrow> string list" where
  "mkdirs_paths acc [] = [acc]"
| "mkdirs_paths acc (c # cs) = (if c = CHR ''/'' \<and> acc \<noteq> [] then [acc] else []) @ mkdirs_paths (acc @ [c]) cs"

definition Mkdirs :: "string \<Rightarrow> fs_node \<Rightarrow> fs_node" where
  "Mkdirs path fs = fold (\<lambda>p fs. snd (fs_exec (Mkdir p) fs)) (mkdirs_paths [] path) fs"

text \<open>
  \<open>RemoveDir\<close>: for every entry \<open>unlink\<close>, and \<open>RemoveDir\<close> if this fails (the check of the error only
  logs); then \<open>rmdir\<close>. The list is the stack of calls, each with its path and the entries \<open>readdir\<close>
  has still to yield, which are those of the directory when it was opened.
\<close>

partial_function (option) remove_calls :: "(string \<times> string list) list \<Rightarrow> fs_node \<Rightarrow> (fault + fs_node) option" where
  "remove_calls calls fs =
     (case calls of
        [] \<Rightarrow> Some (Inr fs)
      | (path, names) # rest \<Rightarrow>
          (case names of
             [] \<Rightarrow> remove_calls rest (snd (fs_exec (Rmdir path) fs))
           | n # ns \<Rightarrow>
               if n = ''.'' \<or> n = ''..'' then remove_calls ((path, ns) # rest) fs
               else if fst (fs_exec (Unlink (path @ ''/'' @ n)) fs) = None
               then remove_calls ((path, ns) # rest) (snd (fs_exec (Unlink (path @ ''/'' @ n)) fs))
               else (case opendir fs (path @ ''/'' @ n) of
                       None \<Rightarrow> Some (Inl NullPointer)
                     | Some es \<Rightarrow> remove_calls ((path @ ''/'' @ n, map fst (readdir_all es)) # (path, ns) # rest) fs)))"

definition RemoveDir :: "string \<Rightarrow> fs_node \<Rightarrow> (fault + fs_node) option" where
  "RemoveDir path fs =
     (case opendir fs path of None \<Rightarrow> Some (Inl NullPointer)
      | Some es \<Rightarrow> remove_calls [(path, map fst (readdir_all es))] fs)"

record TempDir =
  td_path :: string
  td_alive :: bool

definition TempDir_new :: "string \<Rightarrow> string \<Rightarrow> string \<Rightarrow> fs_node \<Rightarrow> TempDir \<times> fs_node" where
  "TempDir_new prefix now random fs =
     (let path = prefix @ ''/distribuild_'' @ now @ ''_'' @ random
      in (\<lparr>td_path = path, td_alive = True\<rparr>, Mkdirs path fs))"

definition TempDir_Clear :: "TempDir \<Rightarrow> fs_node \<Rightarrow> (fault + TempDir \<times> fs_node) option" where
  "TempDir_Clear d fs =
     (if \<not> td_alive d then Some (Inr (d, fs))
      else case RemoveDir (td_path d) fs of
             None \<Rightarrow> None
           | Some (Inl e) \<Rightarrow> Some (Inl e)
           | Some (Inr fs') \<Rightarrow> Some (Inr (d\<lparr>td_alive := False\<rparr>, fs')))"

end
