(* ===== verification/DirTree_Props.thy ===== *)
theory DirTree_Props
  imports DirTree "HOL-Library.Sublist"
begin

text \<open>
  What the directory functions guarantee: a recursive scan finds every node of the tree once, \<open>Mkdirs\<close>
  creates its path, \<open>RemoveDir\<close> removes exactly its tree; and which trees the scan cannot handle.
\<close>

section \<open>Paths\<close>

lemma split_slash_append: "split_slash acc (p @ CHR ''/'' # q) = split_slash acc p @ split_slash [] q"
  by (induction p arbitrary: acc) auto

lemma comps_append: "comps (p @ CHR ''/'' # q) = comps p @ comps q"
  by (simp add: comps_def split_slash_append)

lemma split_slash_name: "CHR ''/'' \<notin> set n \<Longrightarrow> split_slash acc n = [acc @ n]"
  by (induction n arbitrary: acc) auto

lemma comps_Nil [simp]: "comps [] = []"
  by (simp add: comps_def)

definition name_ok :: "string \<Rightarrow> bool" where
  "name_ok n \<longleftrightarrow> n \<noteq> [] \<and> CHR ''/'' \<notin> set n \<and> n \<noteq> ''.'' \<and> n \<noteq> ''..''"

lemma comps_name: "name_ok n \<Longrightarrow> comps n = [n]"
  by (simp add: comps_def name_ok_def split_slash_name)

lemma comps_child: "name_ok n \<Longrightarrow> comps (p @ CHR ''/'' # n) = comps p @ [n]"
  by (simp add: comps_append comps_name)

lemma comps_prefix_name: "name_ok n \<Longrightarrow> comps (prefix_name q n) = comps q @ [n]"
  by (simp add: prefix_name_def comps_child comps_append comps_name)

section \<open>Trees\<close>

text \<open>Directories have proper and different names.\<close>

fun tree_ok :: "fs_node \<Rightarrow> bool" and entries_ok :: "(string \<times> fs_node) list \<Rightarrow> bool" where
  "tree_ok (Leaf i t c) \<longleftrightarrow> t \<noteq> DT_DIR"
| "tree_ok (Directory i es) \<longleftrightarrow> distinct (map fst es) \<and> entries_ok es"
| "entries_ok [] \<longleftrightarrow> True"
| "entries_ok ((n, d) # es) \<longleftrightarrow> name_ok n \<and> tree_ok d \<and> entries_ok es"

lemma entries_ok_iff: "entries_ok es \<longleftrightarrow> (\<forall>(n, d) \<in> set es. name_ok n \<and> tree_ok d)"
  by (induction es) auto

lemma fs_look_append: "fs_look d (xs @ ys) = Option.bind (fs_look d xs) (\<lambda>d. fs_look d ys)"
  by (induction d xs rule: fs_look.induct) (auto split: option.split)

lemma fs_look_child:
  assumes "fs_look fs xs = Some (Directory i es)" and "distinct (map fst es)" and "(n, d) \<in> set es"
  shows "fs_look fs (xs @ [n]) = Some d"
  using assms by (simp add: fs_look_append)

lemma fs_at_append: "fs_at (xs @ ys) f d = fs_at xs (fs_at ys f) d"
  by (induction xs f d rule: fs_at.induct) (auto split: option.split)

lemma fs_at_comp: "fs_at xs f (fs_at xs g d) = fs_at xs (\<lambda>d. f (g d)) d"
  by (induction xs g d rule: fs_at.induct) (auto simp: AList.update_conv' AList.update_last split: option.split)

lemma fs_look_at_same: "fs_look (fs_at xs f d) xs = map_option f (fs_look d xs)"
  by (induction xs f d rule: fs_at.induct) (auto simp: AList.update_conv' split: option.split)

lemma fs_look_at_parallel: "xs \<parallel> ys \<Longrightarrow> fs_look (fs_at xs f d) ys = fs_look d ys"
proof (induction xs f d arbitrary: ys rule: fs_at.induct)
  case (3 n ns f i es)
  then obtain m ms where ys: "ys = m # ms" by (cases ys) auto
  show ?case
  proof (cases "map_of es n")
    case (Some d)
    then show ?thesis using 3 ys by (cases "m = n") (auto simp: AList.update_conv' parallel_def)
  qed simp
qed (auto simp: parallel_def)

lemma filter_update: "filter (\<lambda>(k, _). k \<noteq> n) (AList.update n x es) = filter (\<lambda>(k, _). k \<noteq> n) es"
  by (induction es) auto

lemma without_child_at: "without_child n (fs_at (n # ns) f d) = without_child n d"
  by (cases d) (auto simp: filter_update split: option.split)

lemma snoc_at: "xs \<noteq> [] \<Longrightarrow> fs_at xs f d = fs_at (butlast xs) (fs_at [last xs] f) d"
  by (metis append_butlast_last_id fs_at_append)

lemma del_entry_at: "xs \<noteq> [] \<Longrightarrow> del_entry xs (fs_at xs f d) = del_entry xs d"
  by (subst snoc_at, assumption) (simp only: del_entry_def fs_at_comp without_child_at)

lemma del_entry_snoc: "del_entry (xs @ [n]) d = fs_at xs (without_child n) d"
  by (simp add: del_entry_def)

lemma fs_look_without: "fs_look (without_child n d) [n] = None"
  by (cases d) (auto simp: map_of_filter_key)

lemma fs_look_without_other: "m \<noteq> n \<Longrightarrow> fs_look (without_child n d) (m # ks) = fs_look d (m # ks)"
  by (cases d) (auto simp: map_of_filter_key)

lemma fs_look_del_parallel:
  assumes "(ns @ [n]) \<parallel> q"
  shows "fs_look (del_entry (ns @ [n]) fs) q = fs_look fs q"
proof (cases "ns \<parallel> q")
  case True
  then show ?thesis by (simp add: del_entry_snoc fs_look_at_parallel)
next
  case False
  with assms have "prefix ns q" by (auto simp: parallel_def dest: prefix_prefix)
  then obtain ms where q: "q = ns @ ms" by (auto simp: prefix_def)
  with assms obtain m ms' where "ms = m # ms'" "m \<noteq> n" by (cases ms) (auto simp: parallel_def)
  with q show ?thesis
    by (simp add: del_entry_snoc fs_look_append[of _ ns] fs_look_at_same)
       (cases "fs_look fs ns"; simp add: fs_look_without_other)
qed

section \<open>Removing\<close>

lemma remove_calls_simps:
  "remove_calls [] fs = Some (Inr fs)"
  "remove_calls ((path, []) # rest) fs = remove_calls rest (snd (fs_exec (Rmdir path) fs))"
  "n = ''.'' \<or> n = ''..'' \<Longrightarrow> remove_calls ((path, n # ns) # rest) fs = remove_calls ((path, ns) # rest) fs"
  by (subst remove_calls.simps; auto)+

lemma remove_calls_leaf:
  assumes "name_ok n" and "fs_look fs (comps path @ [n]) = Some (Leaf i t c)"
  shows "remove_calls ((path, n # ns) # rest) fs =
    remove_calls ((path, ns) # rest) (fs_at (comps path) (without_child n) fs)"
  using assms by (subst remove_calls.simps) (auto simp: name_ok_def comps_append comps_name del_entry_snoc)

lemma remove_calls_dir:
  assumes "name_ok n" and "fs_look fs (comps path @ [n]) = Some (Directory i es)"
  shows "remove_calls ((path, n # ns) # rest) fs =
    remove_calls ((path @ ''/'' @ n, map fst es) # (path, ns) # rest) fs"
  using assms
  by (subst remove_calls.simps)
     (auto simp: name_ok_def comps_append comps_name opendir_def readdir_all_def remove_calls_simps)

text \<open>A call that has the entries of its directory still to come removes the directory.\<close>

lemma remove_calls_tree:
  "comps path \<noteq> [] \<Longrightarrow> fs_look fs (comps path) = Some (Directory i es) \<Longrightarrow> distinct (map fst es) \<Longrightarrow> entries_ok es \<Longrightarrow>
     remove_calls ((path, map fst es) # rest) fs = remove_calls rest (del_entry (comps path) fs)"
proof (induction "size_list (size_prod (\<lambda>_. 0) size) es" arbitrary: path fs i es rest rule: less_induct)
  case less
  show ?case
  proof (cases es)
    case Nil
    with less show ?thesis by (simp add: remove_calls_simps)
  next
    case (Cons e es')
    obtain n d where e: "e = (n, d)" by (cases e)
    have n: "name_ok n" and d: "fs_look fs (comps path @ [n]) = Some d"
      using less.prems Cons e fs_look_child[OF less.prems(2,3), of n d] by auto
    let ?fs = "fs_at (comps path) (without_child n) fs"
    have "filter (\<lambda>(k, _). k \<noteq> n) es = es'"
      using less.prems(3) Cons e by (force simp: filter_id_conv)
    then have look: "fs_look ?fs (comps path) = Some (Directory i es')"
      using less.prems(2) by (simp add: fs_look_at_same)
    have step: "remove_calls ((path, map fst es') # rest) ?fs = remove_calls rest (del_entry (comps path) fs)"
      using less.hyps[of es' path ?fs i rest] less.prems look Cons e by (simp add: del_entry_at)
    show ?thesis
    proof (cases d)
      case (Leaf j t c)
      with n d Cons e step show ?thesis by (simp add: remove_calls_leaf)
    next
      case (Directory j ds)
      have "remove_calls ((path @ ''/'' @ n, map fst ds) # (path, map fst es') # rest) fs =
          remove_calls ((path, map fst es') # rest) (del_entry (comps (path @ ''/'' @ n)) fs)"
      proof (rule less.hyps)
        show "size_list (size_prod (\<lambda>_. 0) size) ds < size_list (size_prod (\<lambda>_. 0) size) es"
          using Cons e Directory by simp
      qed (use n d Directory less.prems Cons e in \<open>auto simp: comps_child\<close>)
      with n d Cons e Directory step show ?thesis
        by (simp add: remove_calls_dir comps_child del_entry_snoc)
    qed
  qed
qed

section \<open>Scanning\<close>

text \<open>The nodes below a node, depth first, with their paths relative to the start of the scan.\<close>

fun all_nodes :: "string \<Rightarrow> fs_node \<Rightarrow> (string \<times> fs_node) list"
  and all_entries :: "string \<Rightarrow> (string \<times> fs_node) list \<Rightarrow> (string \<times> fs_node) list" where
  "all_nodes q (Leaf i t c) = []"
| "all_nodes q (Directory i es) = all_entries q es"
| "all_entries q [] = []"
| "all_entries q ((n, d) # es) = (prefix_name q n, d) # all_nodes (prefix_name q n) d @ all_entries q es"

text \<open>Which nodes the scan takes for a directory although they are none: sockets and block devices.\<close>

definition looks_like_dir :: "fs_node \<Rightarrow> bool" where
  "looks_like_dir d \<longleftrightarrow> has_bits (d_type d) DT_DIR"

fun is_Directory :: "fs_node \<Rightarrow> bool" where
  "is_Directory (Leaf i t c) = False"
| "is_Directory (Directory i es) = True"

lemma looks_like_dir_Directory [simp]: "looks_like_dir (Directory i es)"
  by (simp add: looks_like_dir_def has_bits_def DT_DIR_def)

lemma mset_all_entries:
  "mset (all_entries q es) = mset (map (\<lambda>(n, d). (prefix_name q n, d)) es) +
     (\<Sum>(n, d) \<leftarrow> filter (\<lambda>(n, d). looks_like_dir d) es. mset (all_nodes (prefix_name q n) d))"
proof (induction es)
  case (Cons e es)
  obtain n d where "e = (n, d)" by (cases e)
  with Cons show ?case by (cases d) auto
qed simp

lemma GetDirNodes_entries:
  assumes "fs_look fs (comps path) = Some (Directory i es)" and "entries_ok es"
  shows "GetDirNodes fs path = Inr (map (\<lambda>(n, d). dir_node n d) es)"
proof -
  have "filter (\<lambda>(n, d). \<not> (n = ''.'' \<or> n = ''..'')) es = es"
    using assms(2) by (auto simp: filter_id_conv entries_ok_iff name_ok_def)
  with assms show ?thesis by (simp add: GetDirNodes_def opendir_def readdir_all_def)
qed

fun clean :: "fs_node \<Rightarrow> bool" and clean_entries :: "(string \<times> fs_node) list \<Rightarrow> bool" where
  "clean (Leaf i t c) \<longleftrightarrow> \<not> looks_like_dir (Leaf i t c)"
| "clean (Directory i es) \<longleftrightarrow> clean_entries es"
| "clean_entries [] \<longleftrightarrow> True"
| "clean_entries ((n, d) # es) \<longleftrightarrow> clean d \<and> clean_entries es"

lemma clean_entries_iff: "clean_entries es \<longleftrightarrow> (\<forall>(n, d) \<in> set es. clean d)"
  by (induction es) auto

lemma unclean_dir: "\<not> clean d \<Longrightarrow> looks_like_dir d"
  by (cases d) auto

definition queued :: "fs_node \<Rightarrow> string \<Rightarrow> string \<Rightarrow> fs_node \<Rightarrow> bool" where
  "queued fs path q d \<longleftrightarrow> fs_look fs (comps path @ comps q) = Some d \<and> looks_like_dir d \<and> tree_ok d"

definition below :: "string list \<Rightarrow> fs_node list \<Rightarrow> (string \<times> fs_node) list" where
  "below qs ds = concat (map2 all_nodes qs ds)"

abbreviation named :: "(string \<times> fs_node) list \<Rightarrow> DirNode list" where
  "named xs \<equiv> map (\<lambda>(n, d). dir_node n d) xs"

text \<open>The entries of a directory that join the queue.\<close>

definition subdirs :: "(string \<times> fs_node) list \<Rightarrow> (string \<times> fs_node) list" where
  "subdirs es = filter (\<lambda>(n, d). looks_like_dir d) es"

lemma mset_below_subdirs:
  "mset (below (map (\<lambda>(n, d). prefix_name q n) (subdirs es)) (map snd (subdirs es))) =
     (\<Sum>(n, d) \<leftarrow> subdirs es. mset (all_nodes (prefix_name q n) d))"
  by (induction es) (auto simp: below_def subdirs_def)

lemma below_step:
  assumes "d = Directory i es" and "length qs = length ds"
  shows "mset (below (q # qs) (d # ds)) = mset (map (\<lambda>(n, d). (prefix_name q n, d)) es) +
    mset (below (qs @ map (\<lambda>(n, d). prefix_name q n) (subdirs es)) (ds @ map snd (subdirs es)))"
proof -
  have "below (qs @ xs) (ds @ ys) = below qs ds @ below xs ys" for xs ys
    using assms(2) by (simp add: below_def)
  then show ?thesis
    using assms mset_all_entries[of q es] by (simp add: mset_below_subdirs) (simp add: below_def subdirs_def)
qed

lemma queued_child:
  assumes "queued fs path q (Directory i es)" and "(n, d) \<in> set es"
  shows "fs_look fs (comps path @ comps (prefix_name q n)) = Some d \<and> tree_ok d \<and> name_ok n"
proof -
  have "fs_look fs (comps path @ comps q) = Some (Directory i es)" "distinct (map fst es)" "entries_ok es"
    using assms(1) by (simp_all add: queued_def)
  moreover from this assms(2) have "name_ok n" "tree_ok d" by (auto simp: entries_ok_iff)
  ultimately show ?thesis
    using fs_look_child[of fs "comps path @ comps q" i es n d] assms(2) by (simp add: comps_prefix_name)
qed

lemma recurse_loop_step:
  assumes "queued fs path q (Directory i es)"
  shows "recurse_loop fs path (q # qs) acc =
    recurse_loop fs path (qs @ map (\<lambda>(n, d). prefix_name q n) (subdirs es))
      (acc @ named (map (\<lambda>(n, d). (prefix_name q n, d)) es))"
proof -
  have look: "fs_look fs (comps (path @ CHR ''/'' # q)) = Some (Directory i es)" "entries_ok es"
    using assms by (simp_all add: queued_def comps_append)
  let ?temp = "named (map (\<lambda>(n, d). (prefix_name q n, d)) es)"
  have "map (\<lambda>e. e\<lparr>dn_name := prefix_name q (dn_name e)\<rparr>) (named es) = ?temp"
    by (simp add: dir_node_def split_def)
  moreover have "map dn_name (filter is_dir ?temp) = map (\<lambda>(n, d). prefix_name q n) (subdirs es)"
    by (simp add: subdirs_def filter_map comp_def split_def dir_node_def looks_like_dir_def)
  ultimately show ?thesis
    using GetDirNodes_entries[OF look] by (subst recurse_loop.simps) (simp add: Let_def del: map_map)
qed

lemma recurse_loop_leaf:
  "queued fs path q (Leaf i t c) \<Longrightarrow> recurse_loop fs path (q # qs) acc = Some (Inl NullPointer)"
  by (subst recurse_loop.simps) (simp add: queued_def GetDirNodes_def opendir_def comps_append)

definition scan_result :: "fs_node list \<Rightarrow> string list \<Rightarrow> DirNode list \<Rightarrow> (fault + DirNode list) option \<Rightarrow> bool" where
  "scan_result ds qs acc r \<longleftrightarrow>
     (if list_all clean ds then \<exists>nodes. r = Some (Inr (acc @ nodes)) \<and> mset nodes = mset (named (below qs ds))
      else r = Some (Inl NullPointer))"

lemma clean_subdirs: "clean (Directory i es) \<longleftrightarrow> list_all clean (map snd (subdirs es))"
  using unclean_dir by (fastforce simp: clean_entries_iff subdirs_def list_all_iff)

lemma recurse_loop_all:
  "list_all2 (queued fs path) qs ds \<Longrightarrow> scan_result ds qs acc (recurse_loop fs path qs acc)"
proof (induction "length (below qs ds) + length qs" arbitrary: qs ds acc rule: less_induct)
  case less
  show ?case
  proof (cases qs)
    case Nil
    with less.prems show ?thesis by (subst recurse_loop.simps) (simp add: below_def scan_result_def)
  next
    case (Cons q qs')
    then obtain d ds' where ds: "ds = d # ds'" and d: "queued fs path q d" and rest: "list_all2 (queued fs path) qs' ds'"
      using less.prems by (auto simp: list_all2_Cons1)
    show ?thesis
    proof (cases d)
      case (Leaf i t c)
      then show ?thesis using d recurse_loop_leaf[of fs path q i t c qs' acc] Cons ds by (simp add: scan_result_def queued_def)
    next
      case dir: (Directory i es)
      note d = d[unfolded dir]
      let ?qs = "qs' @ map (\<lambda>(n, d). prefix_name q n) (subdirs es)"
      let ?ds = "ds' @ map snd (subdirs es)"
      let ?here = "named (map (\<lambda>(n, d). (prefix_name q n, d)) es)"
      note step = below_step[OF dir list_all2_lengthD[OF rest], of q]
      have "list_all2 (queued fs path) (map (\<lambda>(n, d). prefix_name q n) (subdirs es)) (map snd (subdirs es))"
        using queued_child[OF d] by (auto simp: list.rel_map list_all2_same subdirs_def queued_def)
      with rest have all: "list_all2 (queued fs path) ?qs ?ds" by (simp add: list_all2_appendI)
      have "length (below qs ds) = length es + length (below ?qs ?ds)"
        using arg_cong[OF step, of size] by (simp add: Cons ds)
      moreover have "length (subdirs es) \<le> length es" by (simp add: subdirs_def)
      ultimately have "length (below ?qs ?ds) + length ?qs < length (below qs ds) + length qs" by (simp add: Cons)
      from less.hyps[OF this all] have IH: "scan_result ?ds ?qs (acc @ ?here) (recurse_loop fs path qs acc)"
        using recurse_loop_step[OF d, of qs' acc] Cons by simp
      have clean: "list_all clean ds \<longleftrightarrow> list_all clean ?ds"
        using clean_subdirs[of i es] by (auto simp: ds dir list_all_append)
      have "mset (named (below qs ds)) = mset (?here @ named (below ?qs ?ds))"
        unfolding Cons ds mset_map mset_append step by (simp add: multiset.map_comp)
      with IH clean show ?thesis by (auto simp: scan_result_def)
    qed
  qed
qed

section \<open>Creating\<close>

lemma comps_snoc: "split_slash [] acc = xs @ [x] \<Longrightarrow> split_slash [] (acc @ [c]) = (if c = CHR ''/'' then xs @ [x, []] else xs @ [x @ [c]])"
proof -
  have "split_slash y (acc @ [c]) = butlast (split_slash y acc) @
      (if c = CHR ''/'' then [last (split_slash y acc), []] else [last (split_slash y acc) @ [c]])" for y
  proof (induction acc arbitrary: y)
    case (Cons a acc)
    have "split_slash z acc \<noteq> []" for z by (induction acc arbitrary: z) auto
    with Cons show ?case by auto
  qed simp
  then show "split_slash [] acc = xs @ [x] \<Longrightarrow> ?thesis" by simp
qed

definition dir_at :: "fs_node \<Rightarrow> string list \<Rightarrow> bool" where
  "dir_at fs ns \<longleftrightarrow> (\<exists>i es. fs_look fs ns = Some (Directory i es))"

lemma dir_at_iff: "dir_at fs ns \<longleftrightarrow> (\<exists>d. fs_look fs ns = Some d \<and> is_Directory d)"
  unfolding dir_at_def by (metis is_Directory.elims(2) is_Directory.simps(2))

text \<open>Nothing is lost and no file is new: only directories may have been added.\<close>

definition grows :: "fs_node \<Rightarrow> fs_node \<Rightarrow> bool" where
  "grows fs fs' \<longleftrightarrow>
     (\<forall>q. dir_at fs q \<longrightarrow> dir_at fs' q) \<and>
     (\<forall>q i t c. fs_look fs q = Some (Leaf i t c) \<longleftrightarrow> fs_look fs' q = Some (Leaf i t c))"

lemma grows_refl [simp]: "grows fs fs"
  by (simp add: grows_def)

lemma grows_trans: "grows a b \<Longrightarrow> grows b c \<Longrightarrow> grows a c"
  by (auto simp: grows_def)

lemma grows_child:
  assumes "map_of es n = Some d" and "grows d d'"
  shows "grows (Directory i es) (Directory i (AList.update n d' es))"
  unfolding grows_def
proof (intro conjI allI impI)
  fix q assume q: "dir_at (Directory i es) q"
  show "dir_at (Directory i (AList.update n d' es)) q"
    using q assms by (cases q) (auto simp: dir_at_def grows_def AList.update_conv')
next
  fix q j t c
  show "fs_look (Directory i es) q = Some (Leaf j t c) \<longleftrightarrow> fs_look (Directory i (AList.update n d' es)) q = Some (Leaf j t c)"
    using assms by (cases q) (auto simp: grows_def AList.update_conv')
qed

lemma fs_at_grows: "(\<And>d. fs_look fs xs = Some d \<Longrightarrow> grows d (f d)) \<Longrightarrow> grows fs (fs_at xs f fs)"
  by (induction xs f fs rule: fs_at.induct) (auto split: option.split intro: grows_child)

lemma with_child_grows:
  assumes "map_of es x = None"
  shows "grows (Directory i es) (with_child x (Directory j []) (Directory i es))"
  unfolding grows_def
proof (intro conjI allI impI)
  fix q assume q: "dir_at (Directory i es) q"
  show "dir_at (with_child x (Directory j []) (Directory i es)) q"
    using q assms by (cases q) (auto simp: dir_at_def AList.update_conv')
next
  fix q k t c
  have "fs_look (Directory j []) ms \<noteq> Some (Leaf k t c)" for ms by (cases ms) auto
  then show "fs_look (Directory i es) q = Some (Leaf k t c) \<longleftrightarrow>
      fs_look (with_child x (Directory j []) (Directory i es)) q = Some (Leaf k t c)"
    using assms by (cases q) (auto simp: AList.update_conv')
qed

lemma mkdir_at_grows: "grows fs (snd (mkdir_at ns fs))"
proof (cases "fs_look fs ns = None \<and> dir_at fs (butlast ns)")
  case True
  then obtain i es where d: "fs_look fs (butlast ns) = Some (Directory i es)" by (auto simp: dir_at_def)
  have ns: "ns \<noteq> []" using True by auto
  then have "map_of es (last ns) = None"
    using True d fs_look_append[of fs "butlast ns" "[last ns]"] by (simp split: option.splits)
  with d True ns show ?thesis
    by (auto simp: mkdir_at_def put_entry_def intro!: fs_at_grows dest: with_child_grows[of es "last ns" i 0])
qed (auto simp: mkdir_at_def dir_at_def split: option.splits fs_node.splits)

text \<open>No part of the path is something else than a directory.\<close>

definition passable :: "fs_node \<Rightarrow> string list \<Rightarrow> bool" where
  "passable fs ns \<longleftrightarrow> (\<forall>k i t c. fs_look fs (take k ns) \<noteq> Some (Leaf i t c))"

lemma passable_grows: "grows fs fs' \<Longrightarrow> passable fs ns \<Longrightarrow> passable fs' ns"
  by (auto simp: passable_def grows_def)

lemma mkdir_at_dir:
  assumes "passable fs ns" and "dir_at fs (butlast ns)"
  shows "dir_at (snd (mkdir_at ns fs)) ns"
proof (cases "fs_look fs ns")
  case (Some d)
  moreover obtain i es where "d = Directory i es"
    using assms(1) Some unfolding passable_def by (metis fs_node.exhaust order_refl take_all)
  ultimately show ?thesis by (auto simp: mkdir_at_def dir_at_def)
next
  case None
  obtain i es where d: "fs_look fs (butlast ns) = Some (Directory i es)" using assms(2) by (auto simp: dir_at_def)
  have ns: "ns = butlast ns @ [last ns]" using None by (metis append_butlast_last_id fs_look.simps(1) option.distinct(1))
  have "fs_look (put_entry ns (Directory 0 []) fs) (butlast ns @ [last ns]) = Some (Directory 0 [])"
    using d by (simp only: fs_look_append put_entry_def fs_look_at_same) (simp add: AList.update_conv')
  with None d ns show ?thesis by (auto simp: mkdir_at_def dir_at_def)
qed

text \<open>The loop of \<open>Mkdirs\<close>: the finished components of \<open>acc\<close> are directories.\<close>

definition finished :: "string \<Rightarrow> string list" where
  "finished acc = filter (\<lambda>c. c \<noteq> []) (butlast (split_slash [] acc))"

lemma split_slash_ne [simp]: "split_slash acc s \<noteq> []"
  by (induction s arbitrary: acc) auto

lemma split_slash_last:
  obtains xs x where "split_slash [] acc = xs @ [x]" "comps acc = filter (\<lambda>c. c \<noteq> []) xs @ (if x = [] then [] else [x])"
    "finished acc = filter (\<lambda>c. c \<noteq> []) xs"
proof -
  obtain xs x where "split_slash [] acc = xs @ [x]" by (metis split_slash_ne append_butlast_last_id)
  then show thesis by (intro that[of xs x]) (auto simp: comps_def finished_def)
qed

lemma finished_snoc: "finished (acc @ [c]) = (if c = CHR ''/'' then comps acc else finished acc)"
proof -
  obtain xs x where x: "split_slash [] acc = xs @ [x]" "comps acc = filter (\<lambda>c. c \<noteq> []) xs @ (if x = [] then [] else [x])"
    "finished acc = filter (\<lambda>c. c \<noteq> []) xs" by (rule split_slash_last)
  from comps_snoc[OF x(1), of c] show ?thesis
    by (cases "c = CHR ''/''"; simp only: x(2,3)) (simp_all add: finished_def butlast_append)
qed

lemma dir_at_comps:
  assumes "passable fs (comps acc)" and "dir_at fs (finished acc)"
  shows "dir_at (snd (mkdir_at (comps acc) fs)) (comps acc)"
proof -
  obtain xs x where x: "comps acc = filter (\<lambda>c. c \<noteq> []) xs @ (if x = [] then [] else [x])"
    "finished acc = filter (\<lambda>c. c \<noteq> []) xs" by (rule split_slash_last)
  show ?thesis
  proof (cases "x = []")
    case True
    with x have "comps acc = finished acc" by simp
    with assms(2) mkdir_at_grows[of fs "comps acc"] show ?thesis by (auto simp: grows_def)
  next
    case False
    with assms(2) x show ?thesis by (intro mkdir_at_dir[OF assms(1)]) simp
  qed
qed

lemma mkdirs_loop:
  assumes "dir_at fs (finished acc)" and "passable fs (comps (acc @ rest))"
  shows "let fs' = fold (\<lambda>p fs. snd (mkdir_at (comps p) fs)) (mkdirs_paths acc rest) fs
     in dir_at fs' (comps (acc @ rest)) \<and> grows fs fs'"
  using assms
proof (induction rest arbitrary: acc fs)
  case Nil
  then show ?case using dir_at_comps[of fs acc] mkdir_at_grows by (simp add: Let_def)
next
  case (Cons c rest)
  have path: "acc @ c # rest = (acc @ [c]) @ rest" by simp
  show ?case
  proof (cases "c = CHR ''/'' \<and> acc \<noteq> []")
    case True
    let ?fs = "snd (mkdir_at (comps acc) fs)"
    have "passable fs (comps acc)"
      using Cons.prems(2) True unfolding passable_def by (simp add: comps_append) (metis append_eq_conv_conj take_append take_take)
    then have "dir_at ?fs (finished (acc @ [c]))" using dir_at_comps Cons.prems(1) True by (simp add: finished_snoc)
    moreover have g: "grows fs ?fs" by (rule mkdir_at_grows)
    ultimately show ?thesis
      using Cons.IH[of ?fs "acc @ [c]"] passable_grows[OF g Cons.prems(2)] True grows_trans[OF g] by (auto simp: Let_def)
  next
    case False
    then have "dir_at fs (finished (acc @ [c]))"
      using Cons.prems(1) by (cases "c = CHR ''/''") (simp_all add: finished_snoc, simp add: finished_def)
    from Cons.IH[OF this] Cons.prems(2) False show ?thesis by (auto simp: Let_def)
  qed
qed

section \<open>Properties\<close>

lemma all_nodes_found:
  "fs_look fs (comps path @ comps q) = Some d \<Longrightarrow> tree_ok d \<Longrightarrow> (n, x) \<in> set (all_nodes q d) \<Longrightarrow>
     fs_look fs (comps path @ comps n) = Some x"
  "(\<And>n d. (n, d) \<in> set es \<Longrightarrow> fs_look fs (comps path @ comps (prefix_name q n)) = Some d) \<Longrightarrow> entries_ok es \<Longrightarrow>
     (n, x) \<in> set (all_entries q es) \<Longrightarrow> fs_look fs (comps path @ comps n) = Some x"
proof (induction q d and q es rule: all_nodes_all_entries.induct)
  case (2 q i es)
  have "fs_look fs (comps path @ comps (prefix_name q m)) = Some d" if "(m, d) \<in> set es" for m d
    using fs_look_child[OF 2(2), of m d] 2(3) that by (auto simp: entries_ok_iff comps_prefix_name)
  from 2(1)[OF this] 2(3,4) show ?case by simp
qed auto

text \<open>
  Claim C26. \<open>GetDirNodesRecursively\<close> on a directory (its entries have proper, different names) always
  comes to an end. If no socket, block device or other leaf whose \<open>d_type\<close> has the bit of \<open>DT_DIR\<close> is
  below it, the result has every node of the tree once, with its path relative to the directory.
  Otherwise the scan takes such a leaf for a directory, \<open>opendir\<close> fails on it, and the null pointer is
  read.
\<close>

theorem scan_outcome:
  assumes "fs_look fs (comps path) = Some (Directory i es)" and "tree_ok (Directory i es)"
  shows "if clean (Directory i es)
    then \<exists>nodes. GetDirNodesRecursively fs path = Some (Inr nodes) \<and>
           mset nodes = mset (map (\<lambda>(n, d). dir_node n d) (all_nodes [] (Directory i es)))
    else GetDirNodesRecursively fs path = Some (Inl NullPointer)"
proof -
  have "list_all2 (queued fs path) [[]] [Directory i es]" using assms by (simp add: queued_def)
  from recurse_loop_all[OF this, of "[]"] show ?thesis
    by (auto simp: scan_result_def GetDirNodesRecursively_def below_def split: if_splits)
qed

definition work_tree :: fs_node where
  "work_tree = Directory 1 [(''w'', Directory 2 [(''o'', Directory 3 [(''a.o'', Leaf 4 DT_REG ''obj'')]), (''l'', Leaf 5 DT_LNK ''t'')])]"

definition socket_tree :: fs_node where
  "socket_tree = Directory 1 [(''w'', Directory 2 [(''o'', Directory 3 [(''s'', Leaf 4 DT_SOCK [])])])]"

lemma tree_look:
  "fs_look work_tree (comps ''/w'') = Some (Directory 2 [(''o'', Directory 3 [(''a.o'', Leaf 4 DT_REG ''obj'')]), (''l'', Leaf 5 DT_LNK ''t'')])"
  "fs_look socket_tree (comps ''/w'') = Some (Directory 2 [(''o'', Directory 3 [(''s'', Leaf 4 DT_SOCK [])])])"
  by (simp_all add: work_tree_def socket_tree_def comps_def)

lemmas tree_eval = name_ok_def d_types looks_like_dir_def has_bits_def prefix_name_def dir_node_def

theorem scan_outcome_witness:
  "(\<exists>nodes. GetDirNodesRecursively work_tree ''/w'' = Some (Inr nodes) \<and> mset (map dn_name nodes) = {#''o'', ''o/a.o'', ''l''#}) \<and>
   GetDirNodesRecursively socket_tree ''/w'' = Some (Inl NullPointer)"
proof
  show "\<exists>nodes. GetDirNodesRecursively work_tree ''/w'' = Some (Inr nodes) \<and> mset (map dn_name nodes) = {#''o'', ''o/a.o'', ''l''#}"
    using scan_outcome[OF tree_look(1)] by (auto simp: tree_eval)
  show "GetDirNodesRecursively socket_tree ''/w'' = Some (Inl NullPointer)"
    using scan_outcome[OF tree_look(2)] by (simp add: tree_eval)
qed

text \<open>The files \<open>ReadAll\<close> is expected to return: regular files and, because of the bit test, links.\<close>

fun file_entry :: "string \<times> fs_node \<Rightarrow> (string \<times> string) list" where
  "file_entry (n, Leaf i t c) = (if has_bits t DT_REG then [(n, c)] else [])"
| "file_entry (n, Directory i es) = []"

lemma read_entry:
  assumes "fs_look fs (comps (root @ ''/'' @ n)) = Some x"
  shows "map (\<lambda>node. (dn_name node, read_file fs (root @ ''/'' @ dn_name node))) (filter is_regular [dir_node n x]) = file_entry (n, x)"
  using assms by (cases x) (auto simp: dir_node_def read_file_def has_bits_def d_types)

lemma read_entries:
  assumes "\<And>n x. (n, x) \<in> set xs \<Longrightarrow> fs_look fs (comps (root @ ''/'' @ n)) = Some x"
  shows "map (\<lambda>node. (dn_name node, read_file fs (root @ ''/'' @ dn_name node))) (filter is_regular (named xs)) =
    concat (map file_entry xs)"
  using assms
proof (induction xs)
  case (Cons p xs)
  obtain n x where p: "p = (n, x)" by (cases p)
  with read_entry[of fs root n x] Cons show ?case by (auto split: if_splits)
qed simp

text \<open>
  \<open>TempDir::ReadAll\<close> of a subdirectory whose tree has no node that looks like a directory
  without being one returns every regular file and symbolic link below it exactly once, with its
  relative path and its content, and nothing else.
\<close>

lemma read_all_files:
  assumes "fs_look fs (comps (path @ ''/'' @ subdir)) = Some (Directory i es)"
    and "tree_ok (Directory i es)" and "clean (Directory i es)"
  shows "\<exists>files. TempDir_ReadAll fs path subdir = Some (Inr files) \<and>
    mset files = mset (concat (map file_entry (all_nodes [] (Directory i es))))"
proof -
  let ?root = "path @ ''/'' @ subdir" and ?d = "Directory i es"
  have "list_all2 (queued fs ?root) [[]] [?d]" using assms by (simp add: queued_def)
  from recurse_loop_all[OF this, of "[]"] assms(3) obtain nodes where
    nodes: "GetDirNodesRecursively fs ?root = Some (Inr nodes)" "mset nodes = mset (named (all_nodes [] ?d))"
    by (auto simp: scan_result_def GetDirNodesRecursively_def below_def)
  let ?read = "\<lambda>node. (dn_name node, read_file fs (?root @ ''/'' @ dn_name node))"
  have "fs_look fs (comps (?root @ ''/'' @ n)) = Some x" if "(n, x) \<in> set (all_nodes [] ?d)" for n x
    using all_nodes_found(1)[of fs ?root "[]" ?d n x] assms(1,2) that comps_append[of ?root n] by simp
  from read_entries[OF this] have "map ?read (filter is_regular (named (all_nodes [] ?d))) = concat (map file_entry (all_nodes [] ?d))"
    by blast
  moreover have "mset (map ?read (filter is_regular nodes)) = mset (map ?read (filter is_regular (named (all_nodes [] ?d))))"
    by (simp only: mset_map mset_filter nodes(2))
  ultimately show ?thesis using nodes(1) by (simp add: TempDir_ReadAll_def Let_def)
qed

lemma work_tree_files:
  "\<exists>files. TempDir_ReadAll work_tree ''/w'' [] = Some (Inr files) \<and> mset files = {#(''o/a.o'', ''obj''), (''l'', ''t'')#}"
proof -
  have "comps (''/w'' @ ''/'' @ []) = comps ''/w''" by (simp add: comps_def)
  from tree_look(1)[folded this] have "fs_look work_tree (comps (''/w'' @ ''/'' @ [])) = Some (Directory 2 [(''o'', Directory 3 [(''a.o'', Leaf 4 DT_REG ''obj'')]), (''l'', Leaf 5 DT_LNK ''t'')])" .
  from read_all_files[OF this] show ?thesis by (simp add: tree_eval)
qed

text \<open>
  Claim C28. \<open>RemoveDir\<close> of an existing directory always comes to an end and removes exactly the
  directory: afterwards its path does not exist, and every path that is neither below it nor above it
  is as before.
\<close>

theorem remove_dir_exact:
  assumes "fs_look fs (comps path) = Some (Directory i es)" and "tree_ok (Directory i es)" and "comps path \<noteq> []"
  shows "\<exists>fs'. RemoveDir path fs = Some (Inr fs') \<and> fs_look fs' (comps path) = None \<and>
    (\<forall>q. comps path \<parallel> q \<longrightarrow> fs_look fs' q = fs_look fs q)"
proof -
  have "RemoveDir path fs = remove_calls ((path, map fst es) # []) fs"
    using assms(1) by (simp add: RemoveDir_def opendir_def readdir_all_def remove_calls_simps)
  also have "\<dots> = Some (Inr (del_entry (comps path) fs))"
    using remove_calls_tree[OF assms(3,1), of "[]"] assms(2) by (simp add: remove_calls_simps)
  finally have run: "RemoveDir path fs = Some (Inr (del_entry (comps path) fs))" .
  obtain ns n where ns: "comps path = ns @ [n]" using assms(3) by (metis append_butlast_last_id)
  have look: "fs_look (del_entry (ns @ [n]) fs) (ns @ [n]) = None"
    unfolding del_entry_snoc fs_look_append fs_look_at_same
    by (cases "fs_look fs ns") (auto simp: fs_look_without)
  have rest: "fs_look (del_entry (ns @ [n]) fs) q = fs_look fs q" if "(ns @ [n]) \<parallel> q" for q
    using that by (rule fs_look_del_parallel)
  show ?thesis unfolding run ns using look rest by blast
qed

theorem remove_dir_exact_witness:
  "\<exists>fs'. RemoveDir ''/w'' work_tree = Some (Inr fs') \<and> fs_look fs' [''w''] = None \<and> fs_look fs' [''x''] = fs_look work_tree [''x'']"
proof -
  have w: "comps ''/w'' = [''w'']" by (simp add: comps_def)
  have "[''w''] \<parallel> [''x'']" by (simp add: parallel_def)
  with remove_dir_exact[OF tree_look(1)] w show ?thesis by (auto simp: tree_eval)
qed

text \<open>
  After \<open>Mkdirs\<close>, its path is a directory whenever no part of the path was something else than
  a directory before; every directory and every file that existed is still there, and no file is new.
\<close>

theorem mkdirs_creates:
  assumes "is_Directory fs" and "passable fs (comps path)"
  shows "dir_at (Mkdirs path fs) (comps path) \<and> grows fs (Mkdirs path fs)"
proof -
  have "dir_at fs (finished [])" using assms(1) by (cases fs) (simp_all add: finished_def dir_at_def)
  from mkdirs_loop[of fs "[]" path, OF this] assms(2) show ?thesis by (simp add: Mkdirs_def Let_def)
qed

theorem mkdirs_creates_witness:
  "dir_at (Mkdirs ''/w/o/new'' work_tree) [''w'', ''o'', ''new'']"
proof -
  have "passable work_tree (comps ''/w/o/new'')"
    by (auto simp: passable_def comps_def work_tree_def take_Cons split: nat.split)
  from mkdirs_creates[OF _ this] show ?thesis by (simp add: work_tree_def comps_def)
qed

end
