(* ===== verification/ServantFiles.thy ===== *)
theory ServantFiles
  imports CxxTask DirTree_Props
begin

text \<open>
  The files of a compilation on the servant: the directory made for it, what the compiler leaves in it,
  and what the task collects (\<open>MakeRelativeDir\<close> and \<open>GetOutput\<close> of \<open>cxx_task.cpp\<close> with \<open>TempDir\<close>).
\<close>

section \<open>Definitions\<close>

definition MakeRelativeDir :: "string \<Rightarrow> string \<Rightarrow> fs_node \<Rightarrow> string \<times> fs_node" where
  "MakeRelativeDir base_path dir_name fs =
     (let result = base_path @ ''/'' @ dir_name in (drop (length base_path + 1) result, Mkdirs result fs))"

text \<open>\<open>GetOutput\<close> on the directory of the task; the outer \<open>None\<close> is the scan that does not end.\<close>

definition collect_output :: "fs_node \<Rightarrow> int \<Rightarrow> CxxCompileTask \<Rightarrow> (fault + CompileOutput option) option" where
  "collect_output fs code t =
     (if code \<noteq> 0 then Some (GetOutput [] code t)
      else map_option (\<lambda>r. bind_fault r (\<lambda>files. GetOutput files code t)) (TempDir_ReadAll fs (work_dir t) []))"

section \<open>What is collected\<close>

lemma output_loop_ok:
  assumes "work \<noteq> []" and "hd work \<noteq> CHR 0x00"
  shows "\<forall>(f, c) \<in> set fs. length pfx \<le> length f \<and> length c < 2 ^ 32 \<Longrightarrow>
    \<exists>infos'. output_loop work pfx fs acc infos = Inr (Some (acc @ map (\<lambda>(f, c). (drop (length pfx) f, c)) fs, infos'))"
proof (induction fs arbitrary: acc infos)
  case (Cons p fs)
  obtain f c where p: "p = (f, c)" by (cases p)
  obtain ls where "FindPathLocations c (work @ ''/'' @ pfx) = Some ls"
    using location_loop_sound[of "work @ ''/'' @ pfx" c 0] assms Cons.prems p by (auto simp: FindPathLocations_def)
  with Cons.IH[of "acc @ [(drop (length pfx) f, c)]" "umap_set (drop (length pfx) f) ls infos"] Cons.prems p show ?case
    by (auto simp: Let_def)
qed simp

text \<open>What a compilation leaves: files named \<open>output\<close> with a suffix, in the directory of the task.\<close>

definition compiled_dir :: "string \<Rightarrow> (string \<times> u64 \<times> string) list \<Rightarrow> (string \<times> fs_node) list" where
  "compiled_dir sub outs = [(sub, Directory 0 (map (\<lambda>(sfx, i, c). (''output'' @ sfx, Leaf i DT_REG c)) outs))]"

lemma clean_entries_map: "clean_entries (map (\<lambda>(sfx, i, c). (g sfx, Leaf i DT_REG c)) outs)"
  by (induction outs) (auto simp: looks_like_dir_def has_bits_def d_types)

lemma entry_files:
  "concat (map file_entry (all_entries q (map (\<lambda>(sfx, i, c). (g sfx, Leaf i DT_REG c)) outs))) =
     map (\<lambda>(sfx, i, c). (prefix_name q (g sfx), c)) outs"
  by (induction outs) (auto simp: has_bits_def d_types)

lemma entries_ok_map:
  "(\<forall>(sfx, i, c) \<in> set outs. name_ok (g sfx)) \<Longrightarrow> entries_ok (map (\<lambda>(sfx, i, c). (g sfx, Leaf i DT_REG c)) outs)"
  by (induction outs) (auto simp: d_types)

text \<open>
  Claim C11. Every file a successful compilation leaves in the directory of its task, and nothing else,
  is collected for the client: under its suffix and with its content, each exactly once.
\<close>

theorem compiled_files_collected:
  assumes dir: "fs_look fs (comps (work_dir t)) = Some (Directory i (compiled_dir (temp_sub_dir t) outs))"
    and names: "name_ok (temp_sub_dir t)" "\<forall>(sfx, i, c) \<in> set outs. name_ok (''output'' @ sfx) \<and> length c < 2 ^ 32"
      "distinct (map fst outs)"
    and work: "work_dir t \<noteq> []" "hd (work_dir t) \<noteq> CHR 0x00"
  shows "\<exists>result. collect_output fs 0 t = Some (Inr (Some result)) \<and> mset (out_files result) = mset (map (\<lambda>(sfx, i, c). (sfx, c)) outs)"
proof -
  let ?sub = "temp_sub_dir t" and ?d = "Directory i (compiled_dir (temp_sub_dir t) outs)"
  let ?prefix = "?sub @ ''/output''"
  have "comps (work_dir t @ ''/'' @ []) = comps (work_dir t)" using comps_append[of "work_dir t" "[]"] by simp
  then have look: "fs_look fs (comps (work_dir t @ ''/'' @ [])) = Some ?d" using dir by simp
  have "distinct (map (\<lambda>(sfx, i, c). ''output'' @ sfx) outs)"
    using names(3) by (simp add: distinct_map inj_on_def split_def)
  then have ok: "tree_ok ?d" using names entries_ok_map[of outs "\<lambda>s. ''output'' @ s"]
    by (simp add: compiled_dir_def split_def comp_def)
  have clean: "clean ?d" using clean_entries_map[of "\<lambda>s. ''output'' @ s" outs] by (simp add: compiled_dir_def)
  have "?sub \<noteq> []" using names(1) by (simp add: name_ok_def)
  then have entries: "concat (map file_entry (all_nodes [] ?d)) = map (\<lambda>(sfx, i, c). (?prefix @ sfx, c)) outs"
    using entry_files[of ?sub "\<lambda>s. ''output'' @ s" outs] by (simp add: compiled_dir_def prefix_name_def split_def)
  from read_all_files[OF look ok clean] entries obtain files where
    files: "TempDir_ReadAll fs (work_dir t) [] = Some (Inr files)" "mset files = mset (map (\<lambda>(sfx, i, c). (?prefix @ sfx, c)) outs)"
    by auto
  have "\<forall>(f, c) \<in> set files. length ?prefix \<le> length f \<and> length c < 2 ^ 32"
    using names(2) mset_eq_setD[OF files(2)] by auto
  from output_loop_ok[OF work this, of "[]" "[]"] obtain infos where
    "output_loop (work_dir t) ?prefix files [] [] = Inr (Some (map (\<lambda>(f, c). (drop (length ?prefix) f, c)) files, infos))" by auto
  then have "collect_output fs 0 t = Some (Inr (Some \<lparr>out_files = map (\<lambda>(f, c). (drop (length ?prefix) f, c)) files, out_extra_info = Some infos\<rparr>))"
    using files(1) by (simp add: collect_output_def GetOutput_def)
  moreover have "mset (map (\<lambda>(f, c). (drop (length ?prefix) f, c)) files) = mset (map (\<lambda>(sfx, i, c). (sfx, c)) outs)"
    using arg_cong[OF files(2), of "image_mset (\<lambda>(f, c). (drop (length ?prefix) f, c))"]
    by (simp add: multiset.map_comp comp_def split_def)
  ultimately show ?thesis by auto
qed

definition compiled_task :: CxxCompileTask where
  "compiled_task = \<lparr>exit_code = 0, task_stdout = [], task_stderr = [], write_cache_future = None,
     task_env_desc = \<lparr>compiler_digest = ''cc''\<rparr>, cmdline = [], args = ''-c'', source = [], source_path = [],
     source_digest = ''d'', work_dir = ''/w'', temp_sub_dir = ''d'', file_pack = [], extra_info = None\<rparr>"

theorem compiled_files_collected_witness:
  "\<exists>result. collect_output (Directory 1 [(''w'', Directory 2 (compiled_dir ''d'' [(''.o'', 5, ''obj''), (''.gcno'', 6, ''cov'')]))]) 0 compiled_task =
     Some (Inr (Some result)) \<and> mset (out_files result) = {#(''.o'', ''obj''), (''.gcno'', ''cov'')#}"
proof -
  let ?outs = "[(''.o'', 5, ''obj''), (''.gcno'', 6, ''cov'')] :: (string \<times> u64 \<times> string) list"
  have "fs_look (Directory 1 [(''w'', Directory 2 (compiled_dir ''d'' ?outs))]) (comps (work_dir compiled_task)) =
      Some (Directory 2 (compiled_dir (temp_sub_dir compiled_task) ?outs))"
    by (simp add: compiled_task_def comps_def)
  from compiled_files_collected[OF this] show ?thesis by (simp add: compiled_task_def name_ok_def)
qed

text \<open>The directory for a task is made below its base, and its name is what is kept of the path.\<close>

lemma relative_dir:
  assumes "is_Directory fs" and "passable fs (comps (base_path @ ''/'' @ dir_name))"
  shows "fst (MakeRelativeDir base_path dir_name fs) = dir_name \<and>
    dir_at (snd (MakeRelativeDir base_path dir_name fs)) (comps base_path @ comps dir_name)"
  using mkdirs_creates[OF assms] by (simp add: MakeRelativeDir_def Let_def comps_append)

end
