(* ===== verification/Cache.thy ===== *)
theory Cache
  imports CxxTask SchedulerService ChunkStream
begin

text \<open>
  The compilation cache: the format of an entry (\<open>daemon/cache.h\<close>), writing it from the servant
  (\<open>daemon/cloud/cache_writer.cpp\<close>), reading it in the local daemon (\<open>daemon/local/cache_reader.cpp\<close>) and the
  cache server (\<open>cache/cache_service_impl.cpp\<close>).

  The functions of zstd, BLAKE3 and the serialisation of \<open>CacheMeta\<close> are arguments. The storage engines
  of the server are only declared in the sources, so their operations are arguments too.
\<close>

section \<open>Definitions\<close>

subsection \<open>Entries\<close>

record CacheMeta =
  cm_exit_code :: int
  cm_stdout :: string
  cm_stderr :: string
  cm_extra_info :: "(string, Location list) umap option"
  files_check_hash :: string

record CacheHeader =
  packed_size :: u64
  meta_size :: u32
  compression_algorithm :: u32

text \<open>The bytes of a header in memory, lowest byte first.\<close>

fun le_bytes :: "nat \<Rightarrow> nat \<Rightarrow> string" where
  "le_bytes 0 v = []"
| "le_bytes (Suc k) v = char_of (v mod 256) # le_bytes k (v div 256)"

fun of_le :: "string \<Rightarrow> nat" where
  "of_le [] = 0"
| "of_le (c # cs) = of_char c + 256 * of_le cs"

definition kHeaderSize :: nat where
  "kHeaderSize = 16"

definition header_bytes :: "CacheHeader \<Rightarrow> string" where
  "header_bytes h = le_bytes 8 (unat (packed_size h)) @ le_bytes 4 (unat (meta_size h)) @ le_bytes 4 (unat (compression_algorithm h))"

definition read_header :: "string \<Rightarrow> CacheHeader" where
  "read_header s =
     \<lparr>packed_size = of_nat (of_le (take 8 s)), meta_size = of_nat (of_le (take 4 (drop 8 s))),
      compression_algorithm = of_nat (of_le (take 4 (drop 12 s)))\<rparr>"

definition entry_meta :: "(string \<Rightarrow> string) \<Rightarrow> CacheEntry \<Rightarrow> CacheMeta" where
  "entry_meta blake3 entry =
     \<lparr>cm_exit_code = ce_exit_code entry, cm_stdout = ce_stdout entry, cm_stderr = ce_stderr entry,
      cm_extra_info = ce_extra_info entry, files_check_hash = blake3 (ce_packed entry)\<rparr>"

definition uncompressed_entry :: "(CacheMeta \<Rightarrow> string) \<Rightarrow> (string \<Rightarrow> string) \<Rightarrow> CacheEntry \<Rightarrow> string" where
  "uncompressed_entry serialize blake3 entry =
     (let meta_str = serialize (entry_meta blake3 entry)
      in header_bytes \<lparr>packed_size = of_nat (length (ce_packed entry)), meta_size = of_nat (length meta_str),
           compression_algorithm = 0\<rparr> @ meta_str @ ce_packed entry)"

definition TryMakeCacheData ::
  "(string \<Rightarrow> string option) \<Rightarrow> (CacheMeta \<Rightarrow> string) \<Rightarrow> (string \<Rightarrow> string) \<Rightarrow> CacheEntry \<Rightarrow> string option" where
  "TryMakeCacheData compress serialize blake3 entry = compress (uncompressed_entry serialize blake3 entry)"

text \<open>\<open>substr\<close> throws when it starts behind the end.\<close>

definition TryParseCacheEntry ::
  "(string \<Rightarrow> string option) \<Rightarrow> (string \<Rightarrow> CacheMeta option) \<Rightarrow> (string \<Rightarrow> string) \<Rightarrow> string \<Rightarrow> fault + CacheEntry option" where
  "TryParseCacheEntry decompress parse blake3 content =
     (case decompress content of
        None \<Rightarrow> Inr None
      | Some decompressed \<Rightarrow>
          if length decompressed < kHeaderSize then Inr None
          else (let header = read_header decompressed; msize = unat (meta_size header)
                in if (ucast (meta_size header) + packed_size header + of_nat kHeaderSize :: u64) \<noteq> of_nat (length content) then Inr None
                   else case parse (take msize (drop kHeaderSize decompressed)) of
                          None \<Rightarrow> Inr None
                        | Some meta \<Rightarrow>
                            if kHeaderSize + msize > length decompressed then Inl OutOfRange
                            else (let packed = drop (kHeaderSize + msize) decompressed
                                  in if files_check_hash meta \<noteq> blake3 packed then Inr None
                                     else Inr (Some \<lparr>ce_exit_code = cm_exit_code meta, ce_stdout = cm_stdout meta,
                                            ce_stderr = cm_stderr meta, ce_extra_info = cm_extra_info meta, ce_packed = packed\<rparr>))))"

subsection \<open>Writing\<close>

text \<open>
  The task that sends an entry. The promise of its result may be set once; the second time throws, which
  ends the task. \<open>writes\<close> has the results of the calls of \<open>Write\<close>, all of which succeed when it ends.
\<close>

record PutEntryRequest =
  pe_key :: string
  pe_token :: string

record PutEntryRequestChunk =
  pc_request :: "PutEntryRequest option"
  pc_file_chunk :: string

datatype task_end = TaskDone | TaskThrows | TaskCrashes

record WriteTask =
  wt_promise :: "bool option"
  wt_sent :: "PutEntryRequestChunk list"

definition set_promise :: "bool \<Rightarrow> WriteTask \<Rightarrow> task_end \<times> WriteTask" where
  "set_promise v t = (if wt_promise t = None then (TaskDone, t\<lparr>wt_promise := Some v\<rparr>) else (TaskThrows, t))"

fun write_chunks :: "bool list \<Rightarrow> PutEntryRequestChunk list \<Rightarrow> WriteTask \<Rightarrow> task_end \<times> WriteTask \<times> bool list" where
  "write_chunks writes [] t = (TaskDone, t, writes)"
| "write_chunks writes (c # cs) t =
     (case writes of
        False # ws \<Rightarrow>
          (case set_promise False t of (TaskDone, t') \<Rightarrow> write_chunks ws cs t' | (e, t') \<Rightarrow> (e, t', ws))
      | _ \<Rightarrow> write_chunks (tl writes) cs (t\<lparr>wt_sent := wt_sent t @ [c]\<rparr>))"

text \<open>
  \<open>runTask\<close>; \<open>None\<close> if the loop over the data does not end. A null stub or writer is dereferenced.
\<close>

definition runTask ::
  "bool \<Rightarrow> bool \<Rightarrow> bool list \<Rightarrow> StatusCode \<Rightarrow> string \<Rightarrow> u64 \<Rightarrow> string \<Rightarrow> string \<Rightarrow> (task_end \<times> WriteTask) option" where
  "runTask stub writer writes finish token chunk_size key content =
     (let t0 = \<lparr>wt_promise = None, wt_sent = []\<rparr>
      in if \<not> stub then Some (TaskCrashes, t0)
         else if \<not> writer then Some (TaskCrashes, snd (set_promise False t0))
         else map_option (\<lambda>cs.
           case write_chunks writes (\<lparr>pc_request = Some \<lparr>pe_key = key, pe_token = token\<rparr>, pc_file_chunk = []\<rparr> #
                  map (\<lambda>c. \<lparr>pc_request = None, pc_file_chunk = c\<rparr>) cs) t0 of
             (TaskDone, t, _) \<Rightarrow>
               if finish = StatusOK then set_promise True t
               else (case set_promise False t of (TaskDone, t') \<Rightarrow> set_promise True t' | r \<Rightarrow> r)
           | (e, t, _) \<Rightarrow> (e, t)) (chunk_loop chunk_size content))"

record CacheWriter =
  cw_stub :: bool

definition CacheWriter_new :: "string \<Rightarrow> CacheWriter" where
  "CacheWriter_new cache_server_location = \<lparr>cw_stub = (cache_server_location \<noteq> [])\<rparr>"

text \<open>The key and the data of the task that is started, if one is.\<close>

definition AsyncWrite ::
  "(string \<Rightarrow> string option) \<Rightarrow> (CacheMeta \<Rightarrow> string) \<Rightarrow> (string \<Rightarrow> string) \<Rightarrow> string \<Rightarrow> CacheEntry \<Rightarrow> CacheWriter \<Rightarrow>
   (bool \<times> string \<times> string) option" where
  "AsyncWrite compress serialize blake3 key entry w =
     (if ce_exit_code entry \<noteq> 0 then None
      else map_option (\<lambda>content. (cw_stub w, key, content)) (TryMakeCacheData compress serialize blake3 entry))"

subsection \<open>The server\<close>

record 'e CacheEngine =
  GetKeys :: "'e \<Rightarrow> string list"
  TryGet :: "string \<Rightarrow> 'e \<Rightarrow> string option \<times> 'e"
  Put :: "string \<Rightarrow> string \<Rightarrow> 'e \<Rightarrow> 'e"
  Purge :: "'e \<Rightarrow> 'e"

record 'e CacheService =
  user_token_verifier :: TokenVerifier
  servant_token_verifier :: TokenVerifier
  cache_miss :: u64
  cache_hits :: u64
  L1_cache :: "'e option"
  L2_cache :: "'e option"
  bloom_keys :: "string list"

definition CacheServiceImpl_new :: "string \<Rightarrow> string \<Rightarrow> 'e CacheService" where
  "CacheServiceImpl_new user_token servant_token =
     \<lparr>user_token_verifier = MakeTokenVerifier user_token, servant_token_verifier = MakeTokenVerifier servant_token,
      cache_miss = 0, cache_hits = 0, L1_cache = None, L2_cache = None, bloom_keys = []\<rparr>"

record TryGetEntryRequest =
  tg_key :: string
  tg_token :: string

text \<open>The status and the chunks sent; the outer \<open>None\<close> is the loop that does not end.\<close>

definition TryGetEntry ::
  "'e CacheEngine \<Rightarrow> u64 \<Rightarrow> TryGetEntryRequest \<Rightarrow> 'e CacheService \<Rightarrow> (fault + StatusCode \<times> string list \<times> 'e CacheService) option" where
  "TryGetEntry eng chunk_size request s =
     (if \<not> Verify (user_token_verifier s) (tg_token request) then Some (Inr (PERMISSION_DENIED, [], s))
      else case L1_cache s of
             None \<Rightarrow> Some (Inl NullPointer)
           | Some l1 \<Rightarrow>
               (let (bytes1, l1') = TryGet eng (tg_key request) l1; s1 = s\<lparr>L1_cache := Some l1'\<rparr>
                in case (case bytes1 of
                           Some b \<Rightarrow> Inr (Some b, s1)
                         | None \<Rightarrow>
                             (case L2_cache s1 of
                                None \<Rightarrow> Inl NullPointer
                              | Some l2 \<Rightarrow> (let (b, l2') = TryGet eng (tg_key request) l2 in Inr (b, s1\<lparr>L2_cache := Some l2'\<rparr>)))) of
                     Inl e \<Rightarrow> Some (Inl e)
                   | Inr (None, s2) \<Rightarrow> Some (Inr (NOT_FOUND, [], s2\<lparr>cache_miss := cache_miss s2 + 1\<rparr>))
                   | Inr (Some bytes, s2) \<Rightarrow>
                       (case L2_cache s2 of
                          None \<Rightarrow> Some (Inl NullPointer)
                        | Some l2 \<Rightarrow>
                            map_option (\<lambda>chunks. Inr (StatusOK, chunks,
                                s2\<lparr>cache_hits := cache_hits s2 + 1, L2_cache := Some (Put eng (tg_key request) bytes l2)\<rparr>))
                              (chunk_loop chunk_size bytes))))"

definition put_first :: "TokenVerifier \<Rightarrow> PutEntryRequestChunk \<Rightarrow> StatusCode + PutEntryRequest" where
  "put_first verifier chunk =
     (case pc_request chunk of
        None \<Rightarrow> Inl PERMISSION_DENIED
      | Some request \<Rightarrow>
          if pc_file_chunk chunk \<noteq> [] then Inl PERMISSION_DENIED
          else if \<not> Verify verifier (pe_token request) then Inl PERMISSION_DENIED
          else Inr request)"

definition put_more :: "PutEntryRequestChunk \<Rightarrow> StatusCode + string" where
  "put_more chunk = (if pc_request chunk \<noteq> None then Inl PERMISSION_DENIED else Inr (pc_file_chunk chunk))"

fun put_rest :: "string \<Rightarrow> PutEntryRequestChunk list \<Rightarrow> StatusCode + string" where
  "put_rest content [] = Inr content"
| "put_rest content (chunk # chunks) = bind_fault (put_more chunk) (\<lambda>c. put_rest (content @ c) chunks)"

text \<open>After an empty stream the request is a null pointer.\<close>

definition PutEntry ::
  "'e CacheEngine \<Rightarrow> PutEntryRequestChunk list \<Rightarrow> 'e CacheService \<Rightarrow> fault + StatusCode \<times> 'e CacheService" where
  "PutEntry eng frames s =
     (case frames of
        [] \<Rightarrow> Inl NullPointer
      | chunk # rest \<Rightarrow>
          (case bind_fault (put_first (servant_token_verifier s) chunk) (\<lambda>request.
                  bind_fault (put_rest [] rest) (\<lambda>content. Inr (request, content))) of
             Inl code \<Rightarrow> Inr (code, s)
           | Inr (request, content) \<Rightarrow>
               (case (L1_cache s, L2_cache s) of
                  (Some l1, Some l2) \<Rightarrow>
                    Inr (StatusOK, s\<lparr>L1_cache := Some (Put eng (pe_key request) content l1),
                                     L2_cache := Some (Put eng (pe_key request) content l2),
                                     bloom_keys := bloom_keys s @ [pe_key request]\<rparr>)
                | _ \<Rightarrow> Inl NullPointer)))"

text \<open>\<open>FetchBloomFilter\<close> answers OK with an empty response.\<close>

record FetchBloomFilterResponse =
  incremental :: bool
  newly_populated_keys :: "string list"

definition FetchBloomFilter :: "StatusCode \<times> FetchBloomFilterResponse" where
  "FetchBloomFilter = (StatusOK, \<lparr>incremental = False, newly_populated_keys = []\<rparr>)"

definition ServiceGetKeys :: "'e CacheEngine \<Rightarrow> 'e CacheService \<Rightarrow> fault + string list" where
  "ServiceGetKeys eng s =
     (case (L1_cache s, L2_cache s) of
        (Some l1, Some l2) \<Rightarrow> Inr (GetKeys eng l1 @ GetKeys eng l2)
      | _ \<Rightarrow> Inl NullPointer)"

definition OnTimerPurge :: "'e CacheEngine \<Rightarrow> 'e CacheService \<Rightarrow> fault + 'e CacheService" where
  "OnTimerPurge eng s =
     (case L1_cache s of None \<Rightarrow> Inl NullPointer | Some l1 \<Rightarrow> Inr (s\<lparr>L1_cache := Some (Purge eng l1)\<rparr>))"

definition OnTimerRebuild :: "'e CacheEngine \<Rightarrow> 'e CacheService \<Rightarrow> fault + 'e CacheService" where
  "OnTimerRebuild eng s = bind_fault (ServiceGetKeys eng s) (\<lambda>keys. Inr s)"

subsection \<open>Reading\<close>

text \<open>Time points count from the epoch of the clock; the Bloom filter of the daemon keeps nothing.\<close>

record CacheReader =
  cr_stub :: bool
  last_bf_update :: time_point
  last_bf_full_update :: time_point

record FetchBloomFilterRequest =
  secs_last_full_fetch :: u32
  secs_last_fetch :: u32

definition bloom_request :: "time_point \<Rightarrow> CacheReader \<Rightarrow> FetchBloomFilterRequest" where
  "bloom_request now r =
     (if last_bf_full_update r = 0 then \<lparr>secs_last_full_fetch = 0x7fffffff, secs_last_fetch = 0x7fffffff\<rparr>
      else \<lparr>secs_last_full_fetch = of_int ((now - last_bf_full_update r) div sec 1),
            secs_last_fetch = of_int ((now - last_bf_update r) div sec 1)\<rparr>)"

definition OnTimerLoadBloomFilter ::
  "(FetchBloomFilterRequest \<Rightarrow> StatusCode \<times> FetchBloomFilterResponse) \<Rightarrow> time_point \<Rightarrow> CacheReader \<Rightarrow> CacheReader" where
  "OnTimerLoadBloomFilter fetch now r =
     (case fetch (bloom_request now r) of
        (code, resp) \<Rightarrow>
          if code \<noteq> StatusOK then r
          else (let r1 = r\<lparr>last_bf_update := now\<rparr>
                in if incremental resp then r1 else r1\<lparr>last_bf_full_update := now\<rparr>))"

definition CacheReader_new ::
  "string \<Rightarrow> (FetchBloomFilterRequest \<Rightarrow> StatusCode \<times> FetchBloomFilterResponse) \<Rightarrow> time_point \<Rightarrow> time_point \<Rightarrow> CacheReader" where
  "CacheReader_new cache_server_location fetch now now' =
     (let r0 = \<lparr>cr_stub = False, last_bf_update = 0, last_bf_full_update = 0\<rparr>
      in if cache_server_location = [] then r0
         else (OnTimerLoadBloomFilter fetch now (r0\<lparr>cr_stub := True\<rparr>))\<lparr>last_bf_full_update := now', last_bf_update := now'\<rparr>)"

text \<open>The first statement of \<open>TryRead\<close> returns no entry; the rest of the function is never reached.\<close>

definition TryRead :: "string \<Rightarrow> CacheReader \<Rightarrow> CacheEntry option" where
  "TryRead key r = None"

end
