(* ===== verification/Cache_Props.thy ===== *)
theory Cache_Props
  imports Cache
begin

text \<open>
  The cache: what a stored entry is read back as, that the server returns what a servant has put, what
  the future of a write says, and where the code as it is cannot work.
\<close>

section \<open>Headers\<close>

lemma length_le_bytes [simp]: "length (le_bytes k v) = k"
  by (induction k arbitrary: v) auto

lemma of_le_bytes: "v < 256 ^ k \<Longrightarrow> of_le (le_bytes k v) = v"
  by (induction k arbitrary: v) (auto simp: less_mult_imp_div_less mult.commute)

lemma length_header_bytes [simp]: "length (header_bytes h) = kHeaderSize"
  by (simp add: header_bytes_def kHeaderSize_def)

lemma read_header_bytes: "read_header (header_bytes h @ rest) = h"
proof -
  have "unat (packed_size h) < 256 ^ 8" "unat (meta_size h) < 256 ^ 4" "unat (compression_algorithm h) < 256 ^ 4"
    using unsigned_less[of "packed_size h", where ?'a = nat] unsigned_less[of "meta_size h", where ?'a = nat]
      unsigned_less[of "compression_algorithm h", where ?'a = nat] by simp_all
  then show ?thesis by (simp add: read_header_def header_bytes_def of_le_bytes)
qed

section \<open>Writing\<close>

text \<open>The data frames a servant sends, as the server receives them.\<close>

definition put_head :: "PutEntryRequest \<Rightarrow> PutEntryRequestChunk" where
  "put_head r = \<lparr>pc_request = Some r, pc_file_chunk = []\<rparr>"

definition put_data :: "string \<Rightarrow> PutEntryRequestChunk" where
  "put_data c = \<lparr>pc_request = None, pc_file_chunk = c\<rparr>"

interpretation put_stream: chunk_stream put_head put_data "put_first v" put_more "\<lambda>r. Verify v (pe_token r)" for v
  by unfold_locales (auto simp: put_head_def put_data_def put_first_def put_more_def)

lemma put_rest_receive: "put_rest content fs = put_stream.receive_rest content fs"
  by (induction fs arbitrary: content) simp_all

lemma PutEntry_frames:
  assumes "Verify (servant_token_verifier s) token" and "0 < chunk_size" and "L1_cache s = Some l1" "L2_cache s = Some l2"
  obtains cs where "chunk_loop chunk_size content = Some cs"
    "PutEntry eng (put_head \<lparr>pe_key = key, pe_token = token\<rparr> # map put_data cs) s =
       Inr (StatusOK, s\<lparr>L1_cache := Some (Put eng key content l1), L2_cache := Some (Put eng key content l2),
                        bloom_keys := bloom_keys s @ [key]\<rparr>)"
proof -
  obtain cs where cs: "chunk_loop chunk_size content = Some cs"
    "bind_fault (put_first (servant_token_verifier s) (put_head \<lparr>pe_key = key, pe_token = token\<rparr>))
       (\<lambda>q. bind_fault (put_rest [] (map put_data cs)) (\<lambda>f. Inr (q, f))) = Inr (\<lparr>pe_key = key, pe_token = token\<rparr>, content)"
    using put_stream.receive_stream[of "servant_token_verifier s" "\<lparr>pe_key = key, pe_token = token\<rparr>" chunk_size content] assms(1,2)
    unfolding put_rest_receive by auto
  show thesis by (rule that[OF cs(1)]) (simp add: PutEntry_def cs(2) assms(3,4))
qed

text \<open>The promise says whether every write succeeded; only then does the task end regularly.\<close>

lemma write_chunks_promise:
  "write_chunks writes cs t = (e, t', ws) \<Longrightarrow>
     (if wt_promise t = None \<and> list_all (\<lambda>b. b) (take (length cs) writes)
      then e = TaskDone \<and> wt_promise t' = None \<and> wt_sent t' = wt_sent t @ cs
      else if wt_promise t = None then wt_promise t' = Some False else wt_promise t' = wt_promise t) \<and> e \<noteq> TaskCrashes"
proof (induction cs arbitrary: writes t e t' ws)
  case (Cons c cs)
  consider "writes = []" | ws' where "writes = True # ws'" | ws' where "writes = False # ws'" by (metis (full_types) neq_Nil_conv)
  then show ?case
  proof cases
    case 3
    with Cons.IH[of ws' "t\<lparr>wt_promise := Some False\<rparr>"] Cons.prems show ?thesis
      by (cases "wt_promise t") (auto simp: set_promise_def)
  qed (use Cons.IH[of _ "t\<lparr>wt_sent := wt_sent t @ [c]\<rparr>"] Cons.prems in \<open>fastforce split: if_splits\<close>)+
qed auto

section \<open>Properties\<close>

text \<open>
  Claim C39. What becomes of a stored entry: if decompression and parsing invert their counterparts and
  the sizes fit their fields, reading the data of an entry gives the entry back exactly when the
  compressed data is as long as the uncompressed; otherwise nothing, because the sizes in the header are
  compared with the size of the compressed data.
\<close>

theorem cache_entry_roundtrip:
  assumes zstd: "\<And>x y. compress x = Some y \<Longrightarrow> decompress y = Some x" 
    and meta: "parse (serialize (entry_meta blake3 entry)) = Some (entry_meta blake3 entry)"
    and made: "TryMakeCacheData compress serialize blake3 entry = Some content"
    and fits: "length (serialize (entry_meta blake3 entry)) < 2 ^ 32"
      "length (uncompressed_entry serialize blake3 entry) < 2 ^ 64" "length content < 2 ^ 64"
  shows "TryParseCacheEntry decompress parse blake3 content =
    Inr (if length content = length (uncompressed_entry serialize blake3 entry) then Some entry else None)"
proof -
  let ?m = "serialize (entry_meta blake3 entry)" and ?u = "uncompressed_entry serialize blake3 entry"
  let ?h = "\<lparr>packed_size = of_nat (length (ce_packed entry)), meta_size = of_nat (length ?m), compression_algorithm = 0\<rparr> :: CacheHeader"
  have u: "?u = header_bytes ?h @ ?m @ ce_packed entry" by (simp add: uncompressed_entry_def Let_def)
  have dec: "decompress content = Some ?u" using zstd made by (simp add: TryMakeCacheData_def)
  have header: "read_header ?u = ?h" by (simp add: u read_header_bytes)
  have msize: "unat (meta_size ?h) = length ?m" using fits(1) by (simp add: unat_of_nat_u32)
  have len: "length ?u = kHeaderSize + length ?m + length (ce_packed entry)" by (simp add: u)
  have sum: "(ucast (meta_size ?h) + packed_size ?h + of_nat kHeaderSize :: u64) = of_nat (length ?u)"
  proof -
    have "(ucast (of_nat (length ?m) :: u32) :: u64) = of_nat (length ?m)"
      using fits(1) by (simp add: word_unat_eq_iff unsigned_ucast_eq unat_of_nat take_bit_nat_eq_self_iff)
    then show ?thesis by (simp add: len)
  qed
  have same: "(of_nat (length ?u) :: u64) = of_nat (length content) \<longleftrightarrow> length content = length ?u"
    using fits(2,3) by (auto simp: of_nat_eq_u64)
  have parts: "take (length ?m) (drop kHeaderSize ?u) = ?m" "drop (kHeaderSize + length ?m) ?u = ce_packed entry" by (simp_all add: u)
  have ok: "\<not> length ?u < kHeaderSize" "\<not> length ?u < kHeaderSize + length ?m" by (simp_all add: len)
  show ?thesis
    unfolding TryParseCacheEntry_def dec option.case Let_def header msize sum same parts meta if_not_P[OF ok(1)] if_not_P[OF ok(2)]
    by (simp add: entry_meta_def)
qed

definition demo_entry :: CacheEntry where
  "demo_entry = \<lparr>ce_exit_code = 0, ce_stdout = [], ce_stderr = [], ce_extra_info = None, ce_packed = ''pack''\<rparr>"

text \<open>One compression keeps the length, the other adds a byte.\<close>

theorem cache_entry_roundtrip_witness:
  "TryParseCacheEntry Some (\<lambda>_. Some (entry_meta rev demo_entry)) rev (uncompressed_entry (\<lambda>_. ''meta'') rev demo_entry) = Inr (Some demo_entry) \<and>
   TryParseCacheEntry (\<lambda>y. Some (butlast y)) (\<lambda>_. Some (entry_meta rev demo_entry)) rev
     (uncompressed_entry (\<lambda>_. ''meta'') rev demo_entry @ ''z'') = Inr None"
proof
  have len: "length (uncompressed_entry (\<lambda>_. ''meta'') rev demo_entry) = 24"
    by (simp add: uncompressed_entry_def Let_def kHeaderSize_def demo_entry_def)
  show "TryParseCacheEntry Some (\<lambda>_. Some (entry_meta rev demo_entry)) rev (uncompressed_entry (\<lambda>_. ''meta'') rev demo_entry) = Inr (Some demo_entry)"
    by (subst cache_entry_roundtrip[where compress = Some and serialize = "\<lambda>_. ''meta''" and entry = demo_entry])
       (simp_all add: TryMakeCacheData_def len)
  show "TryParseCacheEntry (\<lambda>y. Some (butlast y)) (\<lambda>_. Some (entry_meta rev demo_entry)) rev
     (uncompressed_entry (\<lambda>_. ''meta'') rev demo_entry @ ''z'') = Inr None"
    by (subst cache_entry_roundtrip[where compress = "\<lambda>x. Some (x @ ''z'')" and serialize = "\<lambda>_. ''meta''" and entry = demo_entry])
       (auto simp: TryMakeCacheData_def len)
qed

text \<open>An engine returns what was put last.\<close>

definition engine_law :: "'e CacheEngine \<Rightarrow> bool" where
  "engine_law eng \<longleftrightarrow> (\<forall>k v e. fst (TryGet eng k (Put eng k v e)) = Some v)"


text \<open>An engine that keeps everything.\<close>

definition map_engine :: "(string, string) umap CacheEngine" where
  "map_engine = \<lparr>GetKeys = map fst, TryGet = (\<lambda>k m. (umap_find m k, m)), Put = umap_set, Purge = (\<lambda>m. m)\<rparr>"

lemma map_engine_law: "engine_law map_engine"
  by (simp add: engine_law_def map_engine_def)

definition running_server :: "(string, string) umap CacheService" where
  "running_server = (CacheServiceImpl_new ''u'' ''s'')\<lparr>L1_cache := Some [], L2_cache := Some []\<rparr>"

lemma running_server_tokens: "Verify (servant_token_verifier running_server) ''s''" "Verify (user_token_verifier running_server) ''u''"
  by (code_simp, code_simp)


text \<open>
  The server as it is built has no engines: the first purge (which the timer runs at once), the
  first rebuild, every lookup with a valid token and every well-formed entry with a valid token end in a
  null pointer, and so does an empty stream to \<open>PutEntry\<close>, which needs no token.
\<close>

theorem cache_server_crashes:
  fixes eng :: "'e CacheEngine"
  shows "let s = CacheServiceImpl_new user servant in
    OnTimerPurge eng s = Inl NullPointer \<and> OnTimerRebuild eng s = Inl NullPointer \<and>
    (\<forall>chunk_size request. TryGetEntry eng chunk_size request s =
       (if Verify (MakeTokenVerifier user) (tg_token request) then Some (Inl NullPointer) else Some (Inr (PERMISSION_DENIED, [], s)))) \<and>
    (\<forall>frames. (\<exists>code. PutEntry eng frames s = Inr (code, s) \<and> code \<noteq> StatusOK) \<or> PutEntry eng frames s = Inl NullPointer) \<and>
    PutEntry eng [] s = Inl NullPointer"
proof -
  define s :: "'e CacheService" where "s = CacheServiceImpl_new user servant"
  have null: "L1_cache s = None" "L2_cache s = None" "user_token_verifier s = MakeTokenVerifier user"
    by (simp_all add: s_def CacheServiceImpl_new_def)
  have "(\<exists>code. PutEntry eng frames s = Inr (code, s) \<and> code \<noteq> StatusOK) \<or> PutEntry eng frames s = Inl NullPointer" for frames
  proof (cases frames)
    case (Cons chunk rest)
    have first: "put_first v c = Inl code \<Longrightarrow> code = PERMISSION_DENIED" for v c code
      by (auto simp: put_first_def split: option.splits if_splits)
    have rest: "put_rest acc fs = Inl code \<Longrightarrow> code = PERMISSION_DENIED" for acc fs code
      by (induction fs arbitrary: acc) (auto simp: put_more_def split: if_splits)
    show ?thesis
      by (cases "put_first (servant_token_verifier s) chunk"; cases "put_rest [] rest")
         (auto simp: PutEntry_def Cons null dest: first rest)
  qed (simp add: PutEntry_def)
  then show ?thesis unfolding s_def[symmetric] Let_def by (auto simp: OnTimerPurge_def OnTimerRebuild_def ServiceGetKeys_def TryGetEntry_def PutEntry_def null)
qed

text \<open>
  The future of a write tells the truth: with a stub and a writer it is true exactly when the
  first frame, every chunk and the call as a whole succeeded; in every other case the second setting of
  the promise throws, which is how the task ends.
\<close>

theorem write_future_truthful:
  assumes "runTask True True writes finish token chunk_size key content = Some (e, t)" and "chunk_loop chunk_size content = Some cs"
  shows "wt_promise t = Some (list_all (\<lambda>b. b) (take (Suc (length cs)) writes) \<and> finish = StatusOK) \<and>
    (e = TaskDone \<longleftrightarrow> wt_promise t = Some True) \<and> e \<noteq> TaskCrashes"
proof -
  let ?frames = "put_head \<lparr>pe_key = key, pe_token = token\<rparr> # map put_data cs"
  obtain e1 t1 ws where w: "write_chunks writes ?frames \<lparr>wt_promise = None, wt_sent = []\<rparr> = (e1, t1, ws)" by (metis surj_pair)
  note p = write_chunks_promise[OF w]
  have run: "(e, t) = (if e1 = TaskDone
      then if finish = StatusOK then set_promise True t1
           else (case set_promise False t1 of (TaskDone, t') \<Rightarrow> set_promise True t' | r \<Rightarrow> r)
      else (e1, t1))"
    using assms w by (cases e1) (simp_all add: runTask_def put_head_def put_data_def[abs_def])
  show ?thesis
    using p run by (cases e1) (auto simp: set_promise_def split: if_splits)
qed

theorem write_future_truthful_witness:
  "\<exists>e t. runTask True True [True, False] StatusOK ''s'' 3 ''key'' ''abcd'' = Some (e, t) \<and> wt_promise t = Some False \<and> e = TaskThrows"
proof -
  have cs: "chunk_loop 3 ''abcd'' = Some [''abc'', ''d'']" by (simp add: chunk_loop.simps)
  obtain e t where run: "runTask True True [True, False] StatusOK ''s'' 3 ''key'' ''abcd'' = Some (e, t)"
    using cs by (cases "the (runTask True True [True, False] StatusOK ''s'' 3 ''key'' ''abcd'')") (simp add: runTask_def)
  from write_future_truthful[OF run cs] run show ?thesis by (cases e) auto
qed

text \<open>
  A servant without a cache server dies of a successful compilation: if no location is
  configured and the completion of a task hands an entry to the cache writer, the task it starts uses
  the null stub, whatever the rest of the surroundings does.
\<close>

theorem unconfigured_cache_crashes:
  assumes "OnCompleted blake3 compress output_files code std_out std_err task = Inr (Some (task', Some (key, entry)))"
    and "compress (uncompressed_entry serialize blake3 entry) = Some content"
  shows "\<exists>stub. AsyncWrite compress serialize blake3 key entry (CacheWriter_new []) = Some (stub, key, content) \<and>
    runTask stub writer writes finish token chunk_size key content = Some (TaskCrashes, \<lparr>wt_promise = None, wt_sent = []\<rparr>)"
proof -
  have "ce_exit_code entry = 0"
    using assms(1) by (auto simp: OnCompleted_def Let_def split: option.splits if_splits)
  then show ?thesis
    using assms(2) by (intro exI[of _ False]) (simp add: AsyncWrite_def TryMakeCacheData_def CacheWriter_new_def runTask_def Let_def)
qed

definition cached_task :: CxxCompileTask where
  "cached_task = \<lparr>exit_code = 0, task_stdout = [], task_stderr = [], write_cache_future = Some False,
     task_env_desc = \<lparr>compiler_digest = ''cc''\<rparr>, cmdline = [], args = ''-c'', source = [], source_path = [],
     source_digest = ''d'', work_dir = ''/tmp'', temp_sub_dir = ''t'', file_pack = [], extra_info = None\<rparr>"

theorem unconfigured_cache_crashes_witness:
  "\<exists>task' key entry stub content. OnCompleted (\<lambda>x. x) Some [] 0 [] [] cached_task = Inr (Some (task', Some (key, entry))) \<and>
     AsyncWrite Some (\<lambda>_. ''m'') (\<lambda>x. x) key entry (CacheWriter_new []) = Some (stub, key, content) \<and>
     runTask stub True [] StatusOK [] 1 key content = Some (TaskCrashes, \<lparr>wt_promise = None, wt_sent = []\<rparr>)"
proof -
  obtain task' key entry where run: "OnCompleted (\<lambda>x. x) Some [] 0 [] [] cached_task = Inr (Some (task', Some (key, entry)))"
    by (simp add: OnCompleted_def GetOutput_def GetCacheKey_def cached_task_def Let_def)
  from unconfigured_cache_crashes[OF run refl, of "\<lambda>_. ''m''" True "[]" StatusOK "[]" 1] run show ?thesis by blast
qed

end
