(* ===== verification/Zstd.thy ===== *)
theory Zstd
  imports Prelude
begin

text \<open>
  \<open>common/crypto/zstd.h\<close>: compressing and decompressing a string at once. The functions of zstd are
  parameters: \<open>compressBound\<close>, \<open>compress\<close> (from the size of the buffer and the input, the compressed bytes
  or an error), and \<open>decompressStream\<close>, which from its context, the input left and the size of the output
  buffer gives the bytes consumed, the bytes produced, and an error or how much input it still expects.
\<close>

section \<open>Definitions\<close>

definition ZSTDCompress :: "(nat \<Rightarrow> nat) \<Rightarrow> (nat \<Rightarrow> string \<Rightarrow> string option) \<Rightarrow> string \<Rightarrow> string option" where
  "ZSTDCompress compressBound compress from = compress (compressBound (length from)) from"

type_synonym 'z decompressor = "'z \<Rightarrow> string \<Rightarrow> nat \<Rightarrow> nat \<times> string \<times> nat option \<times> 'z"

text \<open>
  The two loops: while there is input, and then while \<open>decompressStream\<close> is not done. The inner \<open>None\<close> is
  the error, the outer one that the loop does not end.
\<close>

partial_function (option) decompress_rest ::
  "'z decompressor \<Rightarrow> nat \<Rightarrow> 'z \<Rightarrow> nat \<Rightarrow> string \<Rightarrow> string option option" where
  "decompress_rest dec room ctx hint acc =
     (if hint = 0 then Some (Some acc)
      else case dec ctx [] room of
             (n, out, result, ctx') \<Rightarrow>
               (case result of None \<Rightarrow> Some None | Some hint' \<Rightarrow> decompress_rest dec room ctx' hint' (acc @ out)))"

partial_function (option) decompress_input ::
  "'z decompressor \<Rightarrow> nat \<Rightarrow> 'z \<Rightarrow> string \<Rightarrow> nat \<Rightarrow> string \<Rightarrow> string option option" where
  "decompress_input dec room ctx from hint acc =
     (if from = [] then decompress_rest dec room ctx hint acc
      else case dec ctx from room of
             (n, out, result, ctx') \<Rightarrow>
               (case result of
                  None \<Rightarrow> Some None
                | Some hint' \<Rightarrow> decompress_input dec room ctx' (drop n from) hint' (acc @ out)))"

definition ZSTDDecompress :: "'z decompressor \<Rightarrow> nat \<Rightarrow> 'z \<Rightarrow> string \<Rightarrow> string option option" where
  "ZSTDDecompress dec room ctx from = decompress_input dec room ctx from 0 []"

section \<open>Whole frames\<close>

text \<open>
  What the documentation of \<open>ZSTD_decompressStream\<close> promises on whole frames. \<open>R ctx rest out\<close>: the context,
  given \<open>rest\<close>, has \<open>out\<close> still to produce. A call consumes a prefix of the input and produces a prefix of
  the output, makes progress while there is something left, which \<open>work\<close> measures, and returns 0 exactly
  when a frame is completely decoded and flushed; at the end of the input this means that nothing is left.
\<close>

definition dstream_contract :: "'z decompressor \<Rightarrow> nat \<Rightarrow> ('z \<Rightarrow> string \<Rightarrow> string \<Rightarrow> bool) \<Rightarrow> ('z \<Rightarrow> nat) \<Rightarrow> bool" where
  "dstream_contract dec room R work \<longleftrightarrow>
     (\<forall>ctx rest out n p result ctx'.
        R ctx rest out \<and> dec ctx rest room = (n, p, result, ctx') \<longrightarrow>
          n \<le> length rest \<and> (\<exists>q hint. out = p @ q \<and> R ctx' (drop n rest) q \<and> result = Some hint \<and>
            (hint = 0 \<and> drop n rest = [] \<longrightarrow> q = [])) \<and>
          (rest \<noteq> [] \<longrightarrow> 0 < n \<or> work ctx' < work ctx) \<and> (rest = [] \<longrightarrow> work ctx' < work ctx \<or> result = Some 0))"

lemma dstream_step:
  assumes "dstream_contract dec room R work" and "R ctx rest out" and "dec ctx rest room = (n, p, result, ctx')"
  obtains q hint where "n \<le> length rest" "out = p @ q" "R ctx' (drop n rest) q" "result = Some hint"
    "hint = 0 \<Longrightarrow> drop n rest = [] \<Longrightarrow> q = []" "rest \<noteq> [] \<Longrightarrow> 0 < n \<or> work ctx' < work ctx"
    "rest = [] \<Longrightarrow> work ctx' < work ctx \<or> hint = 0"
proof -
  have "n \<le> length rest \<and> (\<exists>q hint. out = p @ q \<and> R ctx' (drop n rest) q \<and> result = Some hint \<and>
            (hint = 0 \<and> drop n rest = [] \<longrightarrow> q = [])) \<and>
          (rest \<noteq> [] \<longrightarrow> 0 < n \<or> work ctx' < work ctx) \<and> (rest = [] \<longrightarrow> work ctx' < work ctx \<or> result = Some 0)"
    using assms unfolding dstream_contract_def by blast
  then show thesis using that by auto
qed

lemma decompress_rest_all:
  assumes dec: "dstream_contract dec room R work"
  shows "R ctx [] out \<Longrightarrow> (hint = 0 \<Longrightarrow> out = []) \<Longrightarrow> decompress_rest dec room ctx hint acc = Some (Some (acc @ out))"
proof (induction "work ctx" arbitrary: ctx out hint acc rule: less_induct)
  case less
  show ?case
  proof (cases "hint = 0")
    case True
    with less.prems show ?thesis by (subst decompress_rest.simps) simp
  next
    case False
    obtain n p result ctx' where step: "dec ctx [] room = (n, p, result, ctx')" by (metis surj_pair)
    obtain q hint' where q: "out = p @ q" "R ctx' [] q" "result = Some hint'" "hint' = 0 \<Longrightarrow> q = []" "work ctx' < work ctx \<or> hint' = 0"
      using dstream_step[OF dec less.prems(1) step] by (metis drop_Nil)
    have "decompress_rest dec room ctx' hint' (acc @ p) = Some (Some ((acc @ p) @ q))"
    proof (cases "hint' = 0")
      case True
      with q(4) show ?thesis by (subst decompress_rest.simps) simp
    next
      case False
      with q less.hyps[of ctx' q hint' "acc @ p"] show ?thesis by auto
    qed
    with False step q show ?thesis by (subst decompress_rest.simps) simp
  qed
qed

lemma decompress_input_all:
  assumes dec: "dstream_contract dec room R work"
  shows "R ctx from out \<Longrightarrow> (hint = 0 \<Longrightarrow> from = [] \<Longrightarrow> out = []) \<Longrightarrow>
     decompress_input dec room ctx from hint acc = Some (Some (acc @ out))"
proof (induction "(length from, work ctx)" arbitrary: ctx "from" out hint acc rule: wf_induct_rule[OF wf_lex_prod[OF wf_less_than wf_less_than]])
  case 1
  show ?case
  proof (cases "from = []")
    case True
    with 1(2,3) decompress_rest_all[OF dec, of ctx out hint acc] show ?thesis by (subst decompress_input.simps) simp
  next
    case False
    obtain n p result ctx' where step: "dec ctx from room = (n, p, result, ctx')" by (metis surj_pair)
    from dstream_step[OF dec 1(2) step] False obtain q hint' where q: "n \<le> length from" "out = p @ q" "R ctx' (drop n from) q"
      "result = Some hint'" "hint' = 0 \<Longrightarrow> drop n from = [] \<Longrightarrow> q = []" "0 < n \<or> work ctx' < work ctx" by metis
    have "((length (drop n from), work ctx'), (length from, work ctx)) \<in> less_than <*lex*> less_than" using q(1,6) False by auto
    from 1(1)[OF this q(3) q(5), of hint' "acc @ p"] step False q(2,4) show ?thesis
      by (subst decompress_input.simps) simp
  qed
qed

text \<open>
  \<open>ZSTDDecompress\<close> of a whole frame comes to an end and yields all of the output, however it is cut into
  buffers.
\<close>

theorem decompress_whole_frame:
  assumes "dstream_contract dec room R work" and "R ctx from out" and "from \<noteq> []"
  shows "ZSTDDecompress dec room ctx from = Some (Some out)"
  using decompress_input_all[OF assms(1,2), of 0 "[]"] assms(3) by (simp add: ZSTDDecompress_def)

end
