(* ===== verification/Surroundings.thy ===== *)
theory Surroundings
  imports Command_Props Decimal
begin

text \<open>
  \<open>daemon/cloud/temp_file.cpp\<close>, the environment the client reads (\<open>client/common/config.cpp\<close>) and the
  account the daemon would run under (\<open>daemon/privilege.h\<close>).
\<close>

section \<open>Definitions\<close>

subsection \<open>Temporary files\<close>

record TempFile =
  tf_fd :: nat
  tf_path :: string

text \<open>
  The name is cut to the 255 bytes of the buffer before \<open>mkostemps\<close> replaces its last six characters
  by \<open>unique\<close>; the path is read back from the descriptor, at most 256 bytes of it. \<open>mkostemps\<close> fails
  unless the name ends in six \<open>X\<close>; then the descriptor is -1, which the check takes for valid.
\<close>

definition temp_template :: "string \<Rightarrow> nat \<Rightarrow> string" where
  "temp_template temp_dir now = take 255 (temp_dir @ ''/distribuild_'' @ to_string now @ ''_XXXXXX'')"

definition mkostemps :: "string \<Rightarrow> string \<Rightarrow> string option" where
  "mkostemps name unique =
     (if 6 \<le> length name \<and> drop (length name - 6) name = ''XXXXXX'' then Some (take (length name - 6) name @ unique) else None)"

definition TempFile_new :: "string \<Rightarrow> nat \<Rightarrow> string \<Rightarrow> nat \<Rightarrow> TempFile option" where
  "TempFile_new temp_dir now unique fd =
     map_option (\<lambda>path. \<lparr>tf_fd = fd, tf_path = take 256 path\<rparr>) (mkostemps (temp_template temp_dir now) unique)"

text \<open>One call of \<open>WriteTo\<close>, whose result is not looked at; \<open>content\<close> is what the file has.\<close>

definition TempFile_Write :: "sys_result list \<Rightarrow> sys_errno \<Rightarrow> string \<Rightarrow> string \<Rightarrow> string option" where
  "TempFile_Write results e buf content =
     map_option (\<lambda>(bytes, e'). content @ take (nat bytes) buf) (WriteTo results e buf 0)"

definition TempFile_ReadAll :: "(string, string) umap \<Rightarrow> TempFile \<Rightarrow> string option" where
  "TempFile_ReadAll files f = umap_find files (tf_path f)"

definition TempFile_Close :: "TempFile \<Rightarrow> fd_table \<Rightarrow> TempFile \<times> fd_table" where
  "TempFile_Close f t = (f\<lparr>tf_fd := 0, tf_path := []\<rparr>, if tf_fd f \<noteq> 0 then close_fd (tf_fd f) t else t)"

subsection \<open>The client's environment\<close>

definition INT_MAX :: int where "INT_MAX = 2 ^ 31 - 1"

definition stoi :: "string \<Rightarrow> fault + int" where
  "stoi s = bind_fault (stol s) (\<lambda>v. if v < - INT_MAX - 1 \<or> INT_MAX < v then Inl OutOfRange else Inr v)"

text \<open>The variable \<open>CACHE_CONTROL\<close>; \<open>CacheControl::Allow\<close> is 1.\<close>

definition GetCacheControl :: "string option \<Rightarrow> fault + int" where
  "GetCacheControl env = (case env of Some v \<Rightarrow> stoi v | None \<Rightarrow> Inr 1)"

definition GetDaemonAddr :: string where "GetDaemonAddr = ''127.0.0.1''"

definition GetDaemonPort :: nat where "GetDaemonPort = 8080"

subsection \<open>Privileges\<close>

definition IsRunningAsRoot :: "nat \<Rightarrow> nat \<Rightarrow> bool" where
  "IsRunningAsRoot uid euid \<longleftrightarrow> uid = 0 \<or> euid = 0"

fun first_user :: "(string \<Rightarrow> (nat \<times> nat) option) \<Rightarrow> string list \<Rightarrow> nat \<times> nat" where
  "first_user getpwnam [] = (65534, 65534)"
| "first_user getpwnam (name # names) = (case getpwnam name of Some pw \<Rightarrow> pw | None \<Rightarrow> first_user getpwnam names)"

definition GetAvailableUser :: "(string \<Rightarrow> (nat \<times> nat) option) \<Rightarrow> nat \<times> nat" where
  "GetAvailableUser getpwnam = first_user getpwnam [''distribuild'', ''daemon'', ''nobody'']"

text \<open>The identity of the process after \<open>DropPrivilege\<close>: neither branch changes it.\<close>

definition DropPrivilege :: "nat \<times> nat \<Rightarrow> nat \<times> nat" where
  "DropPrivilege ids = (if \<not> IsRunningAsRoot (fst ids) (snd ids) then ids else ids)"

section \<open>What holds of them\<close>

lemma mkostemps_template: "mkostemps (base @ ''XXXXXX'') unique = Some (base @ unique)"
  by (simp add: mkostemps_def)

text \<open>A directory of moderate length gives a file of the full name in it.\<close>

lemma temp_file_name:
  assumes "length temp_dir + length (to_string now) \<le> 230" and "length unique = 6"
  shows "TempFile_new temp_dir now unique fd =
    Some \<lparr>tf_fd = fd, tf_path = temp_dir @ ''/distribuild_'' @ to_string now @ ''_'' @ unique\<rparr>"
proof -
  let ?base = "temp_dir @ ''/distribuild_'' @ to_string now @ ''_''"
  have "temp_template temp_dir now = ?base @ ''XXXXXX''" using assms(1) by (simp add: temp_template_def)
  then show ?thesis using assms unfolding TempFile_new_def by (simp only: mkostemps_template) simp
qed

text \<open>
  The standard input of the compiler is the source when the first write that is not interrupted takes
  all of it, and only a part of it otherwise; nobody notices.
\<close>

lemma temp_file_source:
  assumes "buf \<noteq> []"
  shows "TempFile_Write (replicate k (Failed EINTR) @ results) e buf [] =
    Some (case results of
            Transferred n # rs \<Rightarrow> take (Suc n) buf
          | Failed EINTR # rs \<Rightarrow> the (TempFile_Write rs EINTR buf [])
          | Failed x # rs \<Rightarrow> []
          | [] \<Rightarrow> buf)"
proof (induction k arbitrary: e)
  case 0
  have len: "0 < length buf" using assms by simp
  have some: "\<exists>y. WriteTo rs e' buf 0 = Some y" for rs e' using WriteTo_rest[OF len, of rs e'] by blast
  show ?case
  proof (cases results)
    case Nil
    then show ?thesis by (simp add: TempFile_Write_def WriteTo_step[OF len])
  next
    case (Cons r rs)
    show ?thesis
    proof (cases r)
      case (Transferred n)
      then show ?thesis using Cons by (simp add: TempFile_Write_def WriteTo_step[OF len] min_def)
    next
      case (Failed x)
      then show ?thesis using Cons some[of rs EINTR] by (cases x) (auto simp: TempFile_Write_def WriteTo_step[OF len])
    qed
  qed
next
  case (Suc k)
  have len: "0 < length buf" using assms by simp
  have "TempFile_Write (replicate (Suc k) (Failed EINTR) @ results) e buf [] = TempFile_Write (replicate k (Failed EINTR) @ results) EINTR buf []"
    by (simp add: TempFile_Write_def WriteTo_step[OF len])
  with Suc show ?case by simp
qed

text \<open>Closing a file leaves it where it is: only the descriptor is given back.\<close>

lemma temp_file_closed:
  assumes "tf_fd f \<noteq> 0"
  shows "umap_find (snd (TempFile_Close f t)) fd = (if fd = tf_fd f then None else umap_find t fd)"
  using assms by (simp add: TempFile_Close_def close_fd_def umap.look_del)

text \<open>A \<open>CACHE_CONTROL\<close> that is no number ends the client with an uncaught exception.\<close>

lemma cache_control_words: "GetCacheControl (Some ''off'') = Inl InvalidArgument" "GetCacheControl (Some ''0'') = Inr 0"
  by code_simp+

lemma root_stays_root: "DropPrivilege ids = ids"
  by (simp add: DropPrivilege_def)

end
