(* ===== verification/GrantFetcher.thy ===== *)
theory GrantFetcher
  imports LocalKeepers_Props "HOL-Library.Multiset"
begin

text \<open>
  The threads around one \<open>EnvGrantKeeper\<close> of \<open>daemon/local/task_grant_keeper.cpp\<close>: the loop of
  \<open>GrantFetcherProc\<close>, the threads in \<open>Get\<close>, and \<open>Stop\<close>.

  The fetcher is a thread with a control state, one value per point where another thread can come
  in between: \<open>leaving_\<close> is an atomic that is read without the mutex, so \<open>Stop\<close> can act between any
  two of its reads, while \<open>Get\<close> needs the mutex of the keeper. A thread that \<open>wait\<close>s gives the mutex
  up and blocks in one step, \<open>notify_all\<close> moves it to the test of its condition. What happened to
  each grant is recorded beside the state.
\<close>

section \<open>Definitions\<close>

text \<open>
  \<open>F_test\<close>: at the head of the loop; \<open>F_pred\<close>: with the mutex, before the test of the condition;
  \<open>F_block\<close>: the condition was false, about to block; \<open>F_blocked\<close>: in \<open>need_more_cv\<close>; \<open>F_go\<close>: after
  the wait, before the second read of \<open>leaving_\<close>; \<open>F_call\<close>: in the call to the scheduler, without the
  mutex; \<open>F_exit\<close>: left the loop.
\<close>

datatype FetcherPc = F_test | F_pred | F_block | F_blocked | F_go | F_call | F_exit

record GrantFetcher =
  gf_keeper :: EnvGrantKeeper
  gf_leaving :: bool
  gf_pc :: FetcherPc
  gf_getters :: nat
  gf_requests :: "WaitForStaringTaskRequest list"
  gf_fetched :: "GrantDesc list"
  gf_given :: "GrantDesc list"
  gf_dropped :: "GrantDesc list"

definition fetcher_new :: "EnviromentDesc \<Rightarrow> GrantFetcher" where
  "fetcher_new desc =
     \<lparr>gf_keeper = keeper_for desc [], gf_leaving = False, gf_pc = F_test, gf_getters = 0, gf_requests = [],
      gf_fetched = [], gf_given = [], gf_dropped = []\<rparr>"

text \<open>The next step of the fetcher on its own; it has none while it is blocked or in its call.\<close>

definition fetcher_advance :: "string \<Rightarrow> GrantFetcher \<Rightarrow> GrantFetcher" where
  "fetcher_advance token s =
     (case gf_pc s of
        F_test \<Rightarrow> s\<lparr>gf_pc := if gf_leaving s then F_exit else F_pred\<rparr>
      | F_pred \<Rightarrow> s\<lparr>gf_pc := if gf_leaving s \<or> fetch_wanted (gf_keeper s) then F_go else F_block\<rparr>
      | F_block \<Rightarrow> s\<lparr>gf_pc := F_blocked\<rparr>
      | F_go \<Rightarrow> (if gf_leaving s then s\<lparr>gf_pc := F_exit\<rparr>
                 else s\<lparr>gf_pc := F_call, gf_requests := gf_requests s @ [fetch_request token (gf_keeper s)]\<rparr>)
      | F_blocked \<Rightarrow> s
      | F_call \<Rightarrow> s
      | F_exit \<Rightarrow> s)"

text \<open>The end of the call: the grants are stored; after a failure the fetcher sleeps and tries again.\<close>

definition fetcher_answer :: "(nat \<Rightarrow> time_point) \<Rightarrow> StatusCode \<times> TaskAllocation list \<Rightarrow> GrantFetcher \<Rightarrow> GrantFetcher" where
  "fetcher_answer clock answer s =
     (let keeper = fetch_answer clock answer (gf_keeper s)
      in s\<lparr>gf_keeper := keeper, gf_pc := F_test,
           gf_fetched := gf_fetched s @ drop (length (remaining (gf_keeper s))) (remaining keeper)\<rparr>)"

definition fetcher_wake :: "GrantFetcher \<Rightarrow> GrantFetcher" where
  "fetcher_wake s = (if gf_pc s = F_blocked then s\<lparr>gf_pc := F_pred\<rparr> else s)"

text \<open>\<open>Get\<close> up to its wait, with the notification of the fetcher, and from its wait on.\<close>

definition getter_begin :: "(nat \<Rightarrow> time_point) \<Rightarrow> GrantFetcher \<Rightarrow> GrantFetcher" where
  "getter_begin clock s =
     (let gs = remaining (gf_keeper s);
          s1 = s\<lparr>gf_dropped := gf_dropped s @ take (length gs - length (drop_expired clock 0 gs)) gs\<rparr>
      in case Get_begin clock (gf_keeper s) of
           (Some g, keeper) \<Rightarrow> s1\<lparr>gf_keeper := keeper, gf_given := gf_given s @ [g]\<rparr>
         | (None, keeper) \<Rightarrow> fetcher_wake (s1\<lparr>gf_keeper := keeper, gf_getters := Suc (gf_getters s)\<rparr>))"

definition getter_end :: "GrantFetcher \<Rightarrow> GrantFetcher" where
  "getter_end s =
     (case Get_end (gf_keeper s) of
        (Some g, keeper) \<Rightarrow> s\<lparr>gf_keeper := keeper, gf_getters := gf_getters s - 1, gf_given := gf_given s @ [g]\<rparr>
      | (None, keeper) \<Rightarrow> s\<lparr>gf_keeper := keeper, gf_getters := gf_getters s - 1\<rparr>)"

definition keeper_stop :: "GrantFetcher \<Rightarrow> GrantFetcher" where
  "keeper_stop s = fetcher_wake (s\<lparr>gf_leaving := True\<rparr>)"

text \<open>
  The steps, with at most \<open>limit\<close> threads waiting in \<open>Get\<close>. The end of a wait is the arrival of a
  grant or the timeout; a condition variable may also wake up for no reason.
\<close>

definition fetcher_locked :: "GrantFetcher \<Rightarrow> bool" where
  "fetcher_locked s \<longleftrightarrow> gf_pc s \<in> {F_pred, F_block, F_go}"

inductive grant_step :: "string \<Rightarrow> nat \<Rightarrow> GrantFetcher \<Rightarrow> GrantFetcher \<Rightarrow> bool" for token limit where
  advance: "grant_step token limit s (fetcher_advance token s)"
| answer: "gf_pc s = F_call \<Longrightarrow> grant_step token limit s (fetcher_answer clock reply s)"
| begin_get: "\<not> fetcher_locked s \<Longrightarrow> gf_getters s < limit \<Longrightarrow> grant_step token limit s (getter_begin clock s)"
| end_get: "\<not> fetcher_locked s \<Longrightarrow> 0 < gf_getters s \<Longrightarrow> grant_step token limit s (getter_end s)"
| stop: "grant_step token limit s (keeper_stop s)"
| spurious: "grant_step token limit s (fetcher_wake s)"

section \<open>What the steps do to the grants\<close>

lemma drop_expired_split:
  "take (length gs - length (drop_expired clock i gs)) gs @ drop_expired clock i gs = gs"
proof -
  obtain ds where "gs = ds @ drop_expired clock i gs"
  proof (induction gs arbitrary: i thesis)
    case (Cons g gs)
    then show ?case by (metis append_Cons append_Nil drop_expired.simps(2))
  qed simp
  then show ?thesis by (metis add_diff_cancel_right' append_eq_conv_conj length_append)
qed

definition grants_inv :: "GrantFetcher \<Rightarrow> bool" where
  "grants_inv s \<longleftrightarrow>
     mset (gf_fetched s) = mset (gf_given s) + mset (gf_dropped s) + mset (remaining (gf_keeper s)) \<and>
     waiters (gf_keeper s) = of_nat (gf_getters s)"

lemma fetcher_wake_fields [simp]:
  "gf_keeper (fetcher_wake s) = gf_keeper s" "gf_getters (fetcher_wake s) = gf_getters s"
  "gf_fetched (fetcher_wake s) = gf_fetched s" "gf_given (fetcher_wake s) = gf_given s"
  "gf_dropped (fetcher_wake s) = gf_dropped s" "gf_leaving (fetcher_wake s) = gf_leaving s"
  "gf_requests (fetcher_wake s) = gf_requests s" "gf_pc (fetcher_wake s) \<noteq> F_blocked"
  by (simp_all add: fetcher_wake_def)

lemma fetcher_advance_fields [simp]:
  "gf_keeper (fetcher_advance token s) = gf_keeper s" "gf_getters (fetcher_advance token s) = gf_getters s"
  "gf_fetched (fetcher_advance token s) = gf_fetched s" "gf_given (fetcher_advance token s) = gf_given s"
  "gf_dropped (fetcher_advance token s) = gf_dropped s" "gf_leaving (fetcher_advance token s) = gf_leaving s"
  by (simp_all add: fetcher_advance_def split: FetcherPc.split)

lemma getter_begin_grants: "grants_inv s \<Longrightarrow> grants_inv (getter_begin clock s)"
proof -
  define es where "es = drop_expired clock 0 (remaining (gf_keeper s))"
  define ds where "ds = take (length (remaining (gf_keeper s)) - length es) (remaining (gf_keeper s))"
  have "remaining (gf_keeper s) = ds @ es" unfolding ds_def es_def by (rule drop_expired_split[symmetric])
  then have m: "mset (remaining (gf_keeper s)) = mset ds + mset es" by simp
  assume "grants_inv s"
  with m show "grants_inv (getter_begin clock s)"
    unfolding grants_inv_def getter_begin_def Get_begin_def Let_def es_def[symmetric]
    unfolding ds_def[symmetric]
    by (cases es) simp_all
qed

lemma getter_end_grants: "grants_inv s \<Longrightarrow> 0 < gf_getters s \<Longrightarrow> grants_inv (getter_end s)"
  by (auto simp: grants_inv_def getter_end_def Get_end_def of_nat_diff split: list.split)

lemma fetcher_answer_grants: "grants_inv s \<Longrightarrow> grants_inv (fetcher_answer clock reply s)"
  by (auto simp: grants_inv_def fetcher_answer_def fetch_answer_def Let_def)

lemma grant_step_grants: "grant_step token limit s t \<Longrightarrow> grants_inv s \<Longrightarrow> grants_inv t"
  by (induction rule: grant_step.induct)
     (simp_all add: fetcher_answer_grants getter_begin_grants getter_end_grants,
      simp_all add: grants_inv_def keeper_stop_def)

interpretation grants: step_invariant "grant_step token limit" grants_inv for token limit
  by unfold_locales (rule grant_step_grants)

text \<open>
  With a single thread in \<open>Get\<close>: the fetcher never blocks or stays blocked while that thread
  waits for a grant, and it leaves its loop only after \<open>Stop\<close>.
\<close>

definition lone_inv :: "GrantFetcher \<Rightarrow> bool" where
  "lone_inv s \<longleftrightarrow>
     gf_getters s \<le> 1 \<and> (gf_pc s = F_exit \<longrightarrow> gf_leaving s) \<and>
     (gf_pc s \<in> {F_block, F_blocked} \<longrightarrow> gf_getters s = 0 \<or> remaining (gf_keeper s) \<noteq> [])"

lemma getter_begin_lone: "lone_inv s \<Longrightarrow> gf_getters s < 1 \<Longrightarrow> \<not> fetcher_locked s \<Longrightarrow> lone_inv (getter_begin clock s)"
  by (auto simp: lone_inv_def getter_begin_def Get_begin_def fetcher_wake_def fetcher_locked_def Let_def split: list.split)

lemma getter_end_lone: "lone_inv s \<Longrightarrow> 0 < gf_getters s \<Longrightarrow> lone_inv (getter_end s)"
  by (auto simp: lone_inv_def getter_end_def Get_end_def split: list.split)

lemma fetcher_advance_lone: "lone_inv s \<Longrightarrow> lone_inv (fetcher_advance token s)"
  by (auto simp: lone_inv_def fetcher_advance_def fetch_wanted_def split: FetcherPc.split)

lemma grant_step_lone: "grant_step token 1 s t \<Longrightarrow> lone_inv s \<Longrightarrow> lone_inv t"
proof (induction rule: grant_step.induct)
  case (answer s clock reply)
  then show ?case by (simp add: lone_inv_def fetcher_answer_def Let_def)
qed (auto simp: getter_begin_lone getter_end_lone fetcher_advance_lone, auto simp: lone_inv_def keeper_stop_def fetcher_wake_def)

interpretation lone: step_invariant "grant_step token 1" lone_inv for token
  by unfold_locales (rule grant_step_lone)

section \<open>Properties\<close>


text \<open>Two grants, one taken after the other: a run for the concrete instances.\<close>

definition demo_fetcher :: GrantFetcher where
  "demo_fetcher = fetcher_new \<lparr>compiler_digest = ''aa''\<rparr>"

definition demo_reply :: "StatusCode \<times> TaskAllocation list" where
  "demo_reply = (StatusOK, [\<lparr>alloc_task_id = 3, alloc_servant_location = ''s''\<rparr>])"

text \<open>Two threads begin to wait, the fetcher asks, gets one grant and blocks, and one thread takes the grant.\<close>

definition demo_starved :: GrantFetcher where
  "demo_starved =
     getter_end ((fetcher_advance ''t'' ^^ 3) (fetcher_answer (\<lambda>_. 7) demo_reply
       ((fetcher_advance ''t'' ^^ 3) (getter_begin (\<lambda>_. 6) (getter_begin (\<lambda>_. 5) demo_fetcher)))))"

lemmas demo_fetcher_defs = demo_starved_def demo_fetcher_def demo_reply_def fetcher_new_def keeper_for_def umap_find_def
  getter_begin_def getter_end_def Get_begin_def Get_end_def fetcher_wake_def fetcher_advance_def fetcher_answer_def
  fetch_answer_def fetch_wanted_def fetcher_locked_def numeral_3_eq_3

lemma advance_reach: "(grant_step token limit)\<^sup>*\<^sup>* s ((fetcher_advance token ^^ k) s)"
  by (induction k) (auto intro: rtranclp.rtrancl_into_rtrancl grant_step.advance)

lemma demo_starved_reach: "(grant_step ''t'' 2)\<^sup>*\<^sup>* demo_fetcher demo_starved"
proof -
  let ?a = "getter_begin (\<lambda>_. 5) demo_fetcher"
  let ?b = "getter_begin (\<lambda>_. 6) ?a"
  let ?c = "(fetcher_advance ''t'' ^^ 3) ?b"
  let ?d = "fetcher_answer (\<lambda>_. 7) demo_reply ?c"
  let ?e = "(fetcher_advance ''t'' ^^ 3) ?d"
  have "grant_step ''t'' 2 demo_fetcher ?a" by (rule grant_step.begin_get) (simp_all add: demo_fetcher_defs)
  moreover have "grant_step ''t'' 2 ?a ?b" by (rule grant_step.begin_get) (simp_all add: demo_fetcher_defs)
  moreover have "grant_step ''t'' 2 ?c ?d" by (rule grant_step.answer) (simp add: demo_fetcher_defs)
  moreover have "grant_step ''t'' 2 ?e demo_starved"
    unfolding demo_starved_def by (rule grant_step.end_get) (simp_all add: demo_fetcher_defs)
  ultimately show ?thesis
    using advance_reach[of "''t''" 2 ?b 3] advance_reach[of "''t''" 2 ?d 3]
    by (meson converse_rtranclp_into_rtranclp r_into_rtranclp rtranclp_trans)
qed


text \<open>
  A thread that waits alone is not forgotten: as long as at most one thread at a time is in
  \<open>Get\<close>, in every state in which it waits, nothing is in the queue and the keeper does not stop, the
  fetcher by itself gets to its call to the scheduler, and a request it makes on the way asks for one
  grant at once.
\<close>

theorem lone_getter_asked_for:
  assumes "(grant_step token 1)\<^sup>*\<^sup>* (fetcher_new desc) s" and "gf_getters s = 1"
    and "remaining (gf_keeper s) = []" and "\<not> gf_leaving s"
  shows "\<exists>k \<le> 3. gf_pc ((fetcher_advance token ^^ k) s) = F_call \<and>
    (gf_pc s \<noteq> F_call \<longrightarrow> gf_requests ((fetcher_advance token ^^ k) s) =
       gf_requests s @ [fetch_request token (gf_keeper s)] \<and> immeadiate_reqs (fetch_request token (gf_keeper s)) = 1)"
proof -
  have "lone_inv (fetcher_new desc)" by (simp add: lone_inv_def fetcher_new_def)
  then have "lone_inv s" by (rule lone.reach_inv[OF assms(1)])
  then have pc: "gf_pc s \<in> {F_test, F_pred, F_go, F_call}"
    using assms(2,3,4) by (cases "gf_pc s") (auto simp: lone_inv_def)
  have "grants_inv (fetcher_new desc)" by (simp add: grants_inv_def fetcher_new_def keeper_for_def umap_find_def)
  then have "grants_inv s" by (rule grants.reach_inv[OF assms(1)])
  then have w: "immeadiate_reqs (fetch_request token (gf_keeper s)) = 1"
    using assms(2) by (simp add: grants_inv_def fetch_request_def)
  let ?k = "case gf_pc s of F_test \<Rightarrow> 3 | F_pred \<Rightarrow> 2 | F_go \<Rightarrow> 1 | _ \<Rightarrow> (0 :: nat)"
  show ?thesis
    by (rule exI[of _ ?k])
       (use pc w assms(3,4) in \<open>auto simp: fetcher_advance_def fetch_wanted_def numeral_3_eq_3 numeral_2_eq_2\<close>)
qed

theorem lone_getter_asked_for_witness:
  "\<exists>k \<le> 3. gf_pc ((fetcher_advance ''t'' ^^ k) (getter_begin (\<lambda>_. 5) demo_fetcher)) = F_call"
proof -
  have "grant_step ''t'' 1 demo_fetcher (getter_begin (\<lambda>_. 5) demo_fetcher)"
    by (rule grant_step.begin_get) (simp_all add: demo_fetcher_defs)
  then have "(grant_step ''t'' 1)\<^sup>*\<^sup>* (fetcher_new \<lparr>compiler_digest = ''aa''\<rparr>) (getter_begin (\<lambda>_. 5) demo_fetcher)"
    unfolding demo_fetcher_def by (rule r_into_rtranclp)
  from lone_getter_asked_for[OF this] show ?thesis by (auto simp: demo_fetcher_defs)
qed

text \<open>
  Two threads in \<open>Get\<close>: if the fetcher tests its condition before the first of them has taken the only
  grant, it blocks; taking the grant does not notify it. The other thread then waits with an empty queue
  while the fetcher is blocked, until a timeout or another call.
\<close>

theorem second_getter_starves:
  "(grant_step ''t'' 2)\<^sup>*\<^sup>* (fetcher_new \<lparr>compiler_digest = ''aa''\<rparr>) demo_starved \<and>
   gf_getters demo_starved = 1 \<and> remaining (gf_keeper demo_starved) = [] \<and> \<not> gf_leaving demo_starved \<and>
   gf_pc demo_starved = F_blocked \<and> fetcher_advance ''t'' demo_starved = demo_starved"
  using demo_starved_reach[unfolded demo_fetcher_def] by (simp add: demo_fetcher_defs)

text \<open>
  \<open>Stop\<close> notifies without the mutex of the keeper. Between the test of the condition and the block the
  notification is lost: the fetcher then sleeps although the keeper stops, and its thread does not end.
\<close>

theorem stop_notification_lost:
  assumes "gf_pc s = F_block" and "\<not> gf_leaving s"
  shows "gf_leaving (fetcher_advance token (keeper_stop s)) \<and>
    gf_pc (fetcher_advance token (keeper_stop s)) = F_blocked \<and>
    fetcher_advance token (fetcher_advance token (keeper_stop s)) = fetcher_advance token (keeper_stop s)"
  using assms by (simp add: keeper_stop_def fetcher_wake_def fetcher_advance_def)

text \<open>In every other state in which it is not in its call, the fetcher ends after \<open>Stop\<close> by itself.\<close>

theorem stop_ends_fetcher:
  assumes "gf_pc s \<noteq> F_block" and "gf_pc s \<noteq> F_call"
  shows "gf_pc ((fetcher_advance token ^^ 2) (keeper_stop s)) = F_exit"
  using assms by (cases "gf_pc s") (simp_all add: keeper_stop_def fetcher_wake_def fetcher_advance_def numeral_2_eq_2)

end
