(* ===== verification/Executor_Stop.thy ===== *)
theory Executor_Stop
  imports Executor_Props
begin

text \<open>
  The end of a servant: after \<open>Executor::Stop\<close> the thread \<open>WaiterProc\<close> leaves its loop, whatever the
  other threads do, and no child process is left then. The reason is the number of semaphore tokens:
  every started process and \<open>Stop\<close> itself release one, so there is always a token more than there are
  children to wait for.
\<close>

section \<open>The steps of the waiter thread\<close>

inductive waiter_step :: "'task Executor \<Rightarrow> 'task Executor \<Rightarrow> bool" where
  acquire: "\<not> waiting s \<Longrightarrow> \<not> waiter_done s \<Longrightarrow> has_work s \<Longrightarrow> 0 < waitpid_semaphore s \<Longrightarrow>
            waiter_step s (WaiterProc_acquire s)"
| leave: "\<not> waiting s \<Longrightarrow> \<not> waiter_done s \<Longrightarrow> \<not> has_work s \<Longrightarrow> waiter_step s (s\<lparr>waiter_done := True\<rparr>)"
| reap: "waiting s \<Longrightarrow> child \<in> set (children s) \<Longrightarrow> waiter_step s (WaiterProc_reap (Some child) code s)"
| no_child: "waiting s \<Longrightarrow> children s = [] \<Longrightarrow> waiter_step s (WaiterProc_reap None code s)"

inductive_cases waiter_stepE: "waiter_step s t"

text \<open>What the steps of other threads keep once the executor stops.\<close>

definition quiet :: "'task Executor \<Rightarrow> 'task Executor \<Rightarrow> bool" where
  "quiet s t \<longleftrightarrow>
     exiting t = exiting s \<and> children t = children s \<and> waiting t = waiting s \<and> waiter_done t = waiter_done s \<and>
     waitpid_semaphore s \<le> waitpid_semaphore t"

lemma KillTask_done [simp]: "waiter_done (KillTask p s) = waiter_done s"
  by (simp add: KillTask_def)

lemma fold_kill_done:
  "waiter_done (fold (\<lambda>(k, p) s. if P k p then KillTask p s else s) xs s) = waiter_done s"
  by (induction xs arbitrary: s) (simp_all split: prod.split)

lemma Stop_tokens:
  "waitpid_semaphore (Stop s) = Suc (waitpid_semaphore s)" "waiting (Stop s) = waiting s"
  "waiter_done (Stop s) = waiter_done s"
  using fold_kill[of "\<lambda>_ _. True" "ex_tasks s" "s\<lparr>exiting := True\<rparr>"]
    fold_kill_done[of "\<lambda>_ _. True" "ex_tasks s" "s\<lparr>exiting := True\<rparr>"]
  by (simp_all add: Stop_def Let_def same_counts_def)

lemma other_steps_quiet:
  "quiet s (snd (TryAddTaskRef i s))" "quiet s (snd (FreeTask_locked i s))" "quiet s (KillTask p s)"
  "quiet s (KillExpiredTasks ids s)" "quiet s (OnTimerClean now s)" "quiet s (snd (WaitForTask_wait ar p s))"
  "quiet s (snd (OnExitCallback_locked child now (s\<lparr>exit_tasks := es\<rparr>)))"
  "exiting s \<Longrightarrow> quiet s (snd (TryQueueTask grant t cmd child' now avail s))"
  "exiting s \<Longrightarrow> quiet s (Stop s)"
  "OnExitCallback_finish f code out err p s = Inr s' \<Longrightarrow> quiet s s'"
  using fold_kill[of "\<lambda>k p. is_running (descs s p) \<and> grant_id (descs s p) \<in> set ids" "ex_tasks s" s]
    fold_kill_done[of "\<lambda>k p. is_running (descs s p) \<and> grant_id (descs s p) \<in> set ids" "ex_tasks s" s]
  by (auto simp: quiet_def TryAddTaskRef_def FreeTask_locked_def KillTask_def KillExpiredTasks_eq same_counts_def
      OnTimerClean_def WaitForTask_wait_def OnExitCallback_locked_def TryQueueTask_def TryStartingNewTaskUnsafe_eq
      OnExitCallback_finish_def Stop_fields Stop_tokens upd_desc_def Let_def split: option.splits)

lemma stopped_step: "executor_step s t \<Longrightarrow> exiting s \<Longrightarrow> quiet s t \<or> waiter_step s t"
proof (induction rule: executor_step.induct)
  case (leave s)
  then show ?case by (cases "waiter_done s") (auto simp: quiet_def intro: waiter_step.leave)
qed (auto intro: other_steps_quiet waiter_step.intros)

section \<open>The tokens\<close>

definition stop_inv :: "'task Executor \<Rightarrow> bool" where
  "stop_inv s \<longleftrightarrow>
     executor_inv s \<and> (waiter_done s \<longrightarrow> exiting s \<and> children s = []) \<and>
     (exiting s \<and> \<not> waiter_done s \<longrightarrow> length (children s) < waitpid_semaphore s + (if waiting s then 1 else 0))"

lemma no_work_no_children: "executor_inv s \<Longrightarrow> \<not> has_work s \<Longrightarrow> exiting s \<and> children s = []"
  by (auto simp: executor_inv_def counts_inv_def has_work_def)

lemma waiter_step_stop_inv:
  assumes "waiter_step s t" and "stop_inv s" and "executor_inv t" and "exiting s"
  shows "stop_inv t"
  using assms(1)
proof cases
  case acquire
  with assms show ?thesis by (auto simp: stop_inv_def WaiterProc_acquire_def Let_def has_work_def)
next
  case leave
  with assms show ?thesis using no_work_no_children[of s] by (auto simp: stop_inv_def)
next
  case (reap child code)
  then have "Suc (length (children t)) = length (children s)"
    by (simp add: WaiterProc_reap_def Let_def Suc_length_remove1)
  with reap assms show ?thesis by (auto simp: stop_inv_def WaiterProc_reap_def Let_def)
next
  case (no_child code)
  with assms show ?thesis by (auto simp: stop_inv_def WaiterProc_reap_def Let_def)
qed

lemma quiet_stop_inv: "quiet s t \<Longrightarrow> stop_inv s \<Longrightarrow> executor_inv t \<Longrightarrow> stop_inv t"
  by (auto simp: quiet_def stop_inv_def)

text \<open>Before \<open>Stop\<close> the thread cannot be done; \<open>Stop\<close> adds the token that the invariant speaks of.\<close>

lemma running_step:
  assumes "executor_step s t" and "\<not> exiting s" and "stop_inv s"
  shows "\<not> waiter_done t \<and> (exiting t \<longrightarrow> t = Stop s)"
  using assms(1)
proof cases
  case (leave)
  with assms(2) show ?thesis by (simp add: has_work_def)
next
  case (finish p f code out err)
  with assms(2,3) other_steps_quiet(10)[OF finish(2)] show ?thesis by (auto simp: quiet_def stop_inv_def)
qed (use assms(2,3) other_steps_quiet(1-7)[where s = s] in
      \<open>auto simp: quiet_def stop_inv_def Stop_tokens TryQueueTask_def TryStartingNewTaskUnsafe_eq WaiterProc_acquire_def
        WaiterProc_reap_def has_work_def Let_def\<close>)

lemma executor_step_stop_inv:
  assumes "executor_step s t" and "stop_inv s"
  shows "stop_inv t"
proof -
  have inv: "executor_inv s" "executor_inv t"
    using assms executor_step_inv[OF assms(1)] by (auto simp: stop_inv_def)
  show ?thesis
  proof (cases "exiting s")
    case True
    then show ?thesis
      using stopped_step[OF assms(1)] waiter_step_stop_inv[OF _ assms(2) inv(2)] quiet_stop_inv[OF _ assms(2) inv(2)] by blast
  next
    case False
    then obtain lost where "waitpid_semaphore s + (if waiting s then 1 else 0) = length (children s) + lost"
      using inv(1) by (auto simp: executor_inv_def counts_inv_def)
    then have "length (children s) < Suc (waitpid_semaphore s) + (if waiting s then 1 else 0)" by simp
    with running_step[OF assms(1) False assms(2)] inv(2) show ?thesis
      unfolding stop_inv_def by (auto simp: Stop_fields Stop_tokens)
  qed
qed

interpretation stopping: step_invariant executor_step stop_inv
  by unfold_locales (rule executor_step_stop_inv)

section \<open>Progress\<close>

definition wait_rank :: "'task Executor \<Rightarrow> nat" where
  "wait_rank s = 2 * length (children s) + (if waiting s then 0 else 1)"

lemma waiter_step_rank: "waiter_step s t \<Longrightarrow> exiting s \<Longrightarrow> waiter_done t \<or> wait_rank t < wait_rank s"
proof (induction rule: waiter_step.induct)
  case (reap s child code)
  then have "Suc (length (remove1 child (children s))) = length (children s)" by (simp add: Suc_length_remove1)
  with reap show ?case by (simp add: wait_rank_def WaiterProc_reap_def Let_def)
qed (auto simp: wait_rank_def WaiterProc_acquire_def WaiterProc_reap_def has_work_def Let_def)

lemma stopped_step_rank: "executor_step s t \<Longrightarrow> exiting s \<Longrightarrow> exiting t \<and> (waiter_done t \<or> wait_rank t \<le> wait_rank s)"
proof -
  assume s: "executor_step s t" "exiting s"
  have "exiting t" if "waiter_step s t"
    using that s(2) by (elim waiter_stepE) (auto simp: WaiterProc_acquire_def WaiterProc_reap_def Let_def split: option.split)
  with stopped_step[OF s] s(2) waiter_step_rank[of s t] show ?thesis by (auto simp: quiet_def wait_rank_def)
qed

lemma waiter_not_stuck: "stop_inv s \<Longrightarrow> exiting s \<Longrightarrow> \<not> waiter_done s \<Longrightarrow> \<exists>t. waiter_step s t"
proof (cases "waiting s")
  case True
  then show ?thesis
    using waiter_step.no_child[of s 0] waiter_step.reap[of s "hd (children s)" 0] by (cases "children s = []") auto
next
  case False
  then show "stop_inv s \<Longrightarrow> exiting s \<Longrightarrow> \<not> waiter_done s \<Longrightarrow> ?thesis"
    using waiter_step.acquire[of s] waiter_step.leave[of s] by (cases "has_work s") (auto simp: stop_inv_def)
qed

lemma fair_run_ends:
  assumes "\<And>n. executor_step (r n) (r (Suc n))" and "exiting (r k)"
    and "\<And>n. \<exists>m \<ge> n. waiter_done (r m) \<or> waiter_step (r m) (r (Suc m))"
  shows "\<exists>n \<ge> k. waiter_done (r n)"
  using assms(2)
proof (induction "wait_rank (r k)" arbitrary: k rule: less_induct)
  case less
  obtain m where m: "k \<le> m" "waiter_done (r m) \<or> waiter_step (r m) (r (Suc m))" using assms(3) by blast
  have ex: "exiting (r (k + i)) \<and> ((\<exists>n \<ge> k. waiter_done (r n)) \<or> wait_rank (r (k + i)) \<le> wait_rank (r k))" for i
  proof (induction i)
    case (Suc i)
    then show ?case using stopped_step_rank[OF assms(1)[of "k + i"]] by (auto intro: exI[of _ "Suc (k + i)"])
  qed (simp add: less.prems)
  have xm: "exiting (r m)" "(\<exists>n \<ge> k. waiter_done (r n)) \<or> wait_rank (r m) \<le> wait_rank (r k)"
    using ex[of "m - k"] m(1) by simp_all
  show ?case
  proof (cases "waiter_done (r m) \<or> waiter_done (r (Suc m))")
    case True
    with m(1) show ?thesis by (meson le_SucI)
  next
    case False
    then have "wait_rank (r (Suc m)) < wait_rank (r m)" using m(2) waiter_step_rank xm(1) by blast
    then have "(\<exists>n \<ge> k. waiter_done (r n)) \<or> (\<exists>n \<ge> Suc m. waiter_done (r n))"
      using xm(2) less.hyps[of "Suc m"] stopped_step_rank[OF assms(1)[of m] xm(1)] by fastforce
    with m(1) show ?thesis by (meson Suc_leD le_trans)
  qed
qed

lemma Executor_new_stop_inv: "Executor_new f prio th mem cores = Inr s \<Longrightarrow> stop_inv s"
  using Executor_new_inv[of f prio th mem cores s]
  by (auto simp: stop_inv_def Executor_new_def elim!: bind_fault_InrE)

section \<open>Property\<close>


text \<open>One task is queued, the servant stops, the waiter waits for the child and then finds no other.\<close>

definition demo_shutdown_step :: "nat \<Rightarrow> string Executor \<Rightarrow> string Executor" where
  "demo_shutdown_step n s =
     (if n = 0 then snd (TryQueueTask 7 ''task'' ''gcc'' 100 5 (2 ^ 40) s)
      else if n = 1 then Stop s else if n = 2 then WaiterProc_acquire s
      else if n = 3 then WaiterProc_reap (Some 100) 9 s else if n = 4 then WaiterProc_acquire s
      else if n = 5 then WaiterProc_reap None 0 s else KillExpiredTasks [] s)"

primrec demo_shutdown :: "nat \<Rightarrow> string Executor" where
  "demo_shutdown 0 = demo_executor"
| "demo_shutdown (Suc n) = demo_shutdown_step n (demo_shutdown n)"

lemma demo_shutdown_eqs:
  "demo_shutdown 1 = demo_queued" "demo_shutdown 2 = Stop demo_queued"
  "demo_shutdown 3 = WaiterProc_acquire (demo_shutdown 2)" "demo_shutdown 4 = WaiterProc_reap (Some 100) 9 (demo_shutdown 3)"
  "demo_shutdown 5 = WaiterProc_acquire (demo_shutdown 4)" "demo_shutdown 6 = WaiterProc_reap None 0 (demo_shutdown 5)"
  "5 < n \<Longrightarrow> demo_shutdown (Suc n) = KillExpiredTasks [] (demo_shutdown n)"
proof -
  show "demo_shutdown 1 = demo_queued" by (simp add: demo_shutdown_step_def demo_queued_def)
  show "demo_shutdown 2 = Stop demo_queued"
    by (simp add: numeral_2_eq_2 demo_shutdown_step_def demo_queued_def)
qed (use demo_shutdown.simps(2)[of 2] demo_shutdown.simps(2)[of 3] demo_shutdown.simps(2)[of 4]
       demo_shutdown.simps(2)[of 5] demo_shutdown.simps(2)[of n] in
     \<open>simp_all add: demo_shutdown_step_def del: demo_shutdown.simps\<close>)

lemma demo_stopped:
  "children (Stop demo_queued) = [100]" "\<not> waiting (Stop demo_queued)" "\<not> waiter_done (Stop demo_queued)"
  "exiting (Stop demo_queued)" "waitpid_semaphore (Stop demo_queued) = 2" "ex_running_tasks (Stop demo_queued) = 1"
  by (simp_all add: Stop_fields Stop_tokens) (simp_all add: demo_queued_simps Let_def)

lemma demo_shutdown_states:
  "children (demo_shutdown 3) = [100]" "waiting (demo_shutdown 3)" "exiting (demo_shutdown 3)"
  "waitpid_semaphore (demo_shutdown 3) = 1" "ex_running_tasks (demo_shutdown 3) = 1" "\<not> waiter_done (demo_shutdown 3)"
  "children (demo_shutdown 5) = []" "waiting (demo_shutdown 5)" "waiter_done (demo_shutdown 6)"
  by (simp_all add: demo_shutdown_eqs WaiterProc_acquire_def WaiterProc_reap_def has_work_def demo_stopped Let_def)

lemma demo_shutdown_steps: "executor_step (demo_shutdown n) (demo_shutdown (Suc n))"
proof -
  consider "n = 0" | "n = 1" | "n = 2" | "n = 3" | "n = 4" | "n = 5" | "5 < n" by linarith
  then show ?thesis
  proof cases
    case 1
    then show ?thesis by (auto simp: demo_shutdown_step_def demo_executor_def intro!: executor_step.queue)
  next
    case 2
    have "executor_step (demo_shutdown 1) (demo_shutdown 2)"
      unfolding demo_shutdown_eqs(1,2) by (rule executor_step.stop)
    with 2 show ?thesis by (simp only: Suc_1)
  next
    case 3
    have "executor_step (demo_shutdown 2) (WaiterProc_acquire (demo_shutdown 2))"
      by (intro executor_step.acquire) (simp_all add: demo_shutdown_eqs has_work_def demo_stopped)
    with 3 show ?thesis by (simp add: demo_shutdown_eqs del: demo_shutdown.simps)
  next
    case 4
    have "executor_step (demo_shutdown 3) (WaiterProc_reap (Some 100) 9 (demo_shutdown 3))"
      using demo_shutdown_states by (intro executor_step.reap) simp_all
    with 4 show ?thesis by (simp add: demo_shutdown_eqs del: demo_shutdown.simps)
  next
    case 5
    have "executor_step (demo_shutdown 4) (WaiterProc_acquire (demo_shutdown 4))"
      using demo_shutdown_states by (intro executor_step.acquire)
        (simp_all add: demo_shutdown_eqs(4) WaiterProc_reap_def has_work_def Let_def)
    with 5 show ?thesis by (simp add: demo_shutdown_eqs(5) del: demo_shutdown.simps)
  next
    case 6
    have "executor_step (demo_shutdown 5) (WaiterProc_reap None 0 (demo_shutdown 5))"
      using demo_shutdown_states by (intro executor_step.no_child) simp_all
    with 6 show ?thesis by (simp add: demo_shutdown_eqs(6) del: demo_shutdown.simps)
  next
    case 7
    then show ?thesis by (simp add: demo_shutdown_eqs(7) executor_step.expire del: demo_shutdown.simps)
  qed
qed

lemma demo_shutdown_done: "waiter_done (demo_shutdown (6 + n))"
proof (induction n)
  case 0
  show ?case using demo_shutdown_states by simp
next
  case (Suc n)
  have "demo_shutdown (6 + Suc n) = KillExpiredTasks [] (demo_shutdown (6 + n))"
    using demo_shutdown_eqs(7)[of "6 + n"] by (simp del: demo_shutdown.simps)
  with Suc other_steps_quiet(4)[of "demo_shutdown (6 + n)" "[]"] show ?case by (simp add: quiet_def)
qed


end
