(* ===== verification/CompilerSearch.thy ===== *)
theory CompilerSearch
  imports CxxTask_Props
begin

text \<open>
  Which files a servant takes for compilers: \<open>GetPathHasCompiler\<close> of \<open>daemon/cloud/compilers.cpp\<close>, the
  test that \<open>SearchCompiler\<close> and \<open>OnTimerRescan\<close> have as an argument, on what \<open>lstat\<close> and \<open>realpath\<close>
  return. The mode of a file is a 32-bit word.
\<close>

unbundle bit_operations_syntax

section \<open>Definitions\<close>

record stat =
  st_mode :: u32
  st_uid :: u32
  st_gid :: u32

text \<open>The octal constants 100, 10 and 1 of \<open>sys/stat.h\<close>.\<close>

definition S_IXUSR :: u32 where "S_IXUSR = 0x40"
definition S_IXGRP :: u32 where "S_IXGRP = 0x08"
definition S_IXOTH :: u32 where "S_IXOTH = 0x01"

definition GetPathHasCompiler ::
  "(string \<Rightarrow> stat option) \<Rightarrow> (string \<Rightarrow> string option) \<Rightarrow> u32 \<Rightarrow> u32 \<Rightarrow> string \<Rightarrow> string option" where
  "GetPathHasCompiler lstat realpath euid egid path =
     (case lstat path of
        None \<Rightarrow> None
      | Some st \<Rightarrow>
          (case realpath path of
             None \<Rightarrow> None
           | Some buf \<Rightarrow>
               if (euid = st_uid st \<and> st_mode st AND S_IXUSR \<noteq> 0) \<or>
                  (egid = st_gid st \<and> st_mode st AND S_IXGRP \<noteq> 0) \<or>
                  st_mode st AND S_IXOTH \<noteq> 0
               then Some buf else None))"

definition GetAll :: "Compilers \<Rightarrow> EnviromentDesc list" where
  "GetAll c = compilers c"

section \<open>Properties\<close>

text \<open>The bits of a mode, one by one.\<close>

lemma mode_bit: "(m :: u32) AND 2 ^ k \<noteq> 0 \<longleftrightarrow> bit m k"
  by (simp add: and_exp_eq_0_iff_not_bit)

lemma GetPathHasCompiler_eq:
  "GetPathHasCompiler lstat realpath euid egid path = Some p \<longleftrightarrow>
     realpath path = Some p \<and>
     (\<exists>st. lstat path = Some st \<and>
        (euid = st_uid st \<and> bit (st_mode st) 6 \<or> egid = st_gid st \<and> bit (st_mode st) 3 \<or> bit (st_mode st) 0))"
  using mode_bit[of _ 6] mode_bit[of _ 3] mode_bit[of _ 0]
  by (auto simp: GetPathHasCompiler_def S_IXUSR_def S_IXGRP_def S_IXOTH_def split: option.splits)

lemma SearchCompiler_path:
  assumes "resolve (dir @ ''/'' @ compiler) = Some p" and "compiler \<in> set kSupportedCompilers"
    and "dir \<noteq> []" and "last dir \<noteq> CHR ''/''"
  shows "p \<in> set (SearchCompiler resolve dir)"
  using assms by (auto simp: SearchCompiler_def List.map_filter_def kSupportedCompilers_def)

text \<open>
  A compiler anybody may execute, in a directory of \<open>PATH\<close> that is not written with a slash at its
  end, is advertised under the digest of the file its path resolves to.
\<close>

theorem executable_compiler_advertised:
  assumes "dir \<in> set (Split_char path_env CHR '':'' True)" and "dir \<noteq> []" and "last dir \<noteq> CHR ''/''"
    and "compiler \<in> {''gcc'', ''g++''}" and "lstat (dir @ ''/'' @ compiler) = Some st" and "bit (st_mode st) 0"
    and "realpath (dir @ ''/'' @ compiler) = Some p" and "content_of p = Some content"
  shows "\<lparr>compiler_digest = EncodeHex (blake3 content) False\<rparr> \<in>
    set (GetAll (OnTimerRescan blake3 (GetPathHasCompiler lstat realpath euid egid) content_of path_env flag old))"
proof -
  have "p \<in> set (SearchCompiler (GetPathHasCompiler lstat realpath euid egid) dir)"
    using assms(2-7) by (intro SearchCompiler_path[of _ dir compiler]) (auto simp: GetPathHasCompiler_eq kSupportedCompilers_def)
  moreover have "TryGetFileDigest blake3 content_of p = Some (EncodeHex (blake3 content) False)"
    using assms(8) by (simp add: TryGetFileDigest_def Blake3_def)
  ultimately have "advertises (OnTimerRescan blake3 (GetPathHasCompiler lstat realpath euid egid) content_of path_env flag old)
      (EncodeHex (blake3 content) False)"
    using assms(1) by (intro OnTimerRescan_complete[of dir]) auto
  then obtain e where e: "compiler_digest e = EncodeHex (blake3 content) False"
    "e \<in> set (GetAll (OnTimerRescan blake3 (GetPathHasCompiler lstat realpath euid egid) content_of path_env flag old))"
    by (auto simp: advertises_def GetAll_def)
  from e(1) have "e = \<lparr>compiler_digest = EncodeHex (blake3 content) False\<rparr>" by (cases e) simp
  with e(2) show ?thesis by simp
qed

text \<open>
  A symbolic link is taken for executable whatever it points to: \<open>lstat\<close> reports the mode of the link,
  on which every permission bit is set (\<open>0xA1FF\<close>), so a file that nobody may execute is advertised
  when a link leads to it.
\<close>

theorem linked_compiler_found:
  assumes "lstat path = Some st" and "st_mode st = 0xA1FF" and "realpath path = Some target"
  shows "GetPathHasCompiler lstat realpath euid egid path = Some target"
  using assms by (auto simp: GetPathHasCompiler_def S_IXOTH_def)

theorem linked_compiler_found_witness:
  "GetPathHasCompiler
     (\<lambda>p. if p = ''/usr/bin/gcc'' then Some \<lparr>st_mode = 0xA1FF, st_uid = 0, st_gid = 0\<rparr>
          else Some \<lparr>st_mode = 0x81A4, st_uid = 0, st_gid = 0\<rparr>)
     (\<lambda>_. Some ''/opt/gcc'') 1000 1000 ''/usr/bin/gcc'' = Some ''/opt/gcc''"
  by (rule linked_compiler_found[where st = "\<lparr>st_mode = 0xA1FF, st_uid = 0, st_gid = 0\<rparr>"]) simp_all

end
