(* ===== verification/ClientMain.thy ===== *)
theory ClientMain
  imports Client_Props
begin

text \<open>
  The client as a program: \<open>main\<close> of \<open>client/client.cpp\<close> and the rest of \<open>client/common/utility.cpp\<close>.
  \<open>realpath\<close> and \<open>lstat\<close> are arguments; \<open>argv\<close> has at least the name of the program.
\<close>

section \<open>Definitions\<close>

definition GetRealPath :: "(string \<Rightarrow> string option) \<Rightarrow> string \<Rightarrow> string" where
  "GetRealPath realpath name = (case realpath name of Some buf \<Rightarrow> buf | None \<Rightarrow> [])"

definition GetSelfExecutable :: "(string \<Rightarrow> string option) \<Rightarrow> string" where
  "GetSelfExecutable realpath = GetRealPath realpath ''/proc/self/exe''"

definition client_main ::
  "'w ClientEnv \<Rightarrow> (string \<Rightarrow> bool) \<Rightarrow> (string \<Rightarrow> string option) \<Rightarrow> string \<Rightarrow> string list \<Rightarrow> 'w \<Rightarrow> ('w, int) run" where
  "client_main env exists realpath path_env argv w =
     (if length argv = 1 then ret 0 w
      else andThen
        (Compile env (find_compiler exists (GetRealPath realpath) (GetSelfExecutable realpath) path_env (argv ! 1))
           (drop 2 argv) w)
        (\<lambda>oc w. ret (oc_exit_code oc) w))"

section \<open>Properties\<close>

lemma FindExecutableInPath_sound:
  "FindExecutableInPath exists real_path self executable accept dirs = Inr path \<Longrightarrow>
     exists path \<and> real_path path \<noteq> self \<and> accept (real_path path) \<and> (\<exists>dir \<in> set dirs. path = dir @ ''/'' @ executable)"
  by (induction exists real_path self executable accept dirs rule: FindExecutableInPath.induct)
     (auto simp: Let_def split: if_splits)


text \<open>
  The program ends with the exit code of a compiler, or with 0: without arguments it does nothing;
  otherwise the compiler is the absolute path it was given, or a file of the search path with that name
  that neither is the client itself nor a wrapper, and the exit code is that of this compiler on the
  arguments after it, or 0 for a compilation of one file whose result came from the cloud.
\<close>

theorem client_main_outcome:
  assumes "client_main env exists realpath path_env argv w = Some (Inr (code, w'))" and "1 < length argv"
  shows "\<exists>path.
    (if argv ! 1 \<noteq> [] \<and> hd (argv ! 1) = CHR ''/'' then path = argv ! 1
     else exists path \<and> GetRealPath realpath path \<noteq> GetSelfExecutable realpath \<and> not_wrapper (GetRealPath realpath path) \<and>
       (\<exists>dir \<in> set (path_dirs [] path_env). path = dir @ ''/'' @ GetBaseName (argv ! 1))) \<and>
    (code = native env path (drop 2 argv) \<or>
     code = 0 \<and> (\<exists>a0. CompilerArgs_new (drop 2 argv) = Inr a0 \<and> IsDistributable (SetCompiler path a0)))"
proof -
  let ?compiler = "find_compiler exists (GetRealPath realpath) (GetSelfExecutable realpath) path_env (argv ! 1)"
  from assms obtain oc where oc: "Compile env ?compiler (drop 2 argv) w = Some (Inr (oc, w'))" "code = oc_exit_code oc"
    by (auto simp: client_main_def andThen_eq_Inr ret_def)
  from compile_outcome_lemma[OF oc(1)] obtain path a0 where p: "?compiler = Inr path" "CompilerArgs_new (drop 2 argv) = Inr a0"
    "oc = native_outcome (native env path (drop 2 argv)) \<or>
     IsDistributable (SetCompiler path a0) \<and> from_cloud env (SetCompiler path a0) oc" by blast
  have code: "code = native env path (drop 2 argv) \<or> code = 0 \<and> IsDistributable (SetCompiler path a0)"
    using p(3) oc(2) by (auto simp: native_outcome_def from_cloud_def)
  have "if argv ! 1 \<noteq> [] \<and> hd (argv ! 1) = CHR ''/'' then path = argv ! 1
     else exists path \<and> GetRealPath realpath path \<noteq> GetSelfExecutable realpath \<and> not_wrapper (GetRealPath realpath path) \<and>
       (\<exists>dir \<in> set (path_dirs [] path_env). path = dir @ ''/'' @ GetBaseName (argv ! 1))"
    using p(1) by (auto simp: find_compiler_def dest!: FindExecutableInPath_sound split: if_splits)
  with code p(2) show ?thesis by blast
qed

text \<open>A client that is only asked for its name does nothing.\<close>

theorem client_main_idle: "client_main env exists realpath path_env [name] w = Some (Inr (0, w))"
  by (simp add: client_main_def ret_def)

end
